(* ===== verification/Prelude.thy ===== *)
theory Prelude
  imports Main "HOL-Library.Word"
begin

unbundle bit_operations_syntax

text \<open>
  Shared vocabulary of the development: the C integer types as words, pointers that may be NULL as
  options, the byte buffers the code reads and writes, and the generic facts on lists and words
  that the component theories use. Nothing here is specific to one C file.

  A pointer argument of the C code is an \<open>option\<close>: \<open>None\<close> is NULL and \<open>Some x\<close> points to an object
  with content \<open>x\<close>. A function that writes through a pointer returns the new content. A buffer is
  the list of the bytes of the object it points into; a separate \<open>u32\<close> carries the length or
  the capacity the caller claims, as in the C signatures.
\<close>

type_synonym u8 = "8 word"
type_synonym u16 = "16 word"
type_synonym u32 = "32 word"
type_synonym u64 = "64 word"
type_synonym 'a ptr = "'a option"

named_theorems layout \<open>equations that lay a frame out as a list of bytes\<close>
named_theorems width \<open>lengths of the byte lists of the wire format\<close>

text \<open>Assigning through a pointer: nothing happens when it is NULL.\<close>

definition store :: "'a \<Rightarrow> 'a ptr \<Rightarrow> 'a ptr" where
  "store x p = (case p of None \<Rightarrow> None | Some _ \<Rightarrow> Some x)"

lemma store_simps [simp]: "store x None = None" "store x (Some y) = Some x"
  by (simp_all add: store_def)

lemma store_eq_None [simp]: "store x p = None \<longleftrightarrow> p = None"
  by (cases p) simp_all

lemma store_store [simp]: "store x (store y p) = store x p"
  by (cases p) simp_all

text \<open>The array behind a pointer.\<close>

definition deref :: "'a list ptr \<Rightarrow> 'a list" where
  "deref p = (case p of None \<Rightarrow> [] | Some xs \<Rightarrow> xs)"

subsection \<open>Overlaying a buffer\<close>

text \<open>
  \<open>overlay b off vs\<close> is the buffer \<open>b\<close> after the bytes \<open>vs\<close> have been stored at offset \<open>off\<close>. The
  code stores one byte at a time; consecutive stores collapse to one overlay.
\<close>

definition overlay :: "'a list \<Rightarrow> nat \<Rightarrow> 'a list \<Rightarrow> 'a list" where
  "overlay b off vs = take off b @ vs @ drop (off + length vs) b"

lemma length_overlay [simp]:
  "off + length vs \<le> length b \<Longrightarrow> length (overlay b off vs) = length b"
  by (simp add: overlay_def)

lemma overlay_0: "overlay b 0 vs = vs @ drop (length vs) b"
  by (simp add: overlay_def)

lemma update_overlay: "off < length b \<Longrightarrow> b[off := v] = overlay b off [v]"
  by (simp add: overlay_def upd_conv_take_nth_drop)

lemma overlay_overlay:
  assumes "off' = off + length vs" "off + length vs \<le> length b"
  shows "overlay (overlay b off vs) off' ws = overlay b off (vs @ ws)"
  using assms by (simp add: overlay_def add.commute add.left_commute)

lemma update_after_overlay:
  assumes "off' = off + length vs" "off' < length b"
  shows "(overlay b off vs)[off' := v] = overlay b off (vs @ [v])"
  using assms by (simp add: update_overlay overlay_overlay)

lemma take_overlay_0: "length vs \<le> length b \<Longrightarrow> take (length vs) (overlay b 0 vs) = vs"
  by (simp add: overlay_0)

lemma nth_overlay_0: "i < length vs \<Longrightarrow> overlay b 0 vs ! i = vs ! i"
  by (simp add: overlay_0 nth_append)

subsection \<open>Indexed loops\<close>

text \<open>A counted loop over the elements of a buffer is a fold over the buffer's prefix.\<close>

lemma fold_nth_take:
  "n \<le> length xs \<Longrightarrow> fold (\<lambda>i. f (xs ! i)) [0..<n] a = fold f (take n xs) a"
proof (induction n)
  case 0
  show ?case by simp
next
  case (Suc n)
  then have "fold (\<lambda>i. f (xs ! i)) [0..<n] a = fold f (take n xs) a" by simp
  moreover have "take (Suc n) xs = take n xs @ [xs ! n]"
    using Suc.prems by (simp add: take_Suc_conv_app_nth)
  ultimately show ?case by simp
qed

lemma find_upt_Some:
  "List.find P [0..<n] = Some i \<Longrightarrow> i < n \<and> P i \<and> (\<forall>j < i. \<not> P j)"
  by (auto simp: find_Some_iff)

lemma find_upt_None: "List.find P [0..<n] = None \<longleftrightarrow> (\<forall>i < n. \<not> P i)"
  by (auto simp: find_None_iff)

subsection \<open>Words\<close>

lemma unat_Suc_word: "unat (x :: 'a :: len word) + 1 < 2 ^ LENGTH('a) \<Longrightarrow> unat (x + 1) = unat x + 1"
  by (simp add: unat_word_ariths)

lemma unat_Suc_u32: "unat (x :: u32) < 4294967295 \<Longrightarrow> unat (x + 1) = Suc (unat x)"
  by (simp add: unat_word_ariths)

lemma unat_less_u32 [simp]: "unat (x :: u32) < 4294967296"
  using unsigned_less [of x] by simp

lemma unat_Suc_less_u32: "(x :: u32) < y \<Longrightarrow> unat (x + 1) = Suc (unat x)"
  using unat_less_u32 [of y] by (simp add: unat_Suc_u32 word_less_nat_alt del: unat_less_u32)

lemma Suc_neq_0_u32: "(x :: u32) < y \<Longrightarrow> x + 1 \<noteq> 0"
  using unat_Suc_less_u32 [of x y] by auto

lemma unat_Suc_neq_0_u32:
  assumes "(x :: u32) + 1 \<noteq> 0"
  shows "unat (x + 1) = Suc (unat x)"
proof (rule unat_Suc_u32, rule ccontr)
  assume "\<not> unat x < 4294967295"
  then have "unat x = 4294967295" using unat_less_u32 [of x] by linarith
  then have "unat (x + 1) = 0" by (simp add: unat_word_ariths)
  then show False using assms by (simp add: unat_eq_zero)
qed

lemma Suc_u32_eqI: "unat (a :: u32) = unat b + 1 \<Longrightarrow> b + 1 = a"
  using unat_less_u32 [of a] by (simp add: word_unat_eq_iff unat_Suc_u32 del: unat_less_u32)

lemma unat_less_u8 [simp]: "unat (x :: u8) < 256"
  using unsigned_less [of x] by simp

lemma word_neq_0_unat: "(x :: 'a :: len word) \<noteq> 0 \<longleftrightarrow> 0 < unat x"
  by (simp add: unat_gt_0)

end
