(* ===== verification/Codec.thy ===== *)
theory Codec
  imports Prelude
begin

text \<open>
  \<open>src/src/num8lora_codec.c\<close>: CRC-16/CCITT-FALSE, little-endian loads and stores, and the checked
  32-bit additions and multiplications that both protocol lines use. The lemmas show that the
  loads invert the stores, that the checked arithmetic is exact, and that the CRC is a fold of an
  injective register step, which is what makes it detect corrupted bytes.
\<close>

subsection \<open>The code\<close>

definition crc16_bit_step :: "u16 \<Rightarrow> u16" where
  "crc16_bit_step crc =
    (if crc AND 0x8000 \<noteq> 0
     then ucast (push_bit 1 (ucast crc :: u32) XOR 0x1021)
     else ucast (push_bit 1 (ucast crc :: u32)))"

definition crc16_byte_step :: "u8 \<Rightarrow> u16 \<Rightarrow> u16" where
  "crc16_byte_step byte crc =
    (let crc = crc XOR push_bit 8 (ucast byte) in (crc16_bit_step ^^ 8) crc)"

definition num8lora_codec_crc16_ccitt_false :: "u8 list ptr \<Rightarrow> u32 \<Rightarrow> u16" where
  "num8lora_codec_crc16_ccitt_false data len =
    (case data of
       None \<Rightarrow> if len \<noteq> 0 then 0 else 0xFFFF
     | Some p \<Rightarrow> fold (\<lambda>i. crc16_byte_step (p ! i)) [0..<unat len] 0xFFFF)"

definition num8lora_codec_read_u16_le :: "u8 list \<Rightarrow> nat \<Rightarrow> u16" where
  "num8lora_codec_read_u16_le p off = ucast (p ! off) OR push_bit 8 (ucast (p ! (off + 1)))"

definition num8lora_codec_read_u32_le :: "u8 list \<Rightarrow> nat \<Rightarrow> u32" where
  "num8lora_codec_read_u32_le p off =
    ucast (p ! off) OR push_bit 8 (ucast (p ! (off + 1)))
    OR push_bit 16 (ucast (p ! (off + 2))) OR push_bit 24 (ucast (p ! (off + 3)))"

definition num8lora_codec_write_u16_le :: "u8 list \<Rightarrow> nat \<Rightarrow> u16 \<Rightarrow> u8 list" where
  "num8lora_codec_write_u16_le p off v =
    p[off := ucast (v AND 0xFF), off + 1 := ucast (drop_bit 8 v AND 0xFF)]"

definition num8lora_codec_write_u32_le :: "u8 list \<Rightarrow> nat \<Rightarrow> u32 \<Rightarrow> u8 list" where
  "num8lora_codec_write_u32_le p off v =
    p[off := ucast (v AND 0xFF), off + 1 := ucast (drop_bit 8 v AND 0xFF),
      off + 2 := ucast (drop_bit 16 v AND 0xFF), off + 3 := ucast (drop_bit 24 v AND 0xFF)]"

definition num8lora_codec_add_u32 :: "u32 \<Rightarrow> u32 \<Rightarrow> u32 ptr \<Rightarrow> bool \<times> u32 ptr" where
  "num8lora_codec_add_u32 a b out =
    (let sum = (ucast a :: u64) + ucast b
     in if sum > 0xFFFFFFFF \<or> out = None then (False, out) else (True, Some (ucast sum)))"

definition num8lora_codec_mul_u32 :: "u32 \<Rightarrow> u32 \<Rightarrow> u32 ptr \<Rightarrow> bool \<times> u32 ptr" where
  "num8lora_codec_mul_u32 a b out =
    (let prod = (ucast a :: u64) * ucast b
     in if prod > 0xFFFFFFFF \<or> out = None then (False, out) else (True, Some (ucast prod)))"

definition num8lora_codec_zero_bytes :: "u8 list ptr \<Rightarrow> u32 \<Rightarrow> u8 list ptr" where
  "num8lora_codec_zero_bytes p len =
    (case p of
       None \<Rightarrow> None
     | Some b \<Rightarrow> Some (fold (\<lambda>i b. b[i := 0]) [0..<unat len] b))"

subsection \<open>Little-endian loads and stores\<close>

text \<open>The bytes of a value in wire order, and the overlay each store performs.\<close>

definition le16 :: "u16 \<Rightarrow> u8 list" where
  "le16 v = [ucast (v AND 0xFF), ucast (drop_bit 8 v AND 0xFF)]"

definition le32 :: "u32 \<Rightarrow> u8 list" where
  "le32 v = [ucast (v AND 0xFF), ucast (drop_bit 8 v AND 0xFF),
             ucast (drop_bit 16 v AND 0xFF), ucast (drop_bit 24 v AND 0xFF)]"

lemma length_le16 [simp, width]: "length (le16 v) = 2"
  by (simp add: le16_def)

lemma length_le32 [simp, width]: "length (le32 v) = 4"
  by (simp add: le32_def)

lemma write_u16_overlay:
  "off + 2 \<le> length p \<Longrightarrow> num8lora_codec_write_u16_le p off v = overlay p off (le16 v)"
  by (simp add: num8lora_codec_write_u16_le_def le16_def update_overlay overlay_overlay)

lemma write_u32_overlay:
  "off + 4 \<le> length p \<Longrightarrow> num8lora_codec_write_u32_le p off v = overlay p off (le32 v)"
  by (simp add: num8lora_codec_write_u32_le_def le32_def update_overlay overlay_overlay)

lemma length_write_u16 [simp]: "length (num8lora_codec_write_u16_le p off v) = length p"
  by (simp add: num8lora_codec_write_u16_le_def)

lemma length_write_u32 [simp]: "length (num8lora_codec_write_u32_le p off v) = length p"
  by (simp add: num8lora_codec_write_u32_le_def)

lemma and_255: "(v :: 'a :: len word) AND 255 = take_bit 8 v"
proof -
  have "(255 :: 'a word) = mask 8" by (simp add: mask_eq_exp_minus_1)
  then show ?thesis by (simp add: take_bit_eq_mask)
qed

lemma byte_cases:
  fixes n :: nat
  assumes "n < 32"
  obtains "n < 8" | m where "n = 8 + m" "m < 8" | m where "n = 16 + m" "m < 8"
    | m where "n = 24 + m" "m < 8"
proof -
  consider "n < 8" | "8 \<le> n \<and> n < 16" | "16 \<le> n \<and> n < 24" | "24 \<le> n \<and> n < 32"
    using assms by linarith
  then show ?thesis
    by cases (auto simp: le_iff_add intro: that)
qed

lemma read_u16_le16: "num8lora_codec_read_u16_le (le16 v) 0 = v"
  unfolding num8lora_codec_read_u16_le_def le16_def and_255
  by (rule bit_word_eqI) (auto simp: bit_simps)

lemma read_u32_le32: "num8lora_codec_read_u32_le (le32 v) 0 = v"
proof (rule bit_word_eqI)
  fix n assume "n < LENGTH(32)"
  then have "n < 32" by simp
  then show "bit (num8lora_codec_read_u32_le (le32 v) 0) n = bit v n"
    unfolding num8lora_codec_read_u32_le_def le32_def and_255
    by (cases rule: byte_cases) (simp_all add: bit_simps numeral_2_eq_2 numeral_3_eq_3)
qed

lemma le16_read_u16: "le16 (num8lora_codec_read_u16_le [a, b] 0) = [a, b]"
proof -
  have "(ucast ((ucast a OR push_bit 8 (ucast b) :: u16) AND 0xFF) :: u8) = a"
       "(ucast (drop_bit 8 (ucast a OR push_bit 8 (ucast b) :: u16) AND 0xFF) :: u8) = b"
    unfolding and_255
    by (rule bit_word_eqI, auto simp: bit_simps dest: bit_imp_le_length)+
  then show ?thesis by (simp add: le16_def num8lora_codec_read_u16_le_def)
qed

lemma le32_read_u32: "le32 (num8lora_codec_read_u32_le [a, b, c, d] 0) = [a, b, c, d]"
proof -
  define v where "v = (ucast a :: u32) OR push_bit 8 (ucast b) OR push_bit 16 (ucast c)
    OR push_bit 24 (ucast d)"
  have "(ucast (v AND 0xFF) :: u8) = a" "(ucast (drop_bit 8 v AND 0xFF) :: u8) = b"
       "(ucast (drop_bit 16 v AND 0xFF) :: u8) = c" "(ucast (drop_bit 24 v AND 0xFF) :: u8) = d"
    unfolding and_255 v_def
    by (rule bit_word_eqI, auto simp: bit_simps dest: bit_imp_le_length)+
  then show ?thesis
    by (simp add: le32_def num8lora_codec_read_u32_le_def v_def [symmetric] numeral_2_eq_2
        numeral_3_eq_3)
qed

text \<open>A load at an offset reads the slice of the buffer there.\<close>

lemma read_u16_at:
  assumes "off + 2 \<le> length p"
  shows "num8lora_codec_read_u16_le p off = v \<longleftrightarrow> take 2 (drop off p) = le16 v"
proof -
  have s: "take 2 (drop off p) = [p ! off, p ! (off + 1)]"
    using assms by (simp add: numeral_2_eq_2 take_Suc_conv_app_nth)
  have r: "num8lora_codec_read_u16_le p off = num8lora_codec_read_u16_le [p ! off, p ! (off + 1)] 0"
    by (simp add: num8lora_codec_read_u16_le_def)
  show ?thesis
    unfolding s r by (metis le16_read_u16 read_u16_le16)
qed

lemma read_u32_at:
  assumes "off + 4 \<le> length p"
  shows "num8lora_codec_read_u32_le p off = v \<longleftrightarrow> take 4 (drop off p) = le32 v"
proof -
  have s: "take 4 (drop off p) = [p ! off, p ! (off + 1), p ! (off + 2), p ! (off + 3)]"
    using assms by (simp add: eval_nat_numeral take_Suc_conv_app_nth)
  have r: "num8lora_codec_read_u32_le p off
      = num8lora_codec_read_u32_le [p ! off, p ! (off + 1), p ! (off + 2), p ! (off + 3)] 0"
    by (simp add: num8lora_codec_read_u32_le_def numeral_2_eq_2 numeral_3_eq_3)
  show ?thesis
    unfolding s r by (metis le32_read_u32 read_u32_le32)
qed

lemma le16_inject [simp]: "le16 v = le16 w \<longleftrightarrow> v = w"
  by (metis read_u16_le16)

lemma le32_inject [simp]: "le32 v = le32 w \<longleftrightarrow> v = w"
  by (metis read_u32_le32)

subsection \<open>Checked arithmetic\<close>

lemma unat_u32_in_u64 [simp]: "unat (ucast (a :: u32) :: u64) = unat a"
  using unat_less_u32 [of a] by (simp add: unsigned_ucast_eq take_bit_nat_eq_self_iff del: unat_less_u32)

lemma u64_le_max_u32: "(w :: u64) > 0xFFFFFFFF \<longleftrightarrow> \<not> unat w < 4294967296"
  by (simp add: word_less_nat_alt) linarith

lemma add_u32_exact:
  "num8lora_codec_add_u32 a b (Some x) =
    (if unat a + unat b < 2 ^ 32 then (True, Some (a + b)) else (False, Some x))"
proof -
  have "unat ((ucast a :: u64) + ucast b) = unat a + unat b"
    using unat_less_u32 [of a] unat_less_u32 [of b]
    by (simp add: unat_word_ariths del: unat_less_u32)
  moreover have "(ucast ((ucast a :: u64) + ucast b) :: u32) = a + b"
    by (simp add: word_unat_eq_iff unat_word_ariths unsigned_ucast_eq take_bit_eq_mod
        mod_mod_cancel)
  ultimately show ?thesis
    by (simp add: num8lora_codec_add_u32_def Let_def u64_le_max_u32)
qed

lemma mul_u32_exact:
  "num8lora_codec_mul_u32 a b (Some x) =
    (if unat a * unat b < 2 ^ 32 then (True, Some (a * b)) else (False, Some x))"
proof -
  have "unat a * unat b \<le> 4294967295 * 4294967295"
    using unat_less_u32 [of a] unat_less_u32 [of b] by (intro mult_le_mono) linarith+
  then have "unat ((ucast a :: u64) * ucast b) = unat a * unat b"
    by (simp add: unat_word_ariths)
  moreover have "(ucast ((ucast a :: u64) * ucast b) :: u32) = a * b"
    by (simp add: word_unat_eq_iff unat_word_ariths unsigned_ucast_eq take_bit_eq_mod
        mod_mod_cancel)
  ultimately show ?thesis
    by (simp add: num8lora_codec_mul_u32_def Let_def u64_le_max_u32)
qed

lemma zero_bytes_exact:
  assumes "unat n \<le> length b"
  shows "num8lora_codec_zero_bytes (Some b) n = Some (replicate (unat n) 0 @ drop (unat n) b)"
proof -
  have "m \<le> length b \<Longrightarrow> fold (\<lambda>i b. b[i := 0]) [0..<m] b = replicate m 0 @ drop m b" for m
  proof (induction m)
    case (Suc m)
    then show ?case
      by (simp add: list_update_append replicate_append_same Cons_nth_drop_Suc [symmetric])
  qed simp
  with assms show ?thesis by (simp add: num8lora_codec_zero_bytes_def)
qed

lemma xor_left_cancel: "(c :: 'a :: len word) XOR x = c XOR y \<longleftrightarrow> x = y"
  by (auto simp: bit_eq_iff bit_xor_iff)

lemma xor_right_cancel: "(x :: 'a :: len word) XOR c = y XOR c \<longleftrightarrow> x = y"
  by (auto simp: bit_eq_iff bit_xor_iff)

subsection \<open>The CRC register\<close>

text \<open>The checksum of a byte list, free of the buffer it sits in.\<close>

definition crc_of :: "u8 list \<Rightarrow> u16" where
  "crc_of bs = fold crc16_byte_step bs 0xFFFF"

lemma crc16_is_crc_of:
  "unat len \<le> length p \<Longrightarrow> num8lora_codec_crc16_ccitt_false (Some p) len = crc_of (take (unat len) p)"
  by (simp add: num8lora_codec_crc16_ccitt_false_def crc_of_def fold_nth_take)

lemma crc16_bit_step_alt:
  "crc16_bit_step c = (if bit c 15 then push_bit 1 c XOR 0x1021 else push_bit 1 c)"
proof -
  have "(0x8000 :: u16) = 2 ^ 15" by simp
  then have top: "(c AND 0x8000 \<noteq> 0) = bit c 15"
    by (simp only: and_exp_eq_0_iff_not_bit) simp
  have shift: "(ucast (push_bit 1 (ucast c :: u32)) :: u16) = push_bit 1 c"
    by (rule bit_word_eqI) (auto simp: bit_push_bit_iff bit_unsigned_iff simp del: push_bit_Suc)
  have "(ucast (push_bit 1 (ucast c :: u32) XOR 0x1021) :: u16) = push_bit 1 c XOR 0x1021"
    by (simp only: unsigned_xor_eq shift) simp
  then show ?thesis
    unfolding crc16_bit_step_def top shift by simp
qed

lemma bit_crc16_bit_step_0: "bit (crc16_bit_step c) 0 = bit c 15"
  by (simp only: crc16_bit_step_alt bit_simps split: if_splits) simp

lemma bit_crc16_bit_step_Suc:
  "n < 15 \<Longrightarrow>
    bit (crc16_bit_step c) (Suc n) = (bit c n \<noteq> (bit c 15 \<and> bit (0x1021 :: u16) (Suc n)))"
  by (simp only: crc16_bit_step_alt bit_simps split: if_splits) simp

text \<open>The step loses nothing: the bit shifted out comes back as bit 0.\<close>

lemma crc16_bit_step_inj: "inj crc16_bit_step"
proof (rule injI, rule bit_word_eqI)
  fix c d n
  assume eq: "crc16_bit_step c = crc16_bit_step d" and n: "n < LENGTH(16)"
  have top: "bit c 15 = bit d 15"
    using eq bit_crc16_bit_step_0 by metis
  show "bit c n = bit d n"
  proof (cases "n = 15")
    case False
    with n have "n < 15" by simp
    then show ?thesis
      using eq top bit_crc16_bit_step_Suc [of n c] bit_crc16_bit_step_Suc [of n d] by auto
  qed (simp add: top)
qed

lemma crc16_bit_step_xor: "crc16_bit_step (c XOR d) = crc16_bit_step c XOR crc16_bit_step d"
  by (simp only: crc16_bit_step_alt bit_xor_iff push_bit_xor) (simp add: ac_simps xor.left_commute)

lemma crc16_bits_inj: "inj (crc16_bit_step ^^ n)"
  by (induction n) (auto simp: inj_def dest!: injD [OF crc16_bit_step_inj])

lemma crc16_bits_xor:
  "(crc16_bit_step ^^ n) (c XOR d) = (crc16_bit_step ^^ n) c XOR (crc16_bit_step ^^ n) d"
  by (induction n) (simp_all add: crc16_bit_step_xor)

lemma crc16_bits_low:
  "(\<And>j. 16 \<le> j + n \<Longrightarrow> j < 16 \<Longrightarrow> \<not> bit x j) \<Longrightarrow> (crc16_bit_step ^^ n) x = push_bit n x"
proof (induction n)
  case (Suc n)
  then have step: "(crc16_bit_step ^^ Suc n) x = crc16_bit_step (push_bit n x)" by simp
  have "\<not> bit (push_bit n x) 15"
    using Suc.prems [of "15 - n"] by (auto simp: bit_push_bit_iff)
  then have "crc16_bit_step (push_bit n x) = push_bit 1 (push_bit n x)"
    by (simp only: crc16_bit_step_alt if_False)
  with step show ?case by (simp only: push_bit_push_bit) simp
qed simp

lemma crc16_byte_inj: "inj (crc16_byte_step b)"
proof (rule injI)
  fix c d
  assume "crc16_byte_step b c = crc16_byte_step b d"
  then have "c XOR push_bit 8 (ucast b) = d XOR push_bit 8 (ucast b)"
    unfolding crc16_byte_step_def Let_def by (rule injD [OF crc16_bits_inj])
  then show "c = d" by (metis xor_right_cancel)
qed

lemma crc_fold_inj: "inj (fold crc16_byte_step bs)"
  by (induction bs) (auto simp: inj_def dest!: injD [OF crc16_byte_inj])

text \<open>
  Two steps consume two bytes as one 16-bit block, because the low byte of the register is still
  untouched when the second byte is mixed in.
\<close>

lemma crc16_two_bytes:
  "crc16_byte_step b (crc16_byte_step a c)
    = (crc16_bit_step ^^ 16) (c XOR push_bit 8 (ucast a) XOR ucast b)"
proof -
  have "(crc16_bit_step ^^ 8) (ucast b) = push_bit 8 (ucast b)"
    by (rule crc16_bits_low) (auto simp: bit_simps dest: bit_imp_le_length)
  then have "crc16_byte_step b (crc16_byte_step a c)
      = (crc16_bit_step ^^ 8) ((crc16_bit_step ^^ 8) (c XOR push_bit 8 (ucast a) XOR ucast b))"
    by (simp add: crc16_byte_step_def Let_def crc16_bits_xor ac_simps)
  also have "\<dots> = (crc16_bit_step ^^ (8 + 8)) (c XOR push_bit 8 (ucast a) XOR ucast b)"
    by (simp only: funpow_add o_apply)
  finally show ?thesis by simp
qed

lemma crc16_two_bytes_inj:
  assumes "crc16_byte_step b (crc16_byte_step a c) = crc16_byte_step b' (crc16_byte_step a' c)"
  shows "a = a' \<and> b = b'"
proof -
  have "c XOR push_bit 8 (ucast a) XOR ucast b = c XOR push_bit 8 (ucast a') XOR (ucast b' :: u16)"
    using assms injD [OF crc16_bits_inj [of 16]] unfolding crc16_two_bytes by blast
  then have eq: "(push_bit 8 (ucast a) XOR ucast b :: u16) = push_bit 8 (ucast a') XOR ucast b'"
    by (simp add: xor.assoc xor_left_cancel)
  show ?thesis
  proof (intro conjI)
    show "a = a'"
    proof (rule bit_word_eqI)
      fix n assume "n < LENGTH(8)"
      then show "bit a n = bit a' n"
        using arg_cong [OF eq, of "\<lambda>w. bit w (n + 8)"]
        by (auto simp: bit_simps dest: bit_imp_le_length)
    qed
    show "b = b'"
    proof (rule bit_word_eqI)
      fix n assume "n < LENGTH(8)"
      then show "bit b n = bit b' n"
        using arg_cong [OF eq, of "\<lambda>w. bit w n"] by (simp add: bit_simps)
    qed
  qed
qed

text \<open>Bytes that differ in one place, or in two adjacent places, have different checksums.\<close>

lemma crc_of_burst:
  assumes "crc_of (xs @ [a, b] @ ys) = crc_of (xs @ [a', b'] @ ys)"
  shows "a = a' \<and> b = b'"
proof -
  let ?c = "fold crc16_byte_step xs 0xFFFF"
  have "fold crc16_byte_step ys (crc16_byte_step b (crc16_byte_step a ?c))
      = fold crc16_byte_step ys (crc16_byte_step b' (crc16_byte_step a' ?c))"
    using assms by (simp add: crc_of_def)
  then have "crc16_byte_step b (crc16_byte_step a ?c) = crc16_byte_step b' (crc16_byte_step a' ?c)"
    by (rule injD [OF crc_fold_inj])
  then show ?thesis by (rule crc16_two_bytes_inj)
qed


text \<open>
  The register step on a numeral, in a form that evaluates by rewriting on natural numbers.
\<close>

definition crc16_bit_nat :: "nat \<Rightarrow> nat" where
  "crc16_bit_nat n = (if 32768 \<le> n then (2 * n - 65536) XOR 4129 else 2 * n)"

lemma unat_bit_15: "bit (c :: u16) 15 \<longleftrightarrow> 32768 \<le> unat c"
proof -
  have "unat c < 65536" using unsigned_less [of c] by simp
  then have "unat c div 32768 = (if 32768 \<le> unat c then 1 else 0)"
    by (auto intro: div_nat_eqI)
  then have "bit (unat c) 15 \<longleftrightarrow> 32768 \<le> unat c"
    by (simp add: bit_iff_odd)
  then show ?thesis by (simp add: bit_unsigned_iff)
qed

lemma unat_crc16_bit_step: "unat (crc16_bit_step c) = crc16_bit_nat (unat c)"
proof -
  have b: "unat c < 65536" using unsigned_less [of c] by simp
  have s: "unat (push_bit 1 c) = (if 32768 \<le> unat c then 2 * unat c - 65536 else 2 * unat c)"
    using b by (auto simp: unat_word_ariths mod_if)
  have x: "unat (push_bit 1 c XOR 0x1021) = unat (push_bit 1 c) XOR 4129"
    by (simp add: unsigned_xor_eq)
  show ?thesis
    by (simp only: crc16_bit_step_alt crc16_bit_nat_def unat_bit_15 x s split: if_splits) simp
qed

lemma unat_crc16_bits: "unat ((crc16_bit_step ^^ n) c) = (crc16_bit_nat ^^ n) (unat c)"
  by (induction n) (simp_all add: unat_crc16_bit_step)

lemma unat_crc16_byte_step:
  "unat (crc16_byte_step b c) = (crc16_bit_nat ^^ 8) (unat c XOR push_bit 8 (unat b))"
proof -
  have "unat (push_bit 8 (ucast b) :: u16) = push_bit 8 (unat b)"
    using unat_less_u8 [of b]
    by (simp add: unat_word_ariths unsigned_ucast_eq take_bit_eq_mod push_bit_eq_mult
        del: unat_less_u8)
  then show ?thesis
    by (simp add: crc16_byte_step_def Let_def unat_crc16_bits unsigned_xor_eq)
qed

lemma unat_crc_fold:
  "unat (fold crc16_byte_step bs c)
    = fold (\<lambda>b n. (crc16_bit_nat ^^ 8) (n XOR push_bit 8 (unat b))) bs (unat c)"
  by (induction bs arbitrary: c) (simp_all add: unat_crc16_byte_step)

lemmas crc16_bit_nat_numeral [simp] =
  crc16_bit_nat_def [of 0] crc16_bit_nat_def [of 1] crc16_bit_nat_def [of "numeral k" for k]

lemma crc16_bit_nat_8:
  "(crc16_bit_nat ^^ 8) n = crc16_bit_nat (crc16_bit_nat (crc16_bit_nat (crc16_bit_nat
    (crc16_bit_nat (crc16_bit_nat (crc16_bit_nat (crc16_bit_nat n)))))))"
  by (simp add: eval_nat_numeral del: crc16_bit_nat_numeral)

lemma crc_check_value:
  "crc_of [0x31, 0x32, 0x33, 0x34, 0x35, 0x36, 0x37, 0x38, 0x39] = 0x29B1"
  unfolding word_unat_eq_iff crc_of_def unat_crc_fold crc16_bit_nat_8 by simp

end
