(* ===== verification/Wire.thy ===== *)
theory Wire
  imports Codec
begin

text \<open>
  What every frame of both protocol lines shares: an 8-byte header, a payload and a CRC footer over
  everything before it. The locale \<open>frame_codec\<close> is the contract between a frame encoder and its
  decoder: the client's lemmas (round trip, canonical form, memory footprints, rejection of bursts)
  are proved once from three laws and hold for every message that interprets it.
\<close>

definition header_bytes :: "u8 \<Rightarrow> u8 \<Rightarrow> u16 \<Rightarrow> u16 \<Rightarrow> u16 \<Rightarrow> u8 list" where
  "header_bytes ver typ sid rid sq = [ver, typ] @ le16 sid @ le16 rid @ le16 sq"

definition seal :: "u8 list \<Rightarrow> u8 list" where
  "seal bs = bs @ le16 (crc_of bs)"

lemma length_header_bytes [simp, width]: "length (header_bytes ver typ sid rid sq) = 8"
  by (simp add: header_bytes_def)

lemma length_seal [simp, width]: "length (seal bs) = length bs + 2"
  by (simp add: seal_def)

subsection \<open>Reads stay inside the prefix they are about\<close>

lemma read_u16_take:
  "off + 2 \<le> n \<Longrightarrow> num8lora_codec_read_u16_le (take n b) off = num8lora_codec_read_u16_le b off"
  by (simp add: num8lora_codec_read_u16_le_def)

lemma read_u32_take:
  "off + 4 \<le> n \<Longrightarrow> num8lora_codec_read_u32_le (take n b) off = num8lora_codec_read_u32_le b off"
  by (simp add: num8lora_codec_read_u32_le_def)

lemma read_u16_append:
  "length xs = off \<Longrightarrow> num8lora_codec_read_u16_le (xs @ le16 v @ ys) off = v"
  by (simp add: read_u16_at)

lemma read_u32_append:
  "length xs = off \<Longrightarrow> num8lora_codec_read_u32_le (xs @ le32 v @ ys) off = v"
  by (simp add: read_u32_at)

text \<open>A sealed frame is one whose last two bytes hold the checksum of the rest.\<close>

lemma seal_iff:
  assumes "length f = n" "2 \<le> n"
  shows "num8lora_codec_read_u16_le f (n - 2) = crc_of (take (n - 2) f)
    \<longleftrightarrow> f = seal (take (n - 2) f)"
proof -
  have f: "f = take (n - 2) f @ drop (n - 2) f" by simp
  have "num8lora_codec_read_u16_le f (n - 2) = crc_of (take (n - 2) f)
      \<longleftrightarrow> take 2 (drop (n - 2) f) = le16 (crc_of (take (n - 2) f))"
    using assms by (intro read_u16_at) simp
  also have "\<dots> \<longleftrightarrow> drop (n - 2) f = le16 (crc_of (take (n - 2) f))"
    using assms by simp
  also have "\<dots> \<longleftrightarrow> f = seal (take (n - 2) f)"
    by (metis append_same_eq f same_append_eq seal_def)
  finally show ?thesis .
qed

lemma seal_inject: "seal xs = seal ys \<longleftrightarrow> xs = ys"
  by (auto simp: seal_def)

text \<open>Two sealed frames that differ only in two adjacent covered bytes are the same frame.\<close>

lemma seal_split: "length cs = 2 \<Longrightarrow> seal bs = xs @ cs \<longleftrightarrow> bs = xs \<and> le16 (crc_of bs) = cs"
  by (simp add: seal_def)

lemma seal_burst:
  assumes "seal bs = xs @ [u, v] @ ys @ [c0, c1]" and "seal bs' = xs @ [u', v'] @ ys @ [c0, c1]"
  shows "u = u' \<and> v = v'"
proof -
  have two: "length [c0, c1] = 2" by simp
  have "seal bs = (xs @ [u, v] @ ys) @ [c0, c1]" "seal bs' = (xs @ [u', v'] @ ys) @ [c0, c1]"
    using assms by simp_all
  then have "bs = xs @ [u, v] @ ys \<and> le16 (crc_of bs) = [c0, c1] \<and>
      bs' = xs @ [u', v'] @ ys \<and> le16 (crc_of bs') = [c0, c1]"
    unfolding seal_split [OF two] by (intro conjI) blast+
  then have "crc_of (xs @ [u, v] @ ys) = crc_of (xs @ [u', v'] @ ys)"
    by (metis le16_inject)
  then show ?thesis by (rule crc_of_burst)
qed

subsection \<open>Evaluating reads on a frame written out\<close>

lemma le16_read [layout]: "le16 (num8lora_codec_read_u16_le (a # b # xs) 0) = [a, b]"
  using le16_read_u16 [of a b] by (simp add: num8lora_codec_read_u16_le_def)

lemma le32_read [layout]: "le32 (num8lora_codec_read_u32_le (a # b # c # d # xs) 0) = [a, b, c, d]"
  using le32_read_u32 [of a b c d]
  by (simp add: num8lora_codec_read_u32_le_def numeral_2_eq_2 numeral_3_eq_3)

lemma read_u16_skip [layout]:
  "length xs \<le> off \<Longrightarrow>
    num8lora_codec_read_u16_le (xs @ ys) off = num8lora_codec_read_u16_le ys (off - length xs)"
  "0 < off \<Longrightarrow>
    num8lora_codec_read_u16_le (x # ys) off = num8lora_codec_read_u16_le ys (off - 1)"
  by (simp_all add: num8lora_codec_read_u16_le_def nth_append nth_Cons' Suc_diff_le)

lemma read_u32_skip [layout]:
  "length xs \<le> off \<Longrightarrow>
    num8lora_codec_read_u32_le (xs @ ys) off = num8lora_codec_read_u32_le ys (off - length xs)"
  "0 < off \<Longrightarrow>
    num8lora_codec_read_u32_le (x # ys) off = num8lora_codec_read_u32_le ys (off - 1)"
  by (simp_all add: num8lora_codec_read_u32_le_def nth_append nth_Cons' Suc_diff_le
      eval_nat_numeral)

lemma read_first [layout]:
  "num8lora_codec_read_u16_le (le16 v @ ys) 0 = v" "num8lora_codec_read_u16_le (le16 v) 0 = v"
  "num8lora_codec_read_u32_le (le32 w @ ys) 0 = w" "num8lora_codec_read_u32_le (le32 w) 0 = w"
  using read_u16_append [of "[]" 0 v ys] read_u16_append [of "[]" 0 v "[]"]
    read_u32_append [of "[]" 0 w ys] read_u32_append [of "[]" 0 w "[]"] by simp_all

lemma read_drop:
  "m + off + 2 \<le> length b \<Longrightarrow>
    num8lora_codec_read_u16_le (drop m b) off = num8lora_codec_read_u16_le b (m + off)"
  "m + off + 4 \<le> length b \<Longrightarrow>
    num8lora_codec_read_u32_le (drop m b) off = num8lora_codec_read_u32_le b (m + off)"
  by (simp_all add: num8lora_codec_read_u16_le_def num8lora_codec_read_u32_le_def add.assoc)

subsection \<open>Frames\<close>

text \<open>Both protocol lines carry version 1 in the first byte.\<close>

definition frame :: "u8 \<Rightarrow> u16 \<Rightarrow> u16 \<Rightarrow> u16 \<Rightarrow> u8 list \<Rightarrow> u8 list" where
  "frame typ sid rid sq payload = seal (header_bytes 1 typ sid rid sq @ payload)"

lemma length_frame [simp, width]: "length (frame typ sid rid sq payload) = length payload + 10"
  by (simp add: frame_def)

lemma header_split:
  assumes "8 \<le> length g"
  shows "g = header_bytes (g ! 0) (g ! 1) (num8lora_codec_read_u16_le g 2)
    (num8lora_codec_read_u16_le g 4) (num8lora_codec_read_u16_le g 6) @ drop 8 g"
proof -
  obtain a b c d e f h i xs where g: "g = a # b # c # d # e # f # h # i # xs"
    using assms by (auto simp: numeral_eq_Suc Suc_le_length_iff)
  then show ?thesis by (simp add: header_bytes_def layout)
qed

lemma header_bytes_inject [simp]:
  "header_bytes ver typ sid rid sq @ xs = header_bytes ver' typ' sid' rid' sq' @ xs'
    \<longleftrightarrow> ver = ver' \<and> typ = typ' \<and> sid = sid' \<and> rid = rid' \<and> sq = sq' \<and> xs = xs'"
  by (auto simp: header_bytes_def)

lemma frame_inject [simp]:
  "frame typ sid rid sq pay = frame typ' sid' rid' sq' pay'
    \<longleftrightarrow> typ = typ' \<and> sid = sid' \<and> rid = rid' \<and> sq = sq' \<and> pay = pay'"
  by (simp add: frame_def seal_inject)

lemma frame_prefix:
  assumes "take n b = frame typ sid rid sq pay" "n \<le> length b"
  shows "take (n - 2) b = header_bytes 1 typ sid rid sq @ pay" and "n = length pay + 10"
proof -
  have "length (take n b) = length pay + 10" using assms(1) by simp
  then show n: "n = length pay + 10" using assms(2) by simp
  have "take (n - 2) b = take (n - 2) (take n b)" by simp
  also have "\<dots> = header_bytes 1 typ sid rid sq @ pay"
    unfolding assms(1) by (simp add: frame_def seal_def n)
  finally show "take (n - 2) b = header_bytes 1 typ sid rid sq @ pay" .
qed

lemma frame_payload:
  assumes "take n b = frame typ sid rid sq pay" "n \<le> length b"
  shows "pay = take (n - 10) (drop 8 b)"
proof -
  have "pay = drop 8 (take (n - 2) b)"
    using frame_prefix(1) [OF assms] by simp
  also have "\<dots> = take (n - 10) (drop 8 b)"
    by (simp add: drop_take)
  finally show ?thesis .
qed

text \<open>
  The header fields and the checksum a decoder looks at determine the frame: reading version, type
  and addresses of a buffer with a good checksum is having a frame there.
\<close>

lemma frame_iff_reads:
  assumes "n \<le> length b" "10 \<le> n"
  shows "take n b = seal (take (n - 2) b) \<and> b ! 0 = 1 \<and> b ! 1 = typ
      \<and> num8lora_codec_read_u16_le b 2 = sid \<and> num8lora_codec_read_u16_le b 4 = rid
      \<and> num8lora_codec_read_u16_le b 6 = sq
    \<longleftrightarrow> (\<exists>pay. take n b = frame typ sid rid sq pay)" (is "?lhs \<longleftrightarrow> ?rhs")
proof
  let ?g = "take (n - 2) b"
  assume ?lhs
  moreover have "?g = header_bytes (b ! 0) (b ! 1) (num8lora_codec_read_u16_le b 2)
      (num8lora_codec_read_u16_le b 4) (num8lora_codec_read_u16_le b 6) @ drop 8 ?g"
    using header_split [of ?g] assms by (simp add: read_u16_take)
  ultimately show ?rhs unfolding frame_def by metis
next
  assume ?rhs
  then obtain pay where f: "take n b = frame typ sid rid sq pay" by blast
  note g = frame_prefix(1) [OF f assms(1)]
  have "num8lora_codec_read_u16_le b k = num8lora_codec_read_u16_le (take (n - 2) b) k" if "k \<le> 6" for k
    using that assms by (simp add: read_u16_take)
  moreover have "b ! k = take (n - 2) b ! k" if "k < 8" for k
    using that assms by simp
  ultimately show ?lhs
    using f by (simp add: g) (simp add: frame_def header_bytes_def layout)
qed

subsection \<open>The contract of a payload format\<close>

text \<open>
  A payload of fixed size: \<open>print\<close> lays a struct out and \<open>parse\<close> reads it from the bytes that
  follow the header. The two are inverse on payloads of the right size.
\<close>

locale payload_format =
  fixes print :: "'p \<Rightarrow> u8 list"
    and parse :: "u8 list \<Rightarrow> 'p"
    and size :: nat
  assumes length_print: "length (print p) = size"
    and parse_print: "parse (print p @ rest) = p"
    and print_parse: "length bs = size \<Longrightarrow> print (parse bs) = bs"
begin

lemma parse_prefix:
  assumes "size \<le> length bs"
  shows "parse (take size bs) = parse bs"
proof -
  have "print (parse (take size bs)) = take size bs"
    using assms by (intro print_parse) simp
  then have "bs = print (parse (take size bs)) @ drop size bs" by simp
  then show ?thesis by (metis parse_print)
qed

lemma frame_of_parse:
  assumes "n \<le> length b" "n = size + 10"
  shows "(\<exists>pay. take n b = frame typ sid rid sq pay) \<and> p = parse (drop 8 b)
    \<longleftrightarrow> take n b = frame typ sid rid sq (print p)" (is "?lhs \<longleftrightarrow> ?rhs")
proof
  assume ?lhs
  then obtain pay where f: "take n b = frame typ sid rid sq pay" and p: "p = parse (drop 8 b)"
    by blast
  have pay: "pay = take size (drop 8 b)" and "length pay = size"
    using frame_payload [OF f assms(1)] frame_prefix(2) [OF f assms(1)] assms(2) by simp_all
  moreover have "parse (take size (drop 8 b)) = p"
    using p assms by (subst parse_prefix) simp_all
  ultimately have "print p = pay"
    using print_parse by metis
  with f show ?rhs by simp
next
  assume r: ?rhs
  have "print p = take size (drop 8 b)"
    using frame_payload [OF r assms(1)] assms(2) by simp
  then have "parse (drop 8 b) = p"
    using parse_print [of p "drop size (drop 8 b)"] append_take_drop_id [of size "drop 8 b"] by metis
  with r show ?lhs by auto
qed

end

subsection \<open>The contract of an encoder and its decoder\<close>

text \<open>The frame a call left in the caller's buffer, if it reported success.\<close>

definition emitted :: "bool \<Rightarrow> u8 list ptr \<Rightarrow> u32 ptr \<Rightarrow> u8 list option" where
  "emitted ok b n =
    (case (b, n) of (Some b, Some n) \<Rightarrow> if ok then Some (take (unat n) b) else None | _ \<Rightarrow> None)"

lemma emitted_simps [simp]:
  "emitted False b n = None" "emitted True (Some c) (Some m) = Some (take (unat m) c)"
  by (simp_all add: emitted_def split: option.splits)

text \<open>
  \<open>'a\<close> is the address part the encoder takes (sender, receiver, sequence number), \<open>'h\<close> the header
  the decoder fills, \<open>'p\<close> the payload. \<open>wire a p\<close> is the frame as bytes and \<open>valid a p\<close> what may
  travel.
\<close>

locale frame_codec =
  fixes encode :: "u8 list ptr \<Rightarrow> u32 \<Rightarrow> 'a \<Rightarrow> 'p ptr \<Rightarrow> u32 ptr \<Rightarrow> bool \<times> u8 list ptr \<times> u32 ptr"
    and decode :: "u8 list ptr \<Rightarrow> u32 \<Rightarrow> 'h ptr \<Rightarrow> 'p ptr \<Rightarrow> bool \<times> 'h ptr \<times> 'p ptr"
    and header :: "'a \<Rightarrow> 'h"
    and wire :: "'a \<Rightarrow> 'p \<Rightarrow> u8 list"
    and valid :: "'a \<Rightarrow> 'p \<Rightarrow> bool"
  assumes encode_accepts:
      "valid a p \<Longrightarrow> length (wire a p) \<le> unat cap \<Longrightarrow> unat cap \<le> length b \<Longrightarrow>
        encode (Some b) cap a (Some p) (Some l)
          = (True, Some (overlay b 0 (wire a p)), Some (of_nat (length (wire a p))))"
    and encode_rejects:
      "\<not> (valid a p \<and> length (wire a p) \<le> unat cap) \<Longrightarrow>
        encode (Some b) cap a (Some p) (Some l) = (False, Some b, Some 0)"
    and decode_accepts:
      "unat n \<le> length b \<Longrightarrow>
        decode (Some b) n (Some h0) (Some p0) = (True, Some h, Some p)
          \<longleftrightarrow> (\<exists>a. h = header a \<and> valid a p \<and> take (unat n) b = wire a p)"
    and decode_writes:
      "\<exists>ok h p. decode (Some b) n (Some h0) (Some p0) = (ok, Some h, Some p)"
begin

text \<open>What a caller sees: a frame and the values in it, or a failure.\<close>

lemma decode_cases:
  assumes "unat n \<le> length b"
  obtains (accept) a p where "decode (Some b) n (Some h0) (Some p0) = (True, Some (header a), Some p)"
      "valid a p" "take (unat n) b = wire a p"
    | (reject) h p where "decode (Some b) n (Some h0) (Some p0) = (False, Some h, Some p)"
        "\<And>a p. valid a p \<Longrightarrow> take (unat n) b \<noteq> wire a p"
proof -
  obtain ok h p where d: "decode (Some b) n (Some h0) (Some p0) = (ok, Some h, Some p)"
    using decode_writes by blast
  show ?thesis
  proof (cases ok)
    case True
    then show ?thesis
      using accept d decode_accepts [OF assms, of h0 p0 h p] by auto
  next
    case False
    have "take (unat n) b \<noteq> wire a q" if "valid a q" for a q
      using d False that decode_accepts [OF assms, of h0 p0 "header a" q] by auto
    then show ?thesis using reject d False by simp
  qed
qed

lemma decode_wire:
  assumes "valid a p" "take (unat n) b = wire a p" "unat n \<le> length b"
  shows "decode (Some b) n (Some h0) (Some p0) = (True, Some (header a), Some p)"
  using assms decode_accepts by blast

lemma encode_success:
  assumes "encode (Some b) cap a (Some p) (Some l) = (True, b', n)" "unat cap \<le> length b"
  shows "valid a p" "length (wire a p) \<le> unat cap" "b' = Some (overlay b 0 (wire a p))"
    "n = Some (of_nat (length (wire a p)))"
proof -
  show v: "valid a p" and c: "length (wire a p) \<le> unat cap"
    using assms encode_rejects [of a p cap b l] by force+
  show "b' = Some (overlay b 0 (wire a p))" "n = Some (of_nat (length (wire a p)))"
    using assms encode_accepts [OF v c, of b l] by simp_all
qed

lemma encode_success_iff:
  assumes "unat cap \<le> length b"
  shows "fst (encode (Some b) cap a (Some p) (Some l))
    \<longleftrightarrow> valid a p \<and> length (wire a p) \<le> unat cap"
  using assms encode_accepts [of a p cap b l] encode_rejects [of a p cap b l] by force

lemma size_of_wire:
  "length (wire a p) \<le> unat (cap :: u32) \<Longrightarrow> unat (of_nat (length (wire a p)) :: u32) = length (wire a p)"
  using unat_less_u32 [of cap] by (simp add: unat_of_nat del: unat_less_u32)

lemma emitted_encode:
  assumes "encode (Some b) cap a (Some p) (Some l) = (ok, b', n)" "unat cap \<le> length b"
  shows "emitted ok b' n = (if valid a p \<and> length (wire a p) \<le> unat cap then Some (wire a p) else None)"
proof (cases "valid a p \<and> length (wire a p) \<le> unat cap")
  case True
  then show ?thesis
    using assms encode_accepts [of a p cap b l] size_of_wire [of a p cap]
    by (auto simp: take_overlay_0)
next
  case False
  then show ?thesis using assms(1) encode_rejects [of a p cap b l] by auto
qed

text \<open>What an encoder wrote, its decoder reads back, whatever the output structs held.\<close>

lemma roundtrip:
  assumes "encode (Some b) cap a (Some p) (Some l) = (True, Some b', Some n)"
    and "unat cap \<le> length b"
  shows "decode (Some b') n (Some h0) (Some p0) = (True, Some (header a), Some p)"
proof -
  note e = encode_success [OF assms]
  have n: "unat n = length (wire a p)"
    using e(2,4) size_of_wire by auto
  have "unat n \<le> length b'" and "take (unat n) b' = wire a p"
    using e(2,3) assms(2) n by (auto simp: overlay_0)
  then show ?thesis
    using e(1) decode_accepts by blast
qed

text \<open>A decoder accepts nothing but what the encoder produces for the decoded values.\<close>

lemma canonical:
  assumes "decode (Some f) n (Some h0) (Some p0) = (True, Some h, Some p)"
    and "unat n \<le> length f" and "unat n \<le> unat cap" and "unat cap \<le> length b"
  shows "\<exists>a. h = header a \<and>
    encode (Some b) cap a (Some p) (Some l) = (True, Some (overlay b 0 (take (unat n) f)), Some n)"
proof -
  obtain a where a: "h = header a" "valid a p" "take (unat n) f = wire a p"
    using assms(1) decode_accepts [OF assms(2)] by blast
  have len: "length (wire a p) = unat n"
    using a(3) assms(2) by (metis length_take min.absorb2)
  then have "encode (Some b) cap a (Some p) (Some l)
      = (True, Some (overlay b 0 (wire a p)), Some (of_nat (length (wire a p))))"
    using a(2) assms(3,4) by (intro encode_accepts) simp_all
  with a len show ?thesis by auto
qed

text \<open>A failing call writes nothing and reports length 0.\<close>

lemma encode_failure:
  assumes "encode (Some b) cap a (Some p) (Some l) = (False, b', n)" and "unat cap \<le> length b"
  shows "b' = Some b \<and> n = Some 0"
proof -
  have "\<not> (valid a p \<and> length (wire a p) \<le> unat cap)"
    using assms encode_accepts [of a p cap b l] by auto
  then show ?thesis
    using assms(1) encode_rejects [of a p cap b l] by simp
qed

text \<open>Writes stay below the reported length, which stays below the capacity.\<close>

lemma encode_footprint:
  assumes "encode (Some b) cap a (Some p) (Some l) = (ok, b', n)" and "unat cap \<le> length b"
  obtains c m where "b' = Some c" "n = Some m" "length c = length b" "unat m \<le> unat cap"
    "drop (unat m) c = drop (unat m) b"
proof (cases ok)
  case True
  have "encode (Some b) cap a (Some p) (Some l) = (True, b', n)"
    using assms(1) True by simp
  note e = encode_success [OF this assms(2)]
  show ?thesis
    using e assms(2) by (intro that [of "overlay b 0 (wire a p)" "of_nat (length (wire a p))"])
      (auto simp: size_of_wire overlay_0)
next
  case False
  then show ?thesis
    using assms encode_failure [of b cap a p l b' n] by (intro that [of b 0]) simp_all
qed

text \<open>Reads stay below the given length: the verdict depends on that prefix only.\<close>

lemma decode_footprint:
  assumes "decode (Some f) n (Some h0) (Some p0) = (True, Some h, Some p)"
    and "unat n \<le> length f" and "unat n \<le> length g" and "take (unat n) g = take (unat n) f"
  shows "decode (Some g) n (Some h1) (Some p1) = (True, Some h, Some p)"
  using assms decode_accepts by metis

text \<open>Different messages never share a frame.\<close>

lemma wire_inject:
  assumes "valid a p" "valid a' p'" "wire a p = wire a' p'" "length (wire a p) < 2 ^ 32"
  shows "header a = header a' \<and> p = p'"
proof -
  let ?n = "of_nat (length (wire a p)) :: u32"
  have n: "unat ?n = length (wire a p)"
    using assms(4) by (simp add: unat_of_nat)
  have "decode (Some (wire a p)) ?n (Some (header a)) (Some p) = (True, Some h, Some q)
      \<longleftrightarrow> (\<exists>x. h = header x \<and> valid x q \<and> wire a p = wire x q)" for h q
    using n by (subst decode_accepts) simp_all
  then show ?thesis
    using assms(1-3) by (metis option.inject prod.inject)
qed

text \<open>Corrupting one byte, or two adjacent ones, of an accepted frame's body is always noticed.\<close>

lemma burst_rejected:
  assumes "decode (Some f) n (Some h0) (Some p0) = (True, Some h, Some p)"
    and sealed: "\<And>a p. \<exists>bs. wire a p = seal bs"
    and f: "f = xs @ [u, v] @ ys @ [c0, c1]" and g: "g = xs @ [u', v'] @ ys @ [c0, c1]"
    and n: "unat n = length f" and diff: "(u, v) \<noteq> (u', v')"
  shows "decode (Some g) n (Some h1) (Some p1) \<noteq> (True, Some h', Some p')"
proof
  assume "decode (Some g) n (Some h1) (Some p1) = (True, Some h', Some p')"
  moreover have "unat n = length g" using f g n by simp
  ultimately obtain bs' where "g = seal bs'"
    using sealed decode_accepts [of n g] by (metis order_refl take_all)
  moreover obtain bs where "f = seal bs"
    using assms(1) n sealed decode_accepts [of n f] by (metis order_refl take_all)
  ultimately have "u = u' \<and> v = v'"
    using f g seal_burst [of bs xs u v ys c0 c1 bs' u' v'] by simp
  then show False using diff by simp
qed

end

subsection \<open>Messages with a payload of fixed size\<close>

text \<open>An encoder with its address arguments packed, in the shape of the contract.\<close>

definition pack_broadcast ::
  "('b \<Rightarrow> 'c \<Rightarrow> u16 \<Rightarrow> u16 \<Rightarrow> 'p \<Rightarrow> 'l \<Rightarrow> 'r) \<Rightarrow> 'b \<Rightarrow> 'c \<Rightarrow> u16 \<times> u16 \<Rightarrow> 'p \<Rightarrow> 'l \<Rightarrow> 'r" where
  "pack_broadcast enc b c a p l = (case a of (sid, sq) \<Rightarrow> enc b c sid sq p l)"

definition pack_unicast ::
  "('b \<Rightarrow> 'c \<Rightarrow> u16 \<Rightarrow> u16 \<Rightarrow> u16 \<Rightarrow> 'p \<Rightarrow> 'l \<Rightarrow> 'r)
    \<Rightarrow> 'b \<Rightarrow> 'c \<Rightarrow> u16 \<times> u16 \<times> u16 \<Rightarrow> 'p \<Rightarrow> 'l \<Rightarrow> 'r" where
  "pack_unicast enc b c a p l = (case a of (sid, rid, sq) \<Rightarrow> enc b c sid rid sq p l)"

text \<open>
  A decoder of such a message tests the size, the checksum, the header and the payload, in whatever
  order; \<open>legal\<close> is the test of the two addresses and \<open>mk\<close> the header struct it fills.
  \<open>addressed\<close> ties the address part of the contract to the header fields. Every such message meets
  the contract of a frame codec.
\<close>

locale sealed_message = payload_format print parse size
  for print :: "'p \<Rightarrow> u8 list" and parse :: "u8 list \<Rightarrow> 'p" and size :: nat +
  fixes kind :: u8
    and ok :: "'p \<Rightarrow> bool"
    and legal :: "u16 \<Rightarrow> u16 \<Rightarrow> bool"
    and mk :: "u16 \<Rightarrow> u16 \<Rightarrow> u16 \<Rightarrow> 'h"
    and encode :: "u8 list ptr \<Rightarrow> u32 \<Rightarrow> 'a \<Rightarrow> 'p ptr \<Rightarrow> u32 ptr \<Rightarrow> bool \<times> u8 list ptr \<times> u32 ptr"
    and decode :: "u8 list ptr \<Rightarrow> u32 \<Rightarrow> 'h ptr \<Rightarrow> 'p ptr \<Rightarrow> bool \<times> 'h ptr \<times> 'p ptr"
    and header :: "'a \<Rightarrow> 'h"
    and wire :: "'a \<Rightarrow> 'p \<Rightarrow> u8 list"
    and valid :: "'a \<Rightarrow> 'p \<Rightarrow> bool"
  assumes accepts:
      "valid a p \<Longrightarrow> length (wire a p) \<le> unat cap \<Longrightarrow> unat cap \<le> length b \<Longrightarrow>
        encode (Some b) cap a (Some p) (Some l)
          = (True, Some (overlay b 0 (wire a p)), Some (of_nat (length (wire a p))))"
    and rejects:
      "\<not> (valid a p \<and> length (wire a p) \<le> unat cap) \<Longrightarrow>
        encode (Some b) cap a (Some p) (Some l) = (False, Some b, Some 0)"
    and decode_iff:
      "unat n \<le> length b \<Longrightarrow>
        decode (Some b) n (Some h0) (Some p0) = (True, Some h, Some p) \<longleftrightarrow>
          unat n = size + 10 \<and> ok p
          \<and> (\<exists>sid rid sq pay. h = mk sid rid sq \<and> legal sid rid
            \<and> take (unat n) b = frame kind sid rid sq pay)
          \<and> p = parse (drop 8 b)"
    and writes: "\<exists>done h p. decode (Some b) n (Some h0) (Some p0) = (done, Some h, Some p)"
    and addressed: "(\<exists>a. h = header a \<and> valid a p \<and> f = wire a p) \<longleftrightarrow>
      ok p \<and> (\<exists>sid rid sq. h = mk sid rid sq \<and> legal sid rid \<and> f = frame kind sid rid sq (print p))"
begin

lemma decode_frame:
  assumes "unat n \<le> length b"
  shows "decode (Some b) n (Some h0) (Some p0) = (True, Some h, Some p)
    \<longleftrightarrow> (\<exists>a. h = header a \<and> valid a p \<and> take (unat n) b = wire a p)"
proof (cases "unat n = size + 10")
  case True
  then show ?thesis
    unfolding decode_iff [OF assms] addressed frame_of_parse [OF assms True, symmetric] by blast
next
  case False
  have "take (unat n) b \<noteq> frame kind sid rid sq (print p)" for sid rid sq
    using frame_prefix(2) [OF _ assms, of kind sid rid sq "print p"] False length_print by auto
  then show ?thesis
    unfolding decode_iff [OF assms] addressed using False by blast
qed

end

sublocale sealed_message \<subseteq> frame_codec encode decode header wire valid
  by unfold_locales (simp_all add: accepts rejects decode_frame writes)

end
