(* ===== verification/OpFrame.thy ===== *)
theory OpFrame
  imports Wire
begin

text \<open>
  \<open>src/src/num8lora_op.c\<close> and \<open>src/include/num8lora_op.h\<close>: the five single-operation frames of the
  async protocol (BEACON, REQUEST, DATA, ACK, NACK). Encoders write byte by byte into the
  caller's buffer; decoders fill the caller's structs and report success. The lemmas characterise
  both over lists of bytes and interpret \<open>frame_codec\<close> once per message, so that round trip,
  canonical form and the memory footprints follow for all five.
\<close>

subsection \<open>Structs and constants\<close>

record num8lora_op_common_header =
  h_protocol_version :: u8
  h_msg_type :: u8
  h_sender_id :: u16
  h_receiver_id :: u16
  h_seq :: u16

record num8lora_op_beacon_payload =
  bp_stream_id :: u32
  bp_latest_op_id :: u32

record num8lora_op_request_payload =
  rp_stream_id :: u32
  rp_next_needed_op_id :: u32

record num8lora_op_data_payload =
  dp_stream_id :: u32
  dp_op_id :: u32
  dp_op_type :: u8
  dp_reserved0 :: u8
  dp_reserved1 :: u16
  dp_value :: u32

record num8lora_op_ack_payload =
  ap_stream_id :: u32
  ap_ack_op_id :: u32

record num8lora_op_nack_payload =
  np_stream_id :: u32
  np_error_code :: u16
  np_detail :: u16
  np_expected_next_op_id :: u32

abbreviation NUM8LORA_OP_PROTOCOL_VERSION :: u8 where "NUM8LORA_OP_PROTOCOL_VERSION \<equiv> 1"
abbreviation NUM8LORA_OP_MSG_BEACON :: u8 where "NUM8LORA_OP_MSG_BEACON \<equiv> 0x21"
abbreviation NUM8LORA_OP_MSG_REQUEST :: u8 where "NUM8LORA_OP_MSG_REQUEST \<equiv> 0x22"
abbreviation NUM8LORA_OP_MSG_DATA :: u8 where "NUM8LORA_OP_MSG_DATA \<equiv> 0x23"
abbreviation NUM8LORA_OP_MSG_ACK :: u8 where "NUM8LORA_OP_MSG_ACK \<equiv> 0x24"
abbreviation NUM8LORA_OP_MSG_NACK :: u8 where "NUM8LORA_OP_MSG_NACK \<equiv> 0x25"

abbreviation NUM8LORA_OP_ADD :: u8 where "NUM8LORA_OP_ADD \<equiv> 1"
abbreviation NUM8LORA_OP_REMOVE :: u8 where "NUM8LORA_OP_REMOVE \<equiv> 2"

abbreviation NUM8LORA_OP_ERR_RECEIVER :: u16 where "NUM8LORA_OP_ERR_RECEIVER \<equiv> 4"
abbreviation NUM8LORA_OP_ERR_STREAM :: u16 where "NUM8LORA_OP_ERR_STREAM \<equiv> 5"
abbreviation NUM8LORA_OP_ERR_SEQUENCE_GAP :: u16 where "NUM8LORA_OP_ERR_SEQUENCE_GAP \<equiv> 6"
abbreviation NUM8LORA_OP_ERR_INVALID_VALUE :: u16 where "NUM8LORA_OP_ERR_INVALID_VALUE \<equiv> 7"
abbreviation NUM8LORA_OP_ERR_APPLY_FAILED :: u16 where "NUM8LORA_OP_ERR_APPLY_FAILED \<equiv> 8"
abbreviation NUM8LORA_OP_ERR_HISTORY_UNAVAILABLE :: u16
  where "NUM8LORA_OP_ERR_HISTORY_UNAVAILABLE \<equiv> 9"

abbreviation NUM8LORA_OP_FRAME_HDR_SIZE :: u32 where "NUM8LORA_OP_FRAME_HDR_SIZE \<equiv> 8"
abbreviation NUM8LORA_OP_FRAME_CRC_SIZE :: u32 where "NUM8LORA_OP_FRAME_CRC_SIZE \<equiv> 2"
abbreviation NUM8LORA_OP_BEACON_PAYLOAD_SIZE :: u32 where "NUM8LORA_OP_BEACON_PAYLOAD_SIZE \<equiv> 8"
abbreviation NUM8LORA_OP_REQUEST_PAYLOAD_SIZE :: u32 where "NUM8LORA_OP_REQUEST_PAYLOAD_SIZE \<equiv> 8"
abbreviation NUM8LORA_OP_DATA_PAYLOAD_SIZE :: u32 where "NUM8LORA_OP_DATA_PAYLOAD_SIZE \<equiv> 16"
abbreviation NUM8LORA_OP_ACK_PAYLOAD_SIZE :: u32 where "NUM8LORA_OP_ACK_PAYLOAD_SIZE \<equiv> 8"
abbreviation NUM8LORA_OP_NACK_PAYLOAD_SIZE :: u32 where "NUM8LORA_OP_NACK_PAYLOAD_SIZE \<equiv> 12"
abbreviation NUM8LORA_OP_MAX_VALUE :: u32 where "NUM8LORA_OP_MAX_VALUE \<equiv> 99999999"

subsection \<open>Helpers of the C file\<close>

definition num8lora_op_payload_len_add_u32 :: "u32 \<Rightarrow> u32 \<Rightarrow> u32 ptr \<Rightarrow> bool \<times> u32 ptr" where
  "num8lora_op_payload_len_add_u32 a b out = num8lora_codec_add_u32 a b out"

definition num8lora_op_frame_len :: "u32 \<Rightarrow> u32 ptr \<Rightarrow> bool \<times> u32 ptr" where
  "num8lora_op_frame_len payload_len out_len =
    (case num8lora_op_payload_len_add_u32 NUM8LORA_OP_FRAME_HDR_SIZE payload_len (Some 0) of
       (ok, len) \<Rightarrow>
         if \<not> ok then (False, out_len)
         else num8lora_op_payload_len_add_u32 (the len) NUM8LORA_OP_FRAME_CRC_SIZE out_len)"

definition num8lora_op_clear_common ::
  "num8lora_op_common_header ptr \<Rightarrow> num8lora_op_common_header ptr" where
  "num8lora_op_clear_common out_hdr = store
    \<lparr>h_protocol_version = 0, h_msg_type = 0, h_sender_id = 0, h_receiver_id = 0, h_seq = 0\<rparr> out_hdr"

definition num8lora_op_clear_beacon ::
  "num8lora_op_beacon_payload ptr \<Rightarrow> num8lora_op_beacon_payload ptr" where
  "num8lora_op_clear_beacon out_p = store \<lparr>bp_stream_id = 0, bp_latest_op_id = 0\<rparr> out_p"

definition num8lora_op_clear_request ::
  "num8lora_op_request_payload ptr \<Rightarrow> num8lora_op_request_payload ptr" where
  "num8lora_op_clear_request out_p = store \<lparr>rp_stream_id = 0, rp_next_needed_op_id = 0\<rparr> out_p"

definition num8lora_op_clear_data ::
  "num8lora_op_data_payload ptr \<Rightarrow> num8lora_op_data_payload ptr" where
  "num8lora_op_clear_data out_p = store
    \<lparr>dp_stream_id = 0, dp_op_id = 0, dp_op_type = 0, dp_reserved0 = 0, dp_reserved1 = 0,
     dp_value = 0\<rparr> out_p"

definition num8lora_op_clear_ack ::
  "num8lora_op_ack_payload ptr \<Rightarrow> num8lora_op_ack_payload ptr" where
  "num8lora_op_clear_ack out_p = store \<lparr>ap_stream_id = 0, ap_ack_op_id = 0\<rparr> out_p"

definition num8lora_op_clear_nack ::
  "num8lora_op_nack_payload ptr \<Rightarrow> num8lora_op_nack_payload ptr" where
  "num8lora_op_clear_nack out_p = store
    \<lparr>np_stream_id = 0, np_error_code = 0, np_detail = 0, np_expected_next_op_id = 0\<rparr> out_p"

definition num8lora_op_crc16_ccitt_false :: "u8 list ptr \<Rightarrow> u32 \<Rightarrow> u16" where
  "num8lora_op_crc16_ccitt_false data len = num8lora_codec_crc16_ccitt_false data len"

subsection \<open>Encoders\<close>

text \<open>The result is the status, the buffer and the length cell after the call.\<close>

definition num8lora_op_encode_beacon ::
  "u8 list ptr \<Rightarrow> u32 \<Rightarrow> u16 \<Rightarrow> u16 \<Rightarrow> num8lora_op_beacon_payload ptr
    \<Rightarrow> u32 ptr \<Rightarrow> bool \<times> u8 list ptr \<times> u32 ptr" where
  "num8lora_op_encode_beacon out_buf out_cap sender_id seq p out_len =
    (let out_len = store 0 out_len in
     case (out_buf, p, out_len) of
       (Some b, Some q, Some _) \<Rightarrow>
         if bp_stream_id q = 0 \<or> bp_latest_op_id q = 0 then (False, out_buf, out_len)
         else (case num8lora_op_frame_len NUM8LORA_OP_BEACON_PAYLOAD_SIZE (Some 0) of (ok, len) \<Rightarrow>
           if \<not> ok \<or> out_cap < the len \<or> sender_id = 0 then (False, out_buf, out_len)
           else
             let n = the len;
                 b = b[0 := NUM8LORA_OP_PROTOCOL_VERSION];
                 b = b[1 := NUM8LORA_OP_MSG_BEACON];
                 b = num8lora_codec_write_u16_le b 2 sender_id;
                 b = num8lora_codec_write_u16_le b 4 0;
                 b = num8lora_codec_write_u16_le b 6 seq;
                 b = num8lora_codec_write_u32_le b 8 (bp_stream_id q);
                 b = num8lora_codec_write_u32_le b 12 (bp_latest_op_id q);
                 b = num8lora_codec_write_u16_le b (unat (n - 2)) (num8lora_op_crc16_ccitt_false (Some b) (n - 2))
             in (True, Some b, Some n))
     | _ \<Rightarrow> (False, out_buf, out_len))"

definition num8lora_op_encode_request ::
  "u8 list ptr \<Rightarrow> u32 \<Rightarrow> u16 \<Rightarrow> u16 \<Rightarrow> u16 \<Rightarrow> num8lora_op_request_payload ptr
    \<Rightarrow> u32 ptr \<Rightarrow> bool \<times> u8 list ptr \<times> u32 ptr" where
  "num8lora_op_encode_request out_buf out_cap sender_id receiver_id seq p out_len =
    (let out_len = store 0 out_len in
     case (out_buf, p, out_len) of
       (Some b, Some q, Some _) \<Rightarrow>
         if sender_id = 0 \<or> receiver_id = 0 \<or> rp_stream_id q = 0 \<or> rp_next_needed_op_id q = 0 then (False, out_buf, out_len)
         else (case num8lora_op_frame_len NUM8LORA_OP_REQUEST_PAYLOAD_SIZE (Some 0) of (ok, len) \<Rightarrow>
           if \<not> ok \<or> out_cap < the len then (False, out_buf, out_len)
           else
             let n = the len;
                 b = b[0 := NUM8LORA_OP_PROTOCOL_VERSION];
                 b = b[1 := NUM8LORA_OP_MSG_REQUEST];
                 b = num8lora_codec_write_u16_le b 2 sender_id;
                 b = num8lora_codec_write_u16_le b 4 receiver_id;
                 b = num8lora_codec_write_u16_le b 6 seq;
                 b = num8lora_codec_write_u32_le b 8 (rp_stream_id q);
                 b = num8lora_codec_write_u32_le b 12 (rp_next_needed_op_id q);
                 b = num8lora_codec_write_u16_le b (unat (n - 2)) (num8lora_op_crc16_ccitt_false (Some b) (n - 2))
             in (True, Some b, Some n))
     | _ \<Rightarrow> (False, out_buf, out_len))"

definition num8lora_op_encode_data ::
  "u8 list ptr \<Rightarrow> u32 \<Rightarrow> u16 \<Rightarrow> u16 \<Rightarrow> u16 \<Rightarrow> num8lora_op_data_payload ptr
    \<Rightarrow> u32 ptr \<Rightarrow> bool \<times> u8 list ptr \<times> u32 ptr" where
  "num8lora_op_encode_data out_buf out_cap sender_id receiver_id seq p out_len =
    (let out_len = store 0 out_len in
     case (out_buf, p, out_len) of
       (Some b, Some q, Some _) \<Rightarrow>
         if sender_id = 0 \<or> receiver_id = 0 \<or> dp_stream_id q = 0 \<or> dp_op_id q = 0
            \<or> dp_reserved0 q \<noteq> 0 \<or> dp_reserved1 q \<noteq> 0 then (False, out_buf, out_len)
         else if dp_op_type q \<noteq> NUM8LORA_OP_ADD \<and> dp_op_type q \<noteq> NUM8LORA_OP_REMOVE then (False, out_buf, out_len)
         else if dp_value q > NUM8LORA_OP_MAX_VALUE then (False, out_buf, out_len)
         else (case num8lora_op_frame_len NUM8LORA_OP_DATA_PAYLOAD_SIZE (Some 0) of (ok, len) \<Rightarrow>
           if \<not> ok \<or> out_cap < the len then (False, out_buf, out_len)
           else
             let n = the len;
                 b = b[0 := NUM8LORA_OP_PROTOCOL_VERSION];
                 b = b[1 := NUM8LORA_OP_MSG_DATA];
                 b = num8lora_codec_write_u16_le b 2 sender_id;
                 b = num8lora_codec_write_u16_le b 4 receiver_id;
                 b = num8lora_codec_write_u16_le b 6 seq;
                 b = num8lora_codec_write_u32_le b 8 (dp_stream_id q);
                 b = num8lora_codec_write_u32_le b 12 (dp_op_id q);
                 b = b[16 := dp_op_type q];
                 b = b[17 := 0];
                 b = num8lora_codec_write_u16_le b 18 0;
                 b = num8lora_codec_write_u32_le b 20 (dp_value q);
                 b = num8lora_codec_write_u16_le b (unat (n - 2)) (num8lora_op_crc16_ccitt_false (Some b) (n - 2))
             in (True, Some b, Some n))
     | _ \<Rightarrow> (False, out_buf, out_len))"

definition num8lora_op_encode_ack ::
  "u8 list ptr \<Rightarrow> u32 \<Rightarrow> u16 \<Rightarrow> u16 \<Rightarrow> u16 \<Rightarrow> num8lora_op_ack_payload ptr
    \<Rightarrow> u32 ptr \<Rightarrow> bool \<times> u8 list ptr \<times> u32 ptr" where
  "num8lora_op_encode_ack out_buf out_cap sender_id receiver_id seq p out_len =
    (let out_len = store 0 out_len in
     case (out_buf, p, out_len) of
       (Some b, Some q, Some _) \<Rightarrow>
         if sender_id = 0 \<or> receiver_id = 0 \<or> ap_stream_id q = 0 \<or> ap_ack_op_id q = 0 then (False, out_buf, out_len)
         else (case num8lora_op_frame_len NUM8LORA_OP_ACK_PAYLOAD_SIZE (Some 0) of (ok, len) \<Rightarrow>
           if \<not> ok \<or> out_cap < the len then (False, out_buf, out_len)
           else
             let n = the len;
                 b = b[0 := NUM8LORA_OP_PROTOCOL_VERSION];
                 b = b[1 := NUM8LORA_OP_MSG_ACK];
                 b = num8lora_codec_write_u16_le b 2 sender_id;
                 b = num8lora_codec_write_u16_le b 4 receiver_id;
                 b = num8lora_codec_write_u16_le b 6 seq;
                 b = num8lora_codec_write_u32_le b 8 (ap_stream_id q);
                 b = num8lora_codec_write_u32_le b 12 (ap_ack_op_id q);
                 b = num8lora_codec_write_u16_le b (unat (n - 2)) (num8lora_op_crc16_ccitt_false (Some b) (n - 2))
             in (True, Some b, Some n))
     | _ \<Rightarrow> (False, out_buf, out_len))"

definition num8lora_op_encode_nack ::
  "u8 list ptr \<Rightarrow> u32 \<Rightarrow> u16 \<Rightarrow> u16 \<Rightarrow> u16 \<Rightarrow> num8lora_op_nack_payload ptr
    \<Rightarrow> u32 ptr \<Rightarrow> bool \<times> u8 list ptr \<times> u32 ptr" where
  "num8lora_op_encode_nack out_buf out_cap sender_id receiver_id seq p out_len =
    (let out_len = store 0 out_len in
     case (out_buf, p, out_len) of
       (Some b, Some q, Some _) \<Rightarrow>
         if sender_id = 0 \<or> receiver_id = 0 \<or> np_stream_id q = 0 \<or> np_expected_next_op_id q = 0 then (False, out_buf, out_len)
         else (case num8lora_op_frame_len NUM8LORA_OP_NACK_PAYLOAD_SIZE (Some 0) of (ok, len) \<Rightarrow>
           if \<not> ok \<or> out_cap < the len then (False, out_buf, out_len)
           else
             let n = the len;
                 b = b[0 := NUM8LORA_OP_PROTOCOL_VERSION];
                 b = b[1 := NUM8LORA_OP_MSG_NACK];
                 b = num8lora_codec_write_u16_le b 2 sender_id;
                 b = num8lora_codec_write_u16_le b 4 receiver_id;
                 b = num8lora_codec_write_u16_le b 6 seq;
                 b = num8lora_codec_write_u32_le b 8 (np_stream_id q);
                 b = num8lora_codec_write_u16_le b 12 (np_error_code q);
                 b = num8lora_codec_write_u16_le b 14 (np_detail q);
                 b = num8lora_codec_write_u32_le b 16 (np_expected_next_op_id q);
                 b = num8lora_codec_write_u16_le b (unat (n - 2)) (num8lora_op_crc16_ccitt_false (Some b) (n - 2))
             in (True, Some b, Some n))
     | _ \<Rightarrow> (False, out_buf, out_len))"

subsection \<open>Decoders\<close>

text \<open>The result is the status and the two output structs after the call.\<close>

definition num8lora_op_decode_common_header ::
  "u8 list ptr \<Rightarrow> u32 \<Rightarrow> num8lora_op_common_header ptr \<Rightarrow> bool \<times> num8lora_op_common_header ptr" where
  "num8lora_op_decode_common_header buf len out =
    (let out = num8lora_op_clear_common out in
     case (buf, out) of
       (Some b, Some _) \<Rightarrow>
         if len < NUM8LORA_OP_FRAME_HDR_SIZE then (False, out)
         else (True, Some \<lparr>h_protocol_version = b ! 0, h_msg_type = b ! 1,
           h_sender_id = num8lora_codec_read_u16_le b 2,
           h_receiver_id = num8lora_codec_read_u16_le b 4,
           h_seq = num8lora_codec_read_u16_le b 6\<rparr>)
     | _ \<Rightarrow> (False, out))"

definition num8lora_op_validate_frame_crc :: "u8 list ptr \<Rightarrow> u32 \<Rightarrow> bool" where
  "num8lora_op_validate_frame_crc buf len =
    (case buf of
       None \<Rightarrow> False
     | Some b \<Rightarrow>
         if len < NUM8LORA_OP_FRAME_HDR_SIZE + NUM8LORA_OP_FRAME_CRC_SIZE then False
         else num8lora_codec_read_u16_le b (unat (len - 2))
           = num8lora_op_crc16_ccitt_false (Some b) (len - 2))"

definition num8lora_op_validate_common_header ::
  "u8 list ptr \<Rightarrow> u32 \<Rightarrow> u8 \<Rightarrow> num8lora_op_common_header ptr
    \<Rightarrow> bool \<times> num8lora_op_common_header ptr" where
  "num8lora_op_validate_common_header buf len expected_type out_hdr =
    (if \<not> num8lora_op_validate_frame_crc buf len then (False, out_hdr)
     else case num8lora_op_decode_common_header buf len out_hdr of
       (True, Some h) \<Rightarrow>
         if h_protocol_version h \<noteq> NUM8LORA_OP_PROTOCOL_VERSION \<or> h_msg_type h \<noteq> expected_type
         then (False, Some h)
         else if h_sender_id h = 0 then (False, Some h)
         else if expected_type = NUM8LORA_OP_MSG_BEACON then (h_receiver_id h = 0, Some h)
         else (h_receiver_id h \<noteq> 0, Some h)
     | (_, out_hdr) \<Rightarrow> (False, out_hdr))"

definition num8lora_op_decode_beacon ::
  "u8 list ptr \<Rightarrow> u32 \<Rightarrow> num8lora_op_common_header ptr \<Rightarrow> num8lora_op_beacon_payload ptr
    \<Rightarrow> bool \<times> num8lora_op_common_header ptr \<times> num8lora_op_beacon_payload ptr" where
  "num8lora_op_decode_beacon buf len h p =
    (let p = num8lora_op_clear_beacon p in
     case (buf, h, p) of
       (Some b, Some _, Some _) \<Rightarrow>
         if len \<noteq> NUM8LORA_OP_FRAME_HDR_SIZE + NUM8LORA_OP_BEACON_PAYLOAD_SIZE
               + NUM8LORA_OP_FRAME_CRC_SIZE then (False, h, p)
         else (case num8lora_op_validate_common_header buf len NUM8LORA_OP_MSG_BEACON h of
           (ok, h) \<Rightarrow>
             if \<not> ok then (False, h, p)
             else
               let q = \<lparr>bp_stream_id = num8lora_codec_read_u32_le b 8,
                 bp_latest_op_id = num8lora_codec_read_u32_le b 12\<rparr>
               in (bp_stream_id q \<noteq> 0 \<and> bp_latest_op_id q \<noteq> 0, h, Some q))
     | _ \<Rightarrow> (False, h, p))"

definition num8lora_op_decode_request ::
  "u8 list ptr \<Rightarrow> u32 \<Rightarrow> num8lora_op_common_header ptr \<Rightarrow> num8lora_op_request_payload ptr
    \<Rightarrow> bool \<times> num8lora_op_common_header ptr \<times> num8lora_op_request_payload ptr" where
  "num8lora_op_decode_request buf len h p =
    (let p = num8lora_op_clear_request p in
     case (buf, h, p) of
       (Some b, Some _, Some _) \<Rightarrow>
         if len \<noteq> NUM8LORA_OP_FRAME_HDR_SIZE + NUM8LORA_OP_REQUEST_PAYLOAD_SIZE
               + NUM8LORA_OP_FRAME_CRC_SIZE then (False, h, p)
         else (case num8lora_op_validate_common_header buf len NUM8LORA_OP_MSG_REQUEST h of
           (ok, h) \<Rightarrow>
             if \<not> ok then (False, h, p)
             else
               let q = \<lparr>rp_stream_id = num8lora_codec_read_u32_le b 8,
                 rp_next_needed_op_id = num8lora_codec_read_u32_le b 12\<rparr>
               in (rp_stream_id q \<noteq> 0 \<and> rp_next_needed_op_id q \<noteq> 0, h, Some q))
     | _ \<Rightarrow> (False, h, p))"

definition num8lora_op_decode_data ::
  "u8 list ptr \<Rightarrow> u32 \<Rightarrow> num8lora_op_common_header ptr \<Rightarrow> num8lora_op_data_payload ptr
    \<Rightarrow> bool \<times> num8lora_op_common_header ptr \<times> num8lora_op_data_payload ptr" where
  "num8lora_op_decode_data buf len h p =
    (let p = num8lora_op_clear_data p in
     case (buf, h, p) of
       (Some b, Some _, Some _) \<Rightarrow>
         if len \<noteq> NUM8LORA_OP_FRAME_HDR_SIZE + NUM8LORA_OP_DATA_PAYLOAD_SIZE
               + NUM8LORA_OP_FRAME_CRC_SIZE then (False, h, p)
         else (case num8lora_op_validate_common_header buf len NUM8LORA_OP_MSG_DATA h of
           (ok, h) \<Rightarrow>
             if \<not> ok then (False, h, p)
             else
               let q = \<lparr>dp_stream_id = num8lora_codec_read_u32_le b 8,
                 dp_op_id = num8lora_codec_read_u32_le b 12,
                 dp_op_type = b ! 16,
                 dp_reserved0 = b ! 17,
                 dp_reserved1 = num8lora_codec_read_u16_le b 18,
                 dp_value = num8lora_codec_read_u32_le b 20\<rparr>
               in if dp_stream_id q = 0 \<or> dp_op_id q = 0 \<or> dp_reserved0 q \<noteq> 0 \<or> dp_reserved1 q \<noteq> 0
                  then (False, h, num8lora_op_clear_data (Some q))
                  else if dp_op_type q \<noteq> NUM8LORA_OP_ADD \<and> dp_op_type q \<noteq> NUM8LORA_OP_REMOVE
                  then (False, h, num8lora_op_clear_data (Some q))
                  else if dp_value q > NUM8LORA_OP_MAX_VALUE
                  then (False, h, num8lora_op_clear_data (Some q))
                  else (True, h, Some q))
     | _ \<Rightarrow> (False, h, p))"

definition num8lora_op_decode_ack ::
  "u8 list ptr \<Rightarrow> u32 \<Rightarrow> num8lora_op_common_header ptr \<Rightarrow> num8lora_op_ack_payload ptr
    \<Rightarrow> bool \<times> num8lora_op_common_header ptr \<times> num8lora_op_ack_payload ptr" where
  "num8lora_op_decode_ack buf len h p =
    (let p = num8lora_op_clear_ack p in
     case (buf, h, p) of
       (Some b, Some _, Some _) \<Rightarrow>
         if len \<noteq> NUM8LORA_OP_FRAME_HDR_SIZE + NUM8LORA_OP_ACK_PAYLOAD_SIZE
               + NUM8LORA_OP_FRAME_CRC_SIZE then (False, h, p)
         else (case num8lora_op_validate_common_header buf len NUM8LORA_OP_MSG_ACK h of
           (ok, h) \<Rightarrow>
             if \<not> ok then (False, h, p)
             else
               let q = \<lparr>ap_stream_id = num8lora_codec_read_u32_le b 8,
                 ap_ack_op_id = num8lora_codec_read_u32_le b 12\<rparr>
               in (ap_stream_id q \<noteq> 0 \<and> ap_ack_op_id q \<noteq> 0, h, Some q))
     | _ \<Rightarrow> (False, h, p))"

definition num8lora_op_decode_nack ::
  "u8 list ptr \<Rightarrow> u32 \<Rightarrow> num8lora_op_common_header ptr \<Rightarrow> num8lora_op_nack_payload ptr
    \<Rightarrow> bool \<times> num8lora_op_common_header ptr \<times> num8lora_op_nack_payload ptr" where
  "num8lora_op_decode_nack buf len h p =
    (let p = num8lora_op_clear_nack p in
     case (buf, h, p) of
       (Some b, Some _, Some _) \<Rightarrow>
         if len \<noteq> NUM8LORA_OP_FRAME_HDR_SIZE + NUM8LORA_OP_NACK_PAYLOAD_SIZE
               + NUM8LORA_OP_FRAME_CRC_SIZE then (False, h, p)
         else (case num8lora_op_validate_common_header buf len NUM8LORA_OP_MSG_NACK h of
           (ok, h) \<Rightarrow>
             if \<not> ok then (False, h, p)
             else
               let q = \<lparr>np_stream_id = num8lora_codec_read_u32_le b 8,
                 np_error_code = num8lora_codec_read_u16_le b 12,
                 np_detail = num8lora_codec_read_u16_le b 14,
                 np_expected_next_op_id = num8lora_codec_read_u32_le b 16\<rparr>
               in (np_stream_id q \<noteq> 0 \<and> np_expected_next_op_id q \<noteq> 0, h, Some q))
     | _ \<Rightarrow> (False, h, p))"

subsection \<open>Frames as byte lists\<close>

text \<open>
  What the encoders are for, stated without buffers: the bytes of each payload, when a payload may
  travel, and the frame around it. The address part is \<open>(sender, receiver, sequence number)\<close>; a BEACON
  is a broadcast and has no receiver.
\<close>

definition op_header :: "u8 \<Rightarrow> u16 \<Rightarrow> u16 \<Rightarrow> u16 \<Rightarrow> num8lora_op_common_header" where
  "op_header typ sid rid sq =
    \<lparr>h_protocol_version = NUM8LORA_OP_PROTOCOL_VERSION, h_msg_type = typ, h_sender_id = sid,
     h_receiver_id = rid, h_seq = sq\<rparr>"

fun op_broadcast_header :: "u16 \<times> u16 \<Rightarrow> num8lora_op_common_header" where
  "op_broadcast_header (sid, sq) = op_header NUM8LORA_OP_MSG_BEACON sid 0 sq"

fun op_unicast_header :: "u8 \<Rightarrow> u16 \<times> u16 \<times> u16 \<Rightarrow> num8lora_op_common_header" where
  "op_unicast_header typ (sid, rid, sq) = op_header typ sid rid sq"

fun op_unicast_ok :: "u16 \<times> u16 \<times> u16 \<Rightarrow> bool" where
  "op_unicast_ok (sid, rid, sq) \<longleftrightarrow> sid \<noteq> 0 \<and> rid \<noteq> 0"

fun op_unicast_frame :: "u8 \<Rightarrow> u16 \<times> u16 \<times> u16 \<Rightarrow> u8 list \<Rightarrow> u8 list" where
  "op_unicast_frame typ (sid, rid, sq) payload = frame typ sid rid sq payload"

lemma length_op_unicast_frame [simp, width]:
  "length (op_unicast_frame typ a payload) = length payload + 10"
  by (cases a) simp

lemma op_unicast_frame_sealed: "\<exists>bs. op_unicast_frame typ a payload = seal bs"
  by (cases a) (auto simp: frame_def)

definition op_beacon_bytes :: "num8lora_op_beacon_payload \<Rightarrow> u8 list" where
  "op_beacon_bytes p = le32 (bp_stream_id p) @ le32 (bp_latest_op_id p)"

definition op_beacon_parse :: "u8 list \<Rightarrow> num8lora_op_beacon_payload" where
  "op_beacon_parse bs =
    \<lparr>bp_stream_id = num8lora_codec_read_u32_le bs 0,
     bp_latest_op_id = num8lora_codec_read_u32_le bs 4\<rparr>"

definition op_beacon_ok :: "num8lora_op_beacon_payload \<Rightarrow> bool" where
  "op_beacon_ok p \<longleftrightarrow> bp_stream_id p \<noteq> 0 \<and> bp_latest_op_id p \<noteq> 0"

fun op_beacon_wire :: "u16 \<times> u16 \<Rightarrow> num8lora_op_beacon_payload \<Rightarrow> u8 list" where
  "op_beacon_wire (sid, sq) p = frame NUM8LORA_OP_MSG_BEACON sid 0 sq (op_beacon_bytes p)"

fun op_beacon_valid :: "u16 \<times> u16 \<Rightarrow> num8lora_op_beacon_payload \<Rightarrow> bool" where
  "op_beacon_valid (sid, sq) p \<longleftrightarrow> sid \<noteq> 0 \<and> op_beacon_ok p"

definition op_request_bytes :: "num8lora_op_request_payload \<Rightarrow> u8 list" where
  "op_request_bytes p = le32 (rp_stream_id p) @ le32 (rp_next_needed_op_id p)"

definition op_request_parse :: "u8 list \<Rightarrow> num8lora_op_request_payload" where
  "op_request_parse bs =
    \<lparr>rp_stream_id = num8lora_codec_read_u32_le bs 0,
     rp_next_needed_op_id = num8lora_codec_read_u32_le bs 4\<rparr>"

definition op_request_ok :: "num8lora_op_request_payload \<Rightarrow> bool" where
  "op_request_ok p \<longleftrightarrow> rp_stream_id p \<noteq> 0 \<and> rp_next_needed_op_id p \<noteq> 0"

definition op_request_wire :: "u16 \<times> u16 \<times> u16 \<Rightarrow> num8lora_op_request_payload \<Rightarrow> u8 list" where
  "op_request_wire a p = op_unicast_frame NUM8LORA_OP_MSG_REQUEST a (op_request_bytes p)"

definition op_request_valid :: "u16 \<times> u16 \<times> u16 \<Rightarrow> num8lora_op_request_payload \<Rightarrow> bool" where
  "op_request_valid a p \<longleftrightarrow> op_unicast_ok a \<and> op_request_ok p"

definition op_data_bytes :: "num8lora_op_data_payload \<Rightarrow> u8 list" where
  "op_data_bytes p = le32 (dp_stream_id p) @ le32 (dp_op_id p) @ [dp_op_type p] @ [dp_reserved0 p] @ le16 (dp_reserved1 p) @ le32 (dp_value p)"

definition op_data_parse :: "u8 list \<Rightarrow> num8lora_op_data_payload" where
  "op_data_parse bs =
    \<lparr>dp_stream_id = num8lora_codec_read_u32_le bs 0,
     dp_op_id = num8lora_codec_read_u32_le bs 4,
     dp_op_type = bs ! 8,
     dp_reserved0 = bs ! 9,
     dp_reserved1 = num8lora_codec_read_u16_le bs 10,
     dp_value = num8lora_codec_read_u32_le bs 12\<rparr>"

definition op_data_ok :: "num8lora_op_data_payload \<Rightarrow> bool" where
  "op_data_ok p \<longleftrightarrow> dp_stream_id p \<noteq> 0 \<and> dp_op_id p \<noteq> 0
    \<and> dp_reserved0 p = 0 \<and> dp_reserved1 p = 0
    \<and> (dp_op_type p = NUM8LORA_OP_ADD \<or> dp_op_type p = NUM8LORA_OP_REMOVE)
    \<and> dp_value p \<le> NUM8LORA_OP_MAX_VALUE"

definition op_data_wire :: "u16 \<times> u16 \<times> u16 \<Rightarrow> num8lora_op_data_payload \<Rightarrow> u8 list" where
  "op_data_wire a p = op_unicast_frame NUM8LORA_OP_MSG_DATA a (op_data_bytes p)"

definition op_data_valid :: "u16 \<times> u16 \<times> u16 \<Rightarrow> num8lora_op_data_payload \<Rightarrow> bool" where
  "op_data_valid a p \<longleftrightarrow> op_unicast_ok a \<and> op_data_ok p"

definition op_ack_bytes :: "num8lora_op_ack_payload \<Rightarrow> u8 list" where
  "op_ack_bytes p = le32 (ap_stream_id p) @ le32 (ap_ack_op_id p)"

definition op_ack_parse :: "u8 list \<Rightarrow> num8lora_op_ack_payload" where
  "op_ack_parse bs =
    \<lparr>ap_stream_id = num8lora_codec_read_u32_le bs 0,
     ap_ack_op_id = num8lora_codec_read_u32_le bs 4\<rparr>"

definition op_ack_ok :: "num8lora_op_ack_payload \<Rightarrow> bool" where
  "op_ack_ok p \<longleftrightarrow> ap_stream_id p \<noteq> 0 \<and> ap_ack_op_id p \<noteq> 0"

definition op_ack_wire :: "u16 \<times> u16 \<times> u16 \<Rightarrow> num8lora_op_ack_payload \<Rightarrow> u8 list" where
  "op_ack_wire a p = op_unicast_frame NUM8LORA_OP_MSG_ACK a (op_ack_bytes p)"

definition op_ack_valid :: "u16 \<times> u16 \<times> u16 \<Rightarrow> num8lora_op_ack_payload \<Rightarrow> bool" where
  "op_ack_valid a p \<longleftrightarrow> op_unicast_ok a \<and> op_ack_ok p"

definition op_nack_bytes :: "num8lora_op_nack_payload \<Rightarrow> u8 list" where
  "op_nack_bytes p = le32 (np_stream_id p) @ le16 (np_error_code p) @ le16 (np_detail p) @ le32 (np_expected_next_op_id p)"

definition op_nack_parse :: "u8 list \<Rightarrow> num8lora_op_nack_payload" where
  "op_nack_parse bs =
    \<lparr>np_stream_id = num8lora_codec_read_u32_le bs 0,
     np_error_code = num8lora_codec_read_u16_le bs 4,
     np_detail = num8lora_codec_read_u16_le bs 6,
     np_expected_next_op_id = num8lora_codec_read_u32_le bs 8\<rparr>"

definition op_nack_ok :: "num8lora_op_nack_payload \<Rightarrow> bool" where
  "op_nack_ok p \<longleftrightarrow> np_stream_id p \<noteq> 0 \<and> np_expected_next_op_id p \<noteq> 0"

definition op_nack_wire :: "u16 \<times> u16 \<times> u16 \<Rightarrow> num8lora_op_nack_payload \<Rightarrow> u8 list" where
  "op_nack_wire a p = op_unicast_frame NUM8LORA_OP_MSG_NACK a (op_nack_bytes p)"

definition op_nack_valid :: "u16 \<times> u16 \<times> u16 \<Rightarrow> num8lora_op_nack_payload \<Rightarrow> bool" where
  "op_nack_valid a p \<longleftrightarrow> op_unicast_ok a \<and> op_nack_ok p"

subsection \<open>The payload formats\<close>

text \<open>Every payload printer and its parser are inverse.\<close>

interpretation beacon_payload: payload_format op_beacon_bytes op_beacon_parse 8
proof
  fix p :: num8lora_op_beacon_payload and rest bs :: "u8 list"
  show "length (op_beacon_bytes p) = 8"
    by (simp add: op_beacon_bytes_def)
  show "op_beacon_parse (op_beacon_bytes p @ rest) = p"
    by (simp add: op_beacon_bytes_def op_beacon_parse_def layout nth_append)
  show "op_beacon_bytes (op_beacon_parse bs) = bs" if len: "length bs = 8"
  proof -
    obtain x0 x1 x2 x3 x4 x5 x6 x7 where
      "bs = [x0, x1, x2, x3, x4, x5, x6, x7]"
      using len by (auto simp: numeral_eq_Suc length_Suc_conv)
    then show ?thesis
      by (simp add: op_beacon_bytes_def op_beacon_parse_def layout)
  qed
qed

interpretation request_payload: payload_format op_request_bytes op_request_parse 8
proof
  fix p :: num8lora_op_request_payload and rest bs :: "u8 list"
  show "length (op_request_bytes p) = 8"
    by (simp add: op_request_bytes_def)
  show "op_request_parse (op_request_bytes p @ rest) = p"
    by (simp add: op_request_bytes_def op_request_parse_def layout nth_append)
  show "op_request_bytes (op_request_parse bs) = bs" if len: "length bs = 8"
  proof -
    obtain x0 x1 x2 x3 x4 x5 x6 x7 where
      "bs = [x0, x1, x2, x3, x4, x5, x6, x7]"
      using len by (auto simp: numeral_eq_Suc length_Suc_conv)
    then show ?thesis
      by (simp add: op_request_bytes_def op_request_parse_def layout)
  qed
qed

interpretation data_payload: payload_format op_data_bytes op_data_parse 16
proof
  fix p :: num8lora_op_data_payload and rest bs :: "u8 list"
  show "length (op_data_bytes p) = 16"
    by (simp add: op_data_bytes_def)
  show "op_data_parse (op_data_bytes p @ rest) = p"
    by (simp add: op_data_bytes_def op_data_parse_def layout nth_append)
  show "op_data_bytes (op_data_parse bs) = bs" if len: "length bs = 16"
  proof -
    obtain x0 x1 x2 x3 x4 x5 x6 x7 x8 x9 x10 x11 x12 x13 x14 x15 where
      "bs = [x0, x1, x2, x3, x4, x5, x6, x7, x8, x9, x10, x11, x12, x13, x14, x15]"
      using len by (auto simp: numeral_eq_Suc length_Suc_conv)
    then show ?thesis
      by (simp add: op_data_bytes_def op_data_parse_def layout)
  qed
qed

interpretation ack_payload: payload_format op_ack_bytes op_ack_parse 8
proof
  fix p :: num8lora_op_ack_payload and rest bs :: "u8 list"
  show "length (op_ack_bytes p) = 8"
    by (simp add: op_ack_bytes_def)
  show "op_ack_parse (op_ack_bytes p @ rest) = p"
    by (simp add: op_ack_bytes_def op_ack_parse_def layout nth_append)
  show "op_ack_bytes (op_ack_parse bs) = bs" if len: "length bs = 8"
  proof -
    obtain x0 x1 x2 x3 x4 x5 x6 x7 where
      "bs = [x0, x1, x2, x3, x4, x5, x6, x7]"
      using len by (auto simp: numeral_eq_Suc length_Suc_conv)
    then show ?thesis
      by (simp add: op_ack_bytes_def op_ack_parse_def layout)
  qed
qed

interpretation nack_payload: payload_format op_nack_bytes op_nack_parse 12
proof
  fix p :: num8lora_op_nack_payload and rest bs :: "u8 list"
  show "length (op_nack_bytes p) = 12"
    by (simp add: op_nack_bytes_def)
  show "op_nack_parse (op_nack_bytes p @ rest) = p"
    by (simp add: op_nack_bytes_def op_nack_parse_def layout nth_append)
  show "op_nack_bytes (op_nack_parse bs) = bs" if len: "length bs = 12"
  proof -
    obtain x0 x1 x2 x3 x4 x5 x6 x7 x8 x9 x10 x11 where
      "bs = [x0, x1, x2, x3, x4, x5, x6, x7, x8, x9, x10, x11]"
      using len by (auto simp: numeral_eq_Suc length_Suc_conv)
    then show ?thesis
      by (simp add: op_nack_bytes_def op_nack_parse_def layout)
  qed
qed

lemmas payload_lengths [simp, width] =
  beacon_payload.length_print request_payload.length_print data_payload.length_print
  ack_payload.length_print nack_payload.length_print

subsection \<open>The common header\<close>

lemma validate_frame_crc_iff:
  assumes "unat n \<le> length b"
  shows "num8lora_op_validate_frame_crc (Some b) n \<longleftrightarrow>
    10 \<le> unat n \<and> take (unat n) b = seal (take (unat n - 2) b)"
proof (cases "10 \<le> unat n")
  case True
  then have m: "unat (n - 2) = unat n - 2"
    by (simp add: unat_sub word_le_nat_alt)
  have "num8lora_op_validate_frame_crc (Some b) n \<longleftrightarrow>
     num8lora_codec_read_u16_le (take (unat n) b) (unat n - 2)
       = crc_of (take (unat n - 2) (take (unat n) b))"
    using True assms by (simp add: num8lora_op_validate_frame_crc_def word_less_nat_alt m
      read_u16_take num8lora_op_crc16_ccitt_false_def crc16_is_crc_of)
  also have "\<dots> \<longleftrightarrow> take (unat n) b = seal (take (unat n - 2) (take (unat n) b))"
    using True assms by (intro seal_iff) simp_all
  finally show ?thesis using True by simp
qed (simp add: num8lora_op_validate_frame_crc_def word_less_nat_alt)

text \<open>Header validation accepts exactly the frames of the expected type with legal addresses.\<close>

lemma validate_header_iff:
  assumes "unat n \<le> length b" "10 \<le> unat n"
  shows "num8lora_op_validate_common_header (Some b) n typ (Some h0) = (True, Some h) \<longleftrightarrow>
    (\<exists>sid rid sq pay. h = op_header typ sid rid sq \<and> sid \<noteq> 0
      \<and> (rid = 0 \<longleftrightarrow> typ = NUM8LORA_OP_MSG_BEACON) \<and> take (unat n) b = frame typ sid rid sq pay)"
proof -
  have "num8lora_op_validate_common_header (Some b) n typ (Some h0) = (True, Some h) \<longleftrightarrow>
    (\<exists>sid rid sq. h = op_header typ sid rid sq \<and> sid \<noteq> 0
      \<and> (rid = 0 \<longleftrightarrow> typ = NUM8LORA_OP_MSG_BEACON) \<and> take (unat n) b = seal (take (unat n - 2) b)
      \<and> b ! 0 = 1 \<and> b ! 1 = typ \<and> num8lora_codec_read_u16_le b 2 = sid
      \<and> num8lora_codec_read_u16_le b 4 = rid \<and> num8lora_codec_read_u16_le b 6 = sq)"
    using assms
    by (auto simp: num8lora_op_validate_common_header_def validate_frame_crc_iff
      num8lora_op_decode_common_header_def num8lora_op_clear_common_def Let_def word_less_nat_alt
      op_header_def split: if_splits)
  then show ?thesis
    unfolding frame_iff_reads [OF assms] by blast
qed

lemma validate_writes:
  "\<exists>ok h. num8lora_op_validate_common_header (Some b) n typ (Some h0) = (ok, Some h)"
  by (cases "num8lora_op_validate_common_header (Some b) n typ (Some h0)")
    (auto simp: num8lora_op_validate_common_header_def num8lora_op_decode_common_header_def
      num8lora_op_clear_common_def Let_def split: if_splits)

subsection \<open>Encoders and decoders meet the codec contract\<close>

text \<open>A beacon goes to nobody in particular, every other frame to one receiver.\<close>

definition op_legal :: "u8 \<Rightarrow> u16 \<Rightarrow> u16 \<Rightarrow> bool" where
  "op_legal kind sid rid \<longleftrightarrow> sid \<noteq> 0 \<and> (rid = 0 \<longleftrightarrow> kind = NUM8LORA_OP_MSG_BEACON)"

lemma op_frame_len_simps [simp]:
  "num8lora_op_frame_len 8 (Some x) = (True, Some 18)"
  "num8lora_op_frame_len 12 (Some x) = (True, Some 22)"
  "num8lora_op_frame_len 16 (Some x) = (True, Some 26)"
  by (simp_all add: num8lora_op_frame_len_def num8lora_op_payload_len_add_u32_def add_u32_exact)

lemma crc_of_overlay:
  assumes "length bs = unat m" "unat m \<le> length b"
  shows "num8lora_op_crc16_ccitt_false (Some (overlay b 0 bs)) m = crc_of bs"
  using assms(2) unfolding assms(1) [symmetric]
  by (simp add: num8lora_op_crc16_ccitt_false_def crc16_is_crc_of assms(1) [symmetric] take_overlay_0)

lemmas encode_defs = Let_def update_overlay write_u16_overlay write_u32_overlay overlay_overlay
  crc_of_overlay seal_def frame_def header_bytes_def word_less_nat_alt word_le_nat_alt

lemmas beacon_defs = op_beacon_bytes_def op_beacon_parse_def op_beacon_ok_def
lemmas request_defs = op_request_wire_def op_request_valid_def op_request_bytes_def
  op_request_parse_def op_request_ok_def
lemmas data_defs = op_data_wire_def op_data_valid_def op_data_bytes_def op_data_parse_def
  op_data_ok_def
lemmas ack_defs = op_ack_wire_def op_ack_valid_def op_ack_bytes_def op_ack_parse_def op_ack_ok_def
lemmas nack_defs = op_nack_wire_def op_nack_valid_def op_nack_bytes_def op_nack_parse_def
  op_nack_ok_def

lemma decode_beacon_iff:
  assumes "unat n \<le> length b"
  shows "num8lora_op_decode_beacon (Some b) n (Some h0) (Some p0) = (True, Some h, Some p) \<longleftrightarrow>
    unat n = 8 + 10 \<and> op_beacon_ok p
    \<and> (\<exists>sid rid sq pay. h = op_header NUM8LORA_OP_MSG_BEACON sid rid sq
      \<and> op_legal NUM8LORA_OP_MSG_BEACON sid rid
      \<and> take (unat n) b = frame NUM8LORA_OP_MSG_BEACON sid rid sq pay)
    \<and> p = op_beacon_parse (drop 8 b)"
proof (cases "n = 18")
  case True
  with assms have len: "unat n \<le> length b" "10 \<le> unat n" by simp_all
  show ?thesis
    using validate_header_iff [OF len, of NUM8LORA_OP_MSG_BEACON h0 h] len(1) unfolding True
    by (cases "num8lora_op_validate_common_header (Some b) 18 NUM8LORA_OP_MSG_BEACON (Some h0)")
      (auto simp: num8lora_op_decode_beacon_def num8lora_op_clear_beacon_def Let_def op_beacon_ok_def
        op_beacon_parse_def op_legal_def read_drop)
qed (auto simp: num8lora_op_decode_beacon_def num8lora_op_clear_beacon_def Let_def word_unat_eq_iff)

interpretation beacon: sealed_message op_beacon_bytes op_beacon_parse 8 NUM8LORA_OP_MSG_BEACON op_beacon_ok
  "op_legal NUM8LORA_OP_MSG_BEACON" "op_header NUM8LORA_OP_MSG_BEACON" "pack_broadcast num8lora_op_encode_beacon"
  num8lora_op_decode_beacon op_broadcast_header op_beacon_wire op_beacon_valid
proof unfold_locales
  fix a p cap b l n h0 p0 h f
  show "pack_broadcast num8lora_op_encode_beacon (Some b) cap a (Some p) (Some l)
      = (True, Some (overlay b 0 (op_beacon_wire a p)), Some (of_nat (length (op_beacon_wire a p))))"
    if "op_beacon_valid a p" "length (op_beacon_wire a p) \<le> unat cap" "unat cap \<le> length b"
  proof -
    obtain sid sq where a: "a = (sid, sq)" by (cases a)
    have "18 \<le> unat cap" "18 \<le> length b" "b \<noteq> []"
      using that by (auto simp: a)
    then show ?thesis
      using that(1) by (auto simp: a pack_broadcast_def num8lora_op_encode_beacon_def beacon_defs encode_defs)
  qed
  show "pack_broadcast num8lora_op_encode_beacon (Some b) cap a (Some p) (Some l) = (False, Some b, Some 0)"
    if "\<not> (op_beacon_valid a p \<and> length (op_beacon_wire a p) \<le> unat cap)"
    using that by (cases a) (auto simp: pack_broadcast_def num8lora_op_encode_beacon_def beacon_defs Let_def
      word_less_nat_alt not_le)
  show "num8lora_op_decode_beacon (Some b) n (Some h0) (Some p0) = (True, Some h, Some p) \<longleftrightarrow>
      unat n = 8 + 10 \<and> op_beacon_ok p
      \<and> (\<exists>sid rid sq pay. h = op_header NUM8LORA_OP_MSG_BEACON sid rid sq
        \<and> op_legal NUM8LORA_OP_MSG_BEACON sid rid
        \<and> take (unat n) b = frame NUM8LORA_OP_MSG_BEACON sid rid sq pay)
      \<and> p = op_beacon_parse (drop 8 b)" if len: "unat n \<le> length b"
    by (rule decode_beacon_iff [OF len])
  show "\<exists>done h p. num8lora_op_decode_beacon (Some b) n (Some h0) (Some p0) = (done, Some h, Some p)"
    using validate_writes [of b n NUM8LORA_OP_MSG_BEACON h0]
    by (auto simp: num8lora_op_decode_beacon_def num8lora_op_clear_beacon_def Let_def)
  show "(\<exists>a. h = op_broadcast_header a \<and> op_beacon_valid a p \<and> f = op_beacon_wire a p) \<longleftrightarrow>
      op_beacon_ok p \<and> (\<exists>sid rid sq. h = op_header NUM8LORA_OP_MSG_BEACON sid rid sq
        \<and> op_legal NUM8LORA_OP_MSG_BEACON sid rid
        \<and> f = frame NUM8LORA_OP_MSG_BEACON sid rid sq (op_beacon_bytes p))"
    by (auto simp: op_legal_def)
qed

lemma decode_request_iff:
  assumes "unat n \<le> length b"
  shows "num8lora_op_decode_request (Some b) n (Some h0) (Some p0) = (True, Some h, Some p) \<longleftrightarrow>
    unat n = 8 + 10 \<and> op_request_ok p
    \<and> (\<exists>sid rid sq pay. h = op_header NUM8LORA_OP_MSG_REQUEST sid rid sq
      \<and> op_legal NUM8LORA_OP_MSG_REQUEST sid rid
      \<and> take (unat n) b = frame NUM8LORA_OP_MSG_REQUEST sid rid sq pay)
    \<and> p = op_request_parse (drop 8 b)"
proof (cases "n = 18")
  case True
  with assms have len: "unat n \<le> length b" "10 \<le> unat n" by simp_all
  show ?thesis
    using validate_header_iff [OF len, of NUM8LORA_OP_MSG_REQUEST h0 h] len(1) unfolding True
    by (cases "num8lora_op_validate_common_header (Some b) 18 NUM8LORA_OP_MSG_REQUEST (Some h0)")
      (auto simp: num8lora_op_decode_request_def num8lora_op_clear_request_def Let_def op_request_ok_def
        op_request_parse_def op_legal_def read_drop)
qed (auto simp: num8lora_op_decode_request_def num8lora_op_clear_request_def Let_def word_unat_eq_iff)

interpretation request: sealed_message op_request_bytes op_request_parse 8 NUM8LORA_OP_MSG_REQUEST op_request_ok
  "op_legal NUM8LORA_OP_MSG_REQUEST" "op_header NUM8LORA_OP_MSG_REQUEST" "pack_unicast num8lora_op_encode_request"
  num8lora_op_decode_request "op_unicast_header NUM8LORA_OP_MSG_REQUEST" op_request_wire op_request_valid
proof unfold_locales
  fix a p cap b l n h0 p0 h f
  show "pack_unicast num8lora_op_encode_request (Some b) cap a (Some p) (Some l)
      = (True, Some (overlay b 0 (op_request_wire a p)), Some (of_nat (length (op_request_wire a p))))"
    if "op_request_valid a p" "length (op_request_wire a p) \<le> unat cap" "unat cap \<le> length b"
  proof -
    obtain sid rid sq where a: "a = (sid, rid, sq)" by (cases a)
    have "18 \<le> unat cap" "18 \<le> length b" "b \<noteq> []"
      using that by (auto simp: a op_request_wire_def)
    then show ?thesis
      using that(1) by (auto simp: a pack_unicast_def num8lora_op_encode_request_def request_defs encode_defs)
  qed
  show "pack_unicast num8lora_op_encode_request (Some b) cap a (Some p) (Some l) = (False, Some b, Some 0)"
    if "\<not> (op_request_valid a p \<and> length (op_request_wire a p) \<le> unat cap)"
    using that by (cases a) (auto simp: pack_unicast_def num8lora_op_encode_request_def request_defs Let_def
      word_less_nat_alt not_le)
  show "num8lora_op_decode_request (Some b) n (Some h0) (Some p0) = (True, Some h, Some p) \<longleftrightarrow>
      unat n = 8 + 10 \<and> op_request_ok p
      \<and> (\<exists>sid rid sq pay. h = op_header NUM8LORA_OP_MSG_REQUEST sid rid sq
        \<and> op_legal NUM8LORA_OP_MSG_REQUEST sid rid
        \<and> take (unat n) b = frame NUM8LORA_OP_MSG_REQUEST sid rid sq pay)
      \<and> p = op_request_parse (drop 8 b)" if len: "unat n \<le> length b"
    by (rule decode_request_iff [OF len])
  show "\<exists>done h p. num8lora_op_decode_request (Some b) n (Some h0) (Some p0) = (done, Some h, Some p)"
    using validate_writes [of b n NUM8LORA_OP_MSG_REQUEST h0]
    by (auto simp: num8lora_op_decode_request_def num8lora_op_clear_request_def Let_def)
  show "(\<exists>a. h = op_unicast_header NUM8LORA_OP_MSG_REQUEST a \<and> op_request_valid a p \<and> f = op_request_wire a p) \<longleftrightarrow>
      op_request_ok p \<and> (\<exists>sid rid sq. h = op_header NUM8LORA_OP_MSG_REQUEST sid rid sq
        \<and> op_legal NUM8LORA_OP_MSG_REQUEST sid rid
        \<and> f = frame NUM8LORA_OP_MSG_REQUEST sid rid sq (op_request_bytes p))"
    by (auto simp: op_legal_def op_request_wire_def op_request_valid_def)
qed

lemma decode_data_iff:
  assumes "unat n \<le> length b"
  shows "num8lora_op_decode_data (Some b) n (Some h0) (Some p0) = (True, Some h, Some p) \<longleftrightarrow>
    unat n = 16 + 10 \<and> op_data_ok p
    \<and> (\<exists>sid rid sq pay. h = op_header NUM8LORA_OP_MSG_DATA sid rid sq
      \<and> op_legal NUM8LORA_OP_MSG_DATA sid rid
      \<and> take (unat n) b = frame NUM8LORA_OP_MSG_DATA sid rid sq pay)
    \<and> p = op_data_parse (drop 8 b)"
proof (cases "n = 26")
  case True
  with assms have len: "unat n \<le> length b" "10 \<le> unat n" by simp_all
  show ?thesis
    using validate_header_iff [OF len, of NUM8LORA_OP_MSG_DATA h0 h] len(1) unfolding True
    by (cases "num8lora_op_validate_common_header (Some b) 26 NUM8LORA_OP_MSG_DATA (Some h0)")
      (auto simp: num8lora_op_decode_data_def num8lora_op_clear_data_def Let_def op_data_ok_def
        op_data_parse_def op_legal_def read_drop)
qed (auto simp: num8lora_op_decode_data_def num8lora_op_clear_data_def Let_def word_unat_eq_iff)

interpretation data: sealed_message op_data_bytes op_data_parse 16 NUM8LORA_OP_MSG_DATA op_data_ok
  "op_legal NUM8LORA_OP_MSG_DATA" "op_header NUM8LORA_OP_MSG_DATA" "pack_unicast num8lora_op_encode_data"
  num8lora_op_decode_data "op_unicast_header NUM8LORA_OP_MSG_DATA" op_data_wire op_data_valid
proof unfold_locales
  fix a p cap b l n h0 p0 h f
  show "pack_unicast num8lora_op_encode_data (Some b) cap a (Some p) (Some l)
      = (True, Some (overlay b 0 (op_data_wire a p)), Some (of_nat (length (op_data_wire a p))))"
    if "op_data_valid a p" "length (op_data_wire a p) \<le> unat cap" "unat cap \<le> length b"
  proof -
    obtain sid rid sq where a: "a = (sid, rid, sq)" by (cases a)
    have "26 \<le> unat cap" "26 \<le> length b" "b \<noteq> []"
      using that by (auto simp: a op_data_wire_def)
    then show ?thesis
      using that(1) by (auto simp: a pack_unicast_def num8lora_op_encode_data_def data_defs encode_defs)
  qed
  show "pack_unicast num8lora_op_encode_data (Some b) cap a (Some p) (Some l) = (False, Some b, Some 0)"
    if "\<not> (op_data_valid a p \<and> length (op_data_wire a p) \<le> unat cap)"
    using that by (cases a) (auto simp: pack_unicast_def num8lora_op_encode_data_def data_defs Let_def
      word_less_nat_alt not_le)
  show "num8lora_op_decode_data (Some b) n (Some h0) (Some p0) = (True, Some h, Some p) \<longleftrightarrow>
      unat n = 16 + 10 \<and> op_data_ok p
      \<and> (\<exists>sid rid sq pay. h = op_header NUM8LORA_OP_MSG_DATA sid rid sq
        \<and> op_legal NUM8LORA_OP_MSG_DATA sid rid
        \<and> take (unat n) b = frame NUM8LORA_OP_MSG_DATA sid rid sq pay)
      \<and> p = op_data_parse (drop 8 b)" if len: "unat n \<le> length b"
    by (rule decode_data_iff [OF len])
  show "\<exists>done h p. num8lora_op_decode_data (Some b) n (Some h0) (Some p0) = (done, Some h, Some p)"
    using validate_writes [of b n NUM8LORA_OP_MSG_DATA h0]
    by (auto simp: num8lora_op_decode_data_def num8lora_op_clear_data_def Let_def)
  show "(\<exists>a. h = op_unicast_header NUM8LORA_OP_MSG_DATA a \<and> op_data_valid a p \<and> f = op_data_wire a p) \<longleftrightarrow>
      op_data_ok p \<and> (\<exists>sid rid sq. h = op_header NUM8LORA_OP_MSG_DATA sid rid sq
        \<and> op_legal NUM8LORA_OP_MSG_DATA sid rid
        \<and> f = frame NUM8LORA_OP_MSG_DATA sid rid sq (op_data_bytes p))"
    by (auto simp: op_legal_def op_data_wire_def op_data_valid_def)
qed

lemma decode_ack_iff:
  assumes "unat n \<le> length b"
  shows "num8lora_op_decode_ack (Some b) n (Some h0) (Some p0) = (True, Some h, Some p) \<longleftrightarrow>
    unat n = 8 + 10 \<and> op_ack_ok p
    \<and> (\<exists>sid rid sq pay. h = op_header NUM8LORA_OP_MSG_ACK sid rid sq
      \<and> op_legal NUM8LORA_OP_MSG_ACK sid rid
      \<and> take (unat n) b = frame NUM8LORA_OP_MSG_ACK sid rid sq pay)
    \<and> p = op_ack_parse (drop 8 b)"
proof (cases "n = 18")
  case True
  with assms have len: "unat n \<le> length b" "10 \<le> unat n" by simp_all
  show ?thesis
    using validate_header_iff [OF len, of NUM8LORA_OP_MSG_ACK h0 h] len(1) unfolding True
    by (cases "num8lora_op_validate_common_header (Some b) 18 NUM8LORA_OP_MSG_ACK (Some h0)")
      (auto simp: num8lora_op_decode_ack_def num8lora_op_clear_ack_def Let_def op_ack_ok_def
        op_ack_parse_def op_legal_def read_drop)
qed (auto simp: num8lora_op_decode_ack_def num8lora_op_clear_ack_def Let_def word_unat_eq_iff)

interpretation ack: sealed_message op_ack_bytes op_ack_parse 8 NUM8LORA_OP_MSG_ACK op_ack_ok
  "op_legal NUM8LORA_OP_MSG_ACK" "op_header NUM8LORA_OP_MSG_ACK" "pack_unicast num8lora_op_encode_ack"
  num8lora_op_decode_ack "op_unicast_header NUM8LORA_OP_MSG_ACK" op_ack_wire op_ack_valid
proof unfold_locales
  fix a p cap b l n h0 p0 h f
  show "pack_unicast num8lora_op_encode_ack (Some b) cap a (Some p) (Some l)
      = (True, Some (overlay b 0 (op_ack_wire a p)), Some (of_nat (length (op_ack_wire a p))))"
    if "op_ack_valid a p" "length (op_ack_wire a p) \<le> unat cap" "unat cap \<le> length b"
  proof -
    obtain sid rid sq where a: "a = (sid, rid, sq)" by (cases a)
    have "18 \<le> unat cap" "18 \<le> length b" "b \<noteq> []"
      using that by (auto simp: a op_ack_wire_def)
    then show ?thesis
      using that(1) by (auto simp: a pack_unicast_def num8lora_op_encode_ack_def ack_defs encode_defs)
  qed
  show "pack_unicast num8lora_op_encode_ack (Some b) cap a (Some p) (Some l) = (False, Some b, Some 0)"
    if "\<not> (op_ack_valid a p \<and> length (op_ack_wire a p) \<le> unat cap)"
    using that by (cases a) (auto simp: pack_unicast_def num8lora_op_encode_ack_def ack_defs Let_def
      word_less_nat_alt not_le)
  show "num8lora_op_decode_ack (Some b) n (Some h0) (Some p0) = (True, Some h, Some p) \<longleftrightarrow>
      unat n = 8 + 10 \<and> op_ack_ok p
      \<and> (\<exists>sid rid sq pay. h = op_header NUM8LORA_OP_MSG_ACK sid rid sq
        \<and> op_legal NUM8LORA_OP_MSG_ACK sid rid
        \<and> take (unat n) b = frame NUM8LORA_OP_MSG_ACK sid rid sq pay)
      \<and> p = op_ack_parse (drop 8 b)" if len: "unat n \<le> length b"
    by (rule decode_ack_iff [OF len])
  show "\<exists>done h p. num8lora_op_decode_ack (Some b) n (Some h0) (Some p0) = (done, Some h, Some p)"
    using validate_writes [of b n NUM8LORA_OP_MSG_ACK h0]
    by (auto simp: num8lora_op_decode_ack_def num8lora_op_clear_ack_def Let_def)
  show "(\<exists>a. h = op_unicast_header NUM8LORA_OP_MSG_ACK a \<and> op_ack_valid a p \<and> f = op_ack_wire a p) \<longleftrightarrow>
      op_ack_ok p \<and> (\<exists>sid rid sq. h = op_header NUM8LORA_OP_MSG_ACK sid rid sq
        \<and> op_legal NUM8LORA_OP_MSG_ACK sid rid
        \<and> f = frame NUM8LORA_OP_MSG_ACK sid rid sq (op_ack_bytes p))"
    by (auto simp: op_legal_def op_ack_wire_def op_ack_valid_def)
qed

lemma decode_nack_iff:
  assumes "unat n \<le> length b"
  shows "num8lora_op_decode_nack (Some b) n (Some h0) (Some p0) = (True, Some h, Some p) \<longleftrightarrow>
    unat n = 12 + 10 \<and> op_nack_ok p
    \<and> (\<exists>sid rid sq pay. h = op_header NUM8LORA_OP_MSG_NACK sid rid sq
      \<and> op_legal NUM8LORA_OP_MSG_NACK sid rid
      \<and> take (unat n) b = frame NUM8LORA_OP_MSG_NACK sid rid sq pay)
    \<and> p = op_nack_parse (drop 8 b)"
proof (cases "n = 22")
  case True
  with assms have len: "unat n \<le> length b" "10 \<le> unat n" by simp_all
  show ?thesis
    using validate_header_iff [OF len, of NUM8LORA_OP_MSG_NACK h0 h] len(1) unfolding True
    by (cases "num8lora_op_validate_common_header (Some b) 22 NUM8LORA_OP_MSG_NACK (Some h0)")
      (auto simp: num8lora_op_decode_nack_def num8lora_op_clear_nack_def Let_def op_nack_ok_def
        op_nack_parse_def op_legal_def read_drop)
qed (auto simp: num8lora_op_decode_nack_def num8lora_op_clear_nack_def Let_def word_unat_eq_iff)

interpretation nack: sealed_message op_nack_bytes op_nack_parse 12 NUM8LORA_OP_MSG_NACK op_nack_ok
  "op_legal NUM8LORA_OP_MSG_NACK" "op_header NUM8LORA_OP_MSG_NACK" "pack_unicast num8lora_op_encode_nack"
  num8lora_op_decode_nack "op_unicast_header NUM8LORA_OP_MSG_NACK" op_nack_wire op_nack_valid
proof unfold_locales
  fix a p cap b l n h0 p0 h f
  show "pack_unicast num8lora_op_encode_nack (Some b) cap a (Some p) (Some l)
      = (True, Some (overlay b 0 (op_nack_wire a p)), Some (of_nat (length (op_nack_wire a p))))"
    if "op_nack_valid a p" "length (op_nack_wire a p) \<le> unat cap" "unat cap \<le> length b"
  proof -
    obtain sid rid sq where a: "a = (sid, rid, sq)" by (cases a)
    have "22 \<le> unat cap" "22 \<le> length b" "b \<noteq> []"
      using that by (auto simp: a op_nack_wire_def)
    then show ?thesis
      using that(1) by (auto simp: a pack_unicast_def num8lora_op_encode_nack_def nack_defs encode_defs)
  qed
  show "pack_unicast num8lora_op_encode_nack (Some b) cap a (Some p) (Some l) = (False, Some b, Some 0)"
    if "\<not> (op_nack_valid a p \<and> length (op_nack_wire a p) \<le> unat cap)"
    using that by (cases a) (auto simp: pack_unicast_def num8lora_op_encode_nack_def nack_defs Let_def
      word_less_nat_alt not_le)
  show "num8lora_op_decode_nack (Some b) n (Some h0) (Some p0) = (True, Some h, Some p) \<longleftrightarrow>
      unat n = 12 + 10 \<and> op_nack_ok p
      \<and> (\<exists>sid rid sq pay. h = op_header NUM8LORA_OP_MSG_NACK sid rid sq
        \<and> op_legal NUM8LORA_OP_MSG_NACK sid rid
        \<and> take (unat n) b = frame NUM8LORA_OP_MSG_NACK sid rid sq pay)
      \<and> p = op_nack_parse (drop 8 b)" if len: "unat n \<le> length b"
    by (rule decode_nack_iff [OF len])
  show "\<exists>done h p. num8lora_op_decode_nack (Some b) n (Some h0) (Some p0) = (done, Some h, Some p)"
    using validate_writes [of b n NUM8LORA_OP_MSG_NACK h0]
    by (auto simp: num8lora_op_decode_nack_def num8lora_op_clear_nack_def Let_def)
  show "(\<exists>a. h = op_unicast_header NUM8LORA_OP_MSG_NACK a \<and> op_nack_valid a p \<and> f = op_nack_wire a p) \<longleftrightarrow>
      op_nack_ok p \<and> (\<exists>sid rid sq. h = op_header NUM8LORA_OP_MSG_NACK sid rid sq
        \<and> op_legal NUM8LORA_OP_MSG_NACK sid rid
        \<and> f = frame NUM8LORA_OP_MSG_NACK sid rid sq (op_nack_bytes p))"
    by (auto simp: op_legal_def op_nack_wire_def op_nack_valid_def)
qed

subsection \<open>The contract spelled out for the C signatures\<close>

lemmas encode_request_accepts = request.encode_accepts
  [where a = "(sid, rid, sq)" for sid rid sq, unfolded pack_unicast_def prod.case]
lemmas encode_request_success = request.encode_success
  [where a = "(sid, rid, sq)" for sid rid sq, unfolded pack_unicast_def prod.case]
lemmas emitted_request = request.emitted_encode
  [where a = "(sid, rid, sq)" for sid rid sq, unfolded pack_unicast_def prod.case]
lemmas encode_request_rejects = request.encode_rejects
  [where a = "(sid, rid, sq)" for sid rid sq, unfolded pack_unicast_def prod.case]

lemmas encode_data_accepts = data.encode_accepts
  [where a = "(sid, rid, sq)" for sid rid sq, unfolded pack_unicast_def prod.case]
lemmas encode_data_success = data.encode_success
  [where a = "(sid, rid, sq)" for sid rid sq, unfolded pack_unicast_def prod.case]
lemmas emitted_data = data.emitted_encode
  [where a = "(sid, rid, sq)" for sid rid sq, unfolded pack_unicast_def prod.case]
lemmas encode_data_rejects = data.encode_rejects
  [where a = "(sid, rid, sq)" for sid rid sq, unfolded pack_unicast_def prod.case]

lemmas encode_ack_accepts = ack.encode_accepts
  [where a = "(sid, rid, sq)" for sid rid sq, unfolded pack_unicast_def prod.case]
lemmas encode_ack_success = ack.encode_success
  [where a = "(sid, rid, sq)" for sid rid sq, unfolded pack_unicast_def prod.case]
lemmas emitted_ack = ack.emitted_encode
  [where a = "(sid, rid, sq)" for sid rid sq, unfolded pack_unicast_def prod.case]
lemmas encode_ack_rejects = ack.encode_rejects
  [where a = "(sid, rid, sq)" for sid rid sq, unfolded pack_unicast_def prod.case]

lemmas encode_nack_accepts = nack.encode_accepts
  [where a = "(sid, rid, sq)" for sid rid sq, unfolded pack_unicast_def prod.case]
lemmas encode_nack_success = nack.encode_success
  [where a = "(sid, rid, sq)" for sid rid sq, unfolded pack_unicast_def prod.case]
lemmas emitted_nack = nack.emitted_encode
  [where a = "(sid, rid, sq)" for sid rid sq, unfolded pack_unicast_def prod.case]
lemmas encode_nack_rejects = nack.encode_rejects
  [where a = "(sid, rid, sq)" for sid rid sq, unfolded pack_unicast_def prod.case]

lemmas encode_beacon_accepts = beacon.encode_accepts
  [where a = "(sid, sq)" for sid sq, unfolded pack_broadcast_def prod.case]
lemmas encode_beacon_success = beacon.encode_success
  [where a = "(sid, sq)" for sid sq, unfolded pack_broadcast_def prod.case]

lemmas emitted_beacon = beacon.emitted_encode
  [where a = "(sid, sq)" for sid sq, unfolded pack_broadcast_def prod.case]

lemma op_wire_lengths [simp, width]:
  "length (op_request_wire a p) = 18" "length (op_data_wire a q) = 26"
  "length (op_ack_wire a r) = 18" "length (op_nack_wire a t) = 22"
  by (simp_all add: op_request_wire_def op_data_wire_def op_ack_wire_def op_nack_wire_def)

lemma length_op_beacon_wire [simp, width]: "length (op_beacon_wire a p) = 18"
  by (cases a) simp

text \<open>The second byte of a frame is its type, so frames of different types never coincide.\<close>

lemma frame_type: "frame typ sid rid sq pay ! Suc 0 = typ"
  by (simp add: frame_def seal_def header_bytes_def)

lemma op_wire_types:
  "op_request_wire a p ! Suc 0 = NUM8LORA_OP_MSG_REQUEST"
  "op_data_wire a q ! Suc 0 = NUM8LORA_OP_MSG_DATA"
  "op_ack_wire a r ! Suc 0 = NUM8LORA_OP_MSG_ACK"
  "op_nack_wire a t ! Suc 0 = NUM8LORA_OP_MSG_NACK"
  by (cases a; simp add: op_request_wire_def op_data_wire_def op_ack_wire_def op_nack_wire_def
    frame_type)+

text \<open>The header of a frame, and with it its sender, can be read off its first bytes.\<close>

lemma op_wire_headers:
  "\<exists>typ rest. op_request_wire a p = header_bytes 1 typ (fst a) (fst (snd a)) (snd (snd a)) @ rest"
  "\<exists>typ rest. op_ack_wire a r = header_bytes 1 typ (fst a) (fst (snd a)) (snd (snd a)) @ rest"
  "\<exists>typ rest. op_nack_wire a t = header_bytes 1 typ (fst a) (fst (snd a)) (snd (snd a)) @ rest"
  by (cases a; simp add: op_request_wire_def op_ack_wire_def op_nack_wire_def frame_def seal_def; blast)+

lemma op_wire_sender:
  "op_request_wire a p = header_bytes ver typ sid rid sq @ rest \<Longrightarrow> sid = fst a"
  "op_ack_wire a r = header_bytes ver typ sid rid sq @ rest \<Longrightarrow> sid = fst a"
  "op_nack_wire a t = header_bytes ver typ sid rid sq @ rest \<Longrightarrow> sid = fst a"
  using op_wire_headers(1) [of a p] op_wire_headers(2) [of a r] op_wire_headers(3) [of a t] by auto

lemma op_beacon_wire_type: "op_beacon_wire a p ! Suc 0 = NUM8LORA_OP_MSG_BEACON"
  by (cases a) (simp add: frame_type)

lemma op_ack_wire_inject: "op_ack_wire a p = op_ack_wire a' p' \<longleftrightarrow> a = a' \<and> p = p'"
proof
  assume "op_ack_wire a p = op_ack_wire a' p'"
  then have "a = a'" "op_ack_bytes p = op_ack_bytes p'"
    by (cases a; cases a'; simp add: op_ack_wire_def)+
  then show "a = a' \<and> p = p'"
    using ack_payload.parse_print [of p "[]"] ack_payload.parse_print [of p' "[]"] by simp
qed simp

lemma op_data_sealed: "\<exists>bs. op_data_wire a p = seal bs"
  by (cases a) (auto simp: op_data_wire_def frame_def)

lemma op_header_simps [simp]:
  "h_protocol_version (op_header typ sid rid sq) = 1" "h_msg_type (op_header typ sid rid sq) = typ"
  "h_sender_id (op_header typ sid rid sq) = sid" "h_receiver_id (op_header typ sid rid sq) = rid"
  "h_seq (op_header typ sid rid sq) = sq"
  by (simp_all add: op_header_def)

end
