(* ===== verification/Engine.thy ===== *)
theory Engine
  imports Prelude
begin

text \<open>
  The num8 engine, a set of numbers behind \<open>num8.h\<close>. It is code outside the repository: its
  operations are parameters of the definitions that call them, of the type \<open>engine_op\<close>, and only
  the status codes the repository looks at are named here.
\<close>

datatype num8_status =
  NUM8_STATUS_OK | NUM8_STATUS_ADDED | NUM8_STATUS_ALREADY_EXISTS | NUM8_STATUS_REMOVED
  | NUM8_STATUS_NOT_FOUND | NUM8_STATUS_OTHER nat

type_synonym 'e engine_op = "'e \<Rightarrow> u32 \<Rightarrow> num8_status \<times> 'e"

text \<open>
  What a client relies on: an operation that reports success has done what its name says to the set
  of numbers stored. Nothing is said of an operation that fails.
\<close>

definition adds :: "('e \<Rightarrow> u32 set) \<Rightarrow> 'e engine_op \<Rightarrow> bool" where
  "adds numbers add \<longleftrightarrow> (\<forall>e v st e'. add e v = (st, e')
    \<longrightarrow> st = NUM8_STATUS_ADDED \<or> st = NUM8_STATUS_ALREADY_EXISTS \<longrightarrow> numbers e' = insert v (numbers e))"

definition removes :: "('e \<Rightarrow> u32 set) \<Rightarrow> 'e engine_op \<Rightarrow> bool" where
  "removes numbers remove \<longleftrightarrow> (\<forall>e v st e'. remove e v = (st, e')
    \<longrightarrow> st = NUM8_STATUS_REMOVED \<or> st = NUM8_STATUS_NOT_FOUND \<longrightarrow> numbers e' = numbers e - {v})"

definition flush_keeps :: "('e \<Rightarrow> u32 set) \<Rightarrow> ('e \<Rightarrow> num8_status \<times> 'e) \<Rightarrow> bool" where
  "flush_keeps numbers flush \<longleftrightarrow> (\<forall>e st e'. flush e = (st, e') \<longrightarrow> numbers e' = numbers e)"

text \<open>An engine that keeps its numbers in a list; it shows that the assumptions can be met.\<close>

definition list_add :: "u32 list engine_op" where
  "list_add e v = (if v \<in> set e then (NUM8_STATUS_ALREADY_EXISTS, e) else (NUM8_STATUS_ADDED, v # e))"

definition list_remove :: "u32 list engine_op" where
  "list_remove e v =
    (if v \<in> set e then (NUM8_STATUS_REMOVED, removeAll v e) else (NUM8_STATUS_NOT_FOUND, e))"

definition list_flush :: "u32 list \<Rightarrow> num8_status \<times> u32 list" where
  "list_flush e = (NUM8_STATUS_OK, e)"

lemma list_engine: "adds set list_add" "removes set list_remove" "flush_keeps set list_flush"
  by (auto simp: adds_def removes_def flush_keeps_def list_add_def list_remove_def list_flush_def
    split: if_splits)

end
