(* ===== verification/Receiver.thy ===== *)
theory Receiver
  imports OpFrame Engine
begin

text \<open>
  \<open>src/src/num8lora_receiver.c\<close> and \<open>src/include/num8lora_receiver.h\<close>: the receiver of the async
  protocol. It answers a BEACON that announces operations it lacks with a REQUEST, and a DATA frame
  with an ACK or a NACK; it applies an operation through the caller's callback exactly when its id
  is the successor of the last applied one.

  The callback is a parameter: \<open>apply u t v\<close> is its verdict and the caller's object after the call.
  Every function returns its status, the receiver, (for DATA) the caller's object, the output
  buffer and the length cell. The uninitialised locals of the C functions are given a value here;
  the decoders overwrite them before anything reads them.
\<close>

record num8lora_receiver =
  r_receiver_id :: u16
  r_expected_sender_id :: u16
  r_seq :: u16
  r_stream_id :: u32
  r_last_applied_op_id :: u32

type_synonym 'u apply_fn = "'u \<Rightarrow> u8 \<Rightarrow> u32 \<Rightarrow> bool \<times> 'u"

abbreviation MAX_VALUE :: u32 where "MAX_VALUE \<equiv> 99999999"
abbreviation ACK_FRAME_LEN :: u32 where "ACK_FRAME_LEN \<equiv> 18"
abbreviation NACK_FRAME_LEN :: u32 where "NACK_FRAME_LEN \<equiv> 22"

abbreviation local_header :: num8lora_op_common_header where
  "local_header \<equiv> \<lparr>h_protocol_version = 0, h_msg_type = 0, h_sender_id = 0, h_receiver_id = 0,
    h_seq = 0\<rparr>"
abbreviation local_beacon :: num8lora_op_beacon_payload where
  "local_beacon \<equiv> \<lparr>bp_stream_id = 0, bp_latest_op_id = 0\<rparr>"
abbreviation local_request :: num8lora_op_request_payload where
  "local_request \<equiv> \<lparr>rp_stream_id = 0, rp_next_needed_op_id = 0\<rparr>"
abbreviation local_data :: num8lora_op_data_payload where
  "local_data \<equiv> \<lparr>dp_stream_id = 0, dp_op_id = 0, dp_op_type = 0, dp_reserved0 = 0,
    dp_reserved1 = 0, dp_value = 0\<rparr>"
abbreviation local_ack :: num8lora_op_ack_payload where
  "local_ack \<equiv> \<lparr>ap_stream_id = 0, ap_ack_op_id = 0\<rparr>"
abbreviation local_nack :: num8lora_op_nack_payload where
  "local_nack \<equiv> \<lparr>np_stream_id = 0, np_error_code = 0, np_detail = 0, np_expected_next_op_id = 0\<rparr>"

definition num8lora_receiver_init ::
  "num8lora_receiver ptr \<Rightarrow> u16 \<Rightarrow> u16 \<Rightarrow> u32 \<Rightarrow> u32 \<Rightarrow> num8lora_receiver ptr" where
  "num8lora_receiver_init r receiver_id expected_sender_id stream_id last_applied_op_id =
    (case r of
       None \<Rightarrow> None
     | Some _ \<Rightarrow> Some \<lparr>r_receiver_id = receiver_id, r_expected_sender_id = expected_sender_id,
         r_seq = 1, r_stream_id = stream_id, r_last_applied_op_id = last_applied_op_id\<rparr>)"

definition num8lora_receiver_handle_beacon ::
  "num8lora_receiver ptr \<Rightarrow> u8 list ptr \<Rightarrow> u32 \<Rightarrow> u8 list ptr \<Rightarrow> u32 \<Rightarrow> u32 ptr
    \<Rightarrow> bool \<times> num8lora_receiver ptr \<times> u8 list ptr \<times> u32 ptr" where
  "num8lora_receiver_handle_beacon r in_buf in_len out_buf out_cap out_len =
    (let out_len = store 0 out_len in
     case (r, in_buf, out_buf, out_len) of
       (Some rr, Some _, Some _, Some _) \<Rightarrow>
         (case num8lora_op_decode_beacon in_buf in_len (Some local_header) (Some local_beacon) of
           (True, Some hdr, Some b) \<Rightarrow>
             if r_expected_sender_id rr \<noteq> 0 \<and> h_sender_id hdr \<noteq> r_expected_sender_id rr
             then (False, r, out_buf, out_len)
             else if bp_stream_id b \<noteq> r_stream_id rr then (False, r, out_buf, out_len)
             else if bp_latest_op_id b \<le> r_last_applied_op_id rr then (False, r, out_buf, out_len)
             else
               let req = \<lparr>rp_stream_id = r_stream_id rr,
                     rp_next_needed_op_id = r_last_applied_op_id rr + 1\<rparr>;
                   (ok, out_buf, out_len) = num8lora_op_encode_request out_buf out_cap
                     (r_receiver_id rr) (h_sender_id hdr) (r_seq rr) (Some req) out_len
               in (ok, Some (rr\<lparr>r_seq := r_seq rr + 1\<rparr>), out_buf, out_len)
         | _ \<Rightarrow> (False, r, out_buf, out_len))
     | _ \<Rightarrow> (False, r, out_buf, out_len))"

text \<open>The two ways \<open>num8lora_receiver_handle_data\<close> ends with a reply; \<open>r->seq++\<close> in both.\<close>

definition receiver_reply_nack ::
  "num8lora_receiver \<Rightarrow> u16 \<Rightarrow> u16 \<Rightarrow> 'u \<Rightarrow> u8 list ptr \<Rightarrow> u32 \<Rightarrow> u32 ptr
    \<Rightarrow> bool \<times> num8lora_receiver ptr \<times> 'u \<times> u8 list ptr \<times> u32 ptr" where
  "receiver_reply_nack rr sender_id error_code u out_buf out_cap out_len =
    (let nack = \<lparr>np_stream_id = r_stream_id rr, np_error_code = error_code, np_detail = 0,
           np_expected_next_op_id = r_last_applied_op_id rr + 1\<rparr>;
         (ok, out_buf, out_len) = num8lora_op_encode_nack out_buf out_cap
           (r_receiver_id rr) sender_id (r_seq rr) (Some nack) out_len
     in (ok, Some (rr\<lparr>r_seq := r_seq rr + 1\<rparr>), u, out_buf, out_len))"

definition receiver_reply_ack ::
  "num8lora_receiver \<Rightarrow> u16 \<Rightarrow> 'u \<Rightarrow> u8 list ptr \<Rightarrow> u32 \<Rightarrow> u32 ptr
    \<Rightarrow> bool \<times> num8lora_receiver ptr \<times> 'u \<times> u8 list ptr \<times> u32 ptr" where
  "receiver_reply_ack rr sender_id u out_buf out_cap out_len =
    (let ack = \<lparr>ap_stream_id = r_stream_id rr, ap_ack_op_id = r_last_applied_op_id rr\<rparr>;
         (ok, out_buf, out_len) = num8lora_op_encode_ack out_buf out_cap
           (r_receiver_id rr) sender_id (r_seq rr) (Some ack) out_len
     in (ok, Some (rr\<lparr>r_seq := r_seq rr + 1\<rparr>), u, out_buf, out_len))"

definition num8lora_receiver_handle_data ::
  "num8lora_receiver ptr \<Rightarrow> u8 list ptr \<Rightarrow> u32 \<Rightarrow> 'u apply_fn ptr \<Rightarrow> 'u
    \<Rightarrow> u8 list ptr \<Rightarrow> u32 \<Rightarrow> u32 ptr
    \<Rightarrow> bool \<times> num8lora_receiver ptr \<times> 'u \<times> u8 list ptr \<times> u32 ptr" where
  "num8lora_receiver_handle_data r in_buf in_len apply_fn u out_buf out_cap out_len =
    (let out_len = store 0 out_len in
     case (r, in_buf, out_buf, out_len) of
       (Some rr, Some _, Some _, Some _) \<Rightarrow>
         (case num8lora_op_decode_data in_buf in_len (Some local_header) (Some local_data) of
           (True, Some hdr, Some d) \<Rightarrow>
             let nack = (\<lambda>code u. receiver_reply_nack rr (h_sender_id hdr) code u
                   out_buf out_cap out_len);
                 stop = (False, r, u, out_buf, out_len)
             in
             if h_protocol_version hdr \<noteq> NUM8LORA_OP_PROTOCOL_VERSION
                \<or> h_receiver_id hdr \<noteq> r_receiver_id rr then stop
             else if r_expected_sender_id rr \<noteq> 0 \<and> h_sender_id hdr \<noteq> r_expected_sender_id rr
             then nack NUM8LORA_OP_ERR_RECEIVER u
             else if dp_stream_id d \<noteq> r_stream_id rr
             then (if out_cap < NACK_FRAME_LEN then stop else nack NUM8LORA_OP_ERR_STREAM u)
             else if dp_value d > MAX_VALUE
                \<or> (dp_op_type d \<noteq> NUM8LORA_OP_ADD \<and> dp_op_type d \<noteq> NUM8LORA_OP_REMOVE)
             then (if out_cap < NACK_FRAME_LEN then stop else nack NUM8LORA_OP_ERR_INVALID_VALUE u)
             else if dp_op_id d \<le> r_last_applied_op_id rr
             then (if out_cap < ACK_FRAME_LEN then stop
                   else receiver_reply_ack rr (h_sender_id hdr) u out_buf out_cap out_len)
             else if dp_op_id d \<noteq> r_last_applied_op_id rr + 1
             then (if out_cap < NACK_FRAME_LEN then stop else nack NUM8LORA_OP_ERR_SEQUENCE_GAP u)
             else if out_cap < NACK_FRAME_LEN then stop
             else (case (case apply_fn of None \<Rightarrow> (False, u) | Some f \<Rightarrow> f u (dp_op_type d) (dp_value d)) of
               (applied, u') \<Rightarrow>
                 if \<not> applied then nack NUM8LORA_OP_ERR_APPLY_FAILED u'
                 else
                   let rr = rr\<lparr>r_last_applied_op_id := dp_op_id d\<rparr> in
                   if out_cap < ACK_FRAME_LEN then (False, Some rr, u', out_buf, out_len)
                   else receiver_reply_ack rr (h_sender_id hdr) u' out_buf out_cap out_len)
         | _ \<Rightarrow> (False, r, u, out_buf, out_len))
     | _ \<Rightarrow> (False, r, u, out_buf, out_len))"

text \<open>
  The callback for a num8 engine, whose two operations are parameters.
\<close>

definition num8lora_receiver_apply_num8 ::
  "'e engine_op \<Rightarrow> 'e engine_op
    \<Rightarrow> 'e ptr \<Rightarrow> u8 \<Rightarrow> u32 \<Rightarrow> bool \<times> 'e ptr" where
  "num8lora_receiver_apply_num8 num8_add_u32 num8_remove_u32 user op_type value =
    (case user of
       None \<Rightarrow> (False, None)
     | Some e \<Rightarrow>
         if op_type = NUM8LORA_OP_ADD then
           (case num8_add_u32 e value of (st, e) \<Rightarrow>
             (st = NUM8_STATUS_ADDED \<or> st = NUM8_STATUS_ALREADY_EXISTS, Some e))
         else if op_type = NUM8LORA_OP_REMOVE then
           (case num8_remove_u32 e value of (st, e) \<Rightarrow>
             (st = NUM8_STATUS_REMOVED \<or> st = NUM8_STATUS_NOT_FOUND, Some e))
         else (False, Some e))"


subsection \<open>What a DATA frame asks of the receiver\<close>

text \<open>
  The abstract receiver looks at the addresses and the payload of a well-formed frame only.
  \<open>Next\<close> is the one verdict that lets the application see the operation.
\<close>

datatype verdict = Drop | Refuse u16 | Repeat | Next

definition data_verdict :: "num8lora_receiver \<Rightarrow> u16 \<Rightarrow> u16 \<Rightarrow> num8lora_op_data_payload \<Rightarrow> verdict" where
  "data_verdict r sid rid d =
    (if rid \<noteq> r_receiver_id r then Drop
     else if r_expected_sender_id r \<noteq> 0 \<and> sid \<noteq> r_expected_sender_id r
     then Refuse NUM8LORA_OP_ERR_RECEIVER
     else if dp_stream_id d \<noteq> r_stream_id r then Refuse NUM8LORA_OP_ERR_STREAM
     else if dp_op_id d \<le> r_last_applied_op_id r then Repeat
     else if dp_op_id d \<noteq> r_last_applied_op_id r + 1 then Refuse NUM8LORA_OP_ERR_SEQUENCE_GAP
     else Next)"

lemma data_verdict_Next:
  "data_verdict r sid rid d = Next \<Longrightarrow> rid = r_receiver_id r \<and> dp_stream_id d = r_stream_id r
    \<and> dp_op_id d = r_last_applied_op_id r + 1 \<and> r_last_applied_op_id r < dp_op_id d
    \<and> unat (dp_op_id d) = Suc (unat (r_last_applied_op_id r))"
  by (auto simp: data_verdict_def unat_Suc_u32 word_less_nat_alt not_le unat_word_ariths
      split: if_splits)

definition call_apply :: "'u apply_fn ptr \<Rightarrow> 'u \<Rightarrow> num8lora_op_data_payload \<Rightarrow> bool \<times> 'u" where
  "call_apply fn u d = (case fn of None \<Rightarrow> (False, u) | Some f \<Rightarrow> f u (dp_op_type d) (dp_value d))"

lemma handle_data_accept:
  assumes "op_data_valid (sid, rid, sq) d" "take (unat n) b = op_data_wire (sid, rid, sq) d"
    and "unat n \<le> length b" "22 \<le> cap"
  shows "num8lora_receiver_handle_data (Some rr) (Some b) n fn u (Some ob) cap (Some l) =
    (case data_verdict rr sid rid d of
       Drop \<Rightarrow> (False, Some rr, u, Some ob, Some 0)
     | Refuse c \<Rightarrow> receiver_reply_nack rr sid c u (Some ob) cap (Some 0)
     | Repeat \<Rightarrow> receiver_reply_ack rr sid u (Some ob) cap (Some 0)
     | Next \<Rightarrow> (case call_apply fn u d of (applied, u') \<Rightarrow>
         if applied
         then receiver_reply_ack (rr\<lparr>r_last_applied_op_id := dp_op_id d\<rparr>) sid u' (Some ob) cap (Some 0)
         else receiver_reply_nack rr sid NUM8LORA_OP_ERR_APPLY_FAILED u' (Some ob) cap (Some 0)))"
proof -
  have ok: "op_data_ok d" using assms(1) by (simp add: op_data_valid_def)
  have cap: "\<not> cap < 22" "\<not> cap < 18" using assms(4) by (simp_all add: word_less_nat_alt word_le_nat_alt)
  show ?thesis
    using data.decode_wire [OF assms(1-3)] ok cap
    by (auto simp: num8lora_receiver_handle_data_def data_verdict_def call_apply_def Let_def
        op_data_ok_def split: prod.splits)
qed

lemma handle_data_reject:
  assumes "\<And>a d. op_data_valid a d \<Longrightarrow> take (unat n) b \<noteq> op_data_wire a d" "unat n \<le> length b"
  shows "num8lora_receiver_handle_data (Some rr) (Some b) n fn u (Some ob) cap (Some l) =
    (False, Some rr, u, Some ob, Some 0)"
  using assms by (cases rule: data.decode_cases [OF assms(2), of local_header local_data])
    (auto simp: num8lora_receiver_handle_data_def)

subsection \<open>The replies\<close>

lemma reply_ack_accepts:
  assumes "r_receiver_id rr \<noteq> 0" "sid \<noteq> 0" "r_stream_id rr \<noteq> 0" "r_last_applied_op_id rr \<noteq> 0"
    and "18 \<le> unat cap" "unat cap \<le> length ob"
  shows "receiver_reply_ack rr sid u (Some ob) cap (Some l) =
    (True, Some (rr\<lparr>r_seq := r_seq rr + 1\<rparr>), u,
     Some (overlay ob 0 (op_ack_wire (r_receiver_id rr, sid, r_seq rr)
       \<lparr>ap_stream_id = r_stream_id rr, ap_ack_op_id = r_last_applied_op_id rr\<rparr>)), Some 18)"
  using assms
  by (simp add: receiver_reply_ack_def encode_ack_accepts op_ack_valid_def op_ack_ok_def)

lemma reply_nack_accepts:
  assumes "r_receiver_id rr \<noteq> 0" "sid \<noteq> 0" "r_stream_id rr \<noteq> 0" "r_last_applied_op_id rr + 1 \<noteq> 0"
    and "22 \<le> unat cap" "unat cap \<le> length ob"
  shows "receiver_reply_nack rr sid c u (Some ob) cap (Some l) =
    (True, Some (rr\<lparr>r_seq := r_seq rr + 1\<rparr>), u,
     Some (overlay ob 0 (op_nack_wire (r_receiver_id rr, sid, r_seq rr)
       \<lparr>np_stream_id = r_stream_id rr, np_error_code = c, np_detail = 0,
        np_expected_next_op_id = r_last_applied_op_id rr + 1\<rparr>)), Some 22)"
  using assms
  by (simp add: receiver_reply_nack_def encode_nack_accepts op_nack_valid_def op_nack_ok_def)

lemma reply_state:
  "receiver_reply_ack rr sid u ob cap l = (ok, r', u', ob', l') \<Longrightarrow>
    r' = Some (rr\<lparr>r_seq := r_seq rr + 1\<rparr>) \<and> u' = u"
  "receiver_reply_nack rr sid c u ob cap l = (ok, r', u', ob', l') \<Longrightarrow>
    r' = Some (rr\<lparr>r_seq := r_seq rr + 1\<rparr>) \<and> u' = u"
  by (auto simp: receiver_reply_ack_def receiver_reply_nack_def Let_def split: prod.splits)

subsection \<open>One step of the receiver\<close>

text \<open>
  Whatever the buffers and the callback: the receiver keeps its identity, and its progress changes
  only by applying the next operation of its stream, once, with the callback's consent. When the
  progress does not change, the callback was not called or it refused.
\<close>

definition same_identity :: "num8lora_receiver \<Rightarrow> num8lora_receiver \<Rightarrow> bool" where
  "same_identity r r' \<longleftrightarrow> r_receiver_id r' = r_receiver_id r
    \<and> r_expected_sender_id r' = r_expected_sender_id r \<and> r_stream_id r' = r_stream_id r"

definition receiver_advance ::
  "num8lora_receiver \<Rightarrow> 'u \<Rightarrow> 'u apply_fn ptr \<Rightarrow> u16 \<times> u16 \<times> u16 \<Rightarrow> num8lora_op_data_payload
    \<Rightarrow> num8lora_receiver \<Rightarrow> 'u \<Rightarrow> bool" where
  "receiver_advance r u fn a d r' u' \<longleftrightarrow>
    data_verdict r (fst a) (fst (snd a)) d = Next \<and> call_apply fn u d = (True, u')
    \<and> r_last_applied_op_id r' = dp_op_id d"

definition receiver_refusal ::
  "num8lora_receiver \<Rightarrow> 'u \<Rightarrow> 'u apply_fn ptr \<Rightarrow> u16 \<times> u16 \<times> u16 \<Rightarrow> num8lora_op_data_payload
    \<Rightarrow> num8lora_receiver \<Rightarrow> 'u \<Rightarrow> bool" where
  "receiver_refusal r u fn a d r' u' \<longleftrightarrow>
    data_verdict r (fst a) (fst (snd a)) d = Next \<and> call_apply fn u d = (False, u')
    \<and> r_last_applied_op_id r' = r_last_applied_op_id r"

lemma handle_data_step:
  assumes "num8lora_receiver_handle_data (Some rr) (Some b) n fn u ob cap l = (ok, r', u', ob', l')"
    and "unat n \<le> length b"
  obtains (idle) rr' where "r' = Some rr'" "same_identity rr rr'" "u' = u"
      "r_last_applied_op_id rr' = r_last_applied_op_id rr"
    | (called) rr' a d where "r' = Some rr'" "same_identity rr rr'" "op_data_valid a d"
      "take (unat n) b = op_data_wire a d"
      "receiver_refusal rr u fn a d rr' u' \<or> receiver_advance rr u fn a d rr' u'"
proof (cases "ob = None \<or> l = None")
  case True
  then show ?thesis
    using assms idle by (auto simp: num8lora_receiver_handle_data_def same_identity_def Let_def
      split: option.splits)
next
  case False
  then obtain o1 l1 where [simp]: "ob = Some o1" "l = Some l1" by auto
  show ?thesis
  proof (cases rule: data.decode_cases [OF assms(2), of local_header local_data])
    case (1 a d)
    note accept = 1
    obtain sid rid sq where a: "a = (sid, rid, sq)" by (cases a)
    have "\<exists>rr'. r' = Some rr' \<and> same_identity rr rr'
       \<and> (u' = u \<and> r_last_applied_op_id rr' = r_last_applied_op_id rr
         \<or> receiver_refusal rr u fn a d rr' u' \<or> receiver_advance rr u fn a d rr' u')"
      using assms(1) accept(1,2)
      by (auto simp: num8lora_receiver_handle_data_def same_identity_def receiver_advance_def
        receiver_refusal_def Let_def a op_data_valid_def op_data_ok_def data_verdict_def call_apply_def
        split: if_splits prod.splits option.splits dest: reply_state)
    then show ?thesis using idle called accept by blast
  next
    case 2
    then show ?thesis
      using assms idle by (auto simp: num8lora_receiver_handle_data_def same_identity_def)
  qed
qed

subsection \<open>What the receiver sends\<close>

lemma reply_emits:
  assumes "unat cap \<le> length o1"
  shows "receiver_reply_ack rr sid u (Some o1) cap (Some l) = (ok, Some r', u', ob', l') \<Longrightarrow>
      emitted ok ob' l' = Some f \<Longrightarrow>
      f = op_ack_wire (r_receiver_id rr, sid, r_seq rr)
        \<lparr>ap_stream_id = r_stream_id rr, ap_ack_op_id = r_last_applied_op_id r'\<rparr>"
    and "receiver_reply_nack rr sid c u (Some o1) cap (Some l) = (ok, Some r', u', ob', l') \<Longrightarrow>
      emitted ok ob' l' = Some f \<Longrightarrow>
      f = op_nack_wire (r_receiver_id rr, sid, r_seq rr)
        \<lparr>np_stream_id = r_stream_id rr, np_error_code = c, np_detail = 0,
         np_expected_next_op_id = r_last_applied_op_id rr + 1\<rparr>"
  by (auto simp: receiver_reply_ack_def receiver_reply_nack_def Let_def
      emitted_ack [OF _ assms] emitted_nack [OF _ assms] split: prod.splits if_splits)

text \<open>An ACK always carries the progress the receiver has after the call.\<close>

lemma handle_data_emits:
  assumes "num8lora_receiver_handle_data (Some rr) (Some b) n fn u (Some o1) cap (Some l)
      = (ok, Some rr', u', ob', l')"
    and "emitted ok ob' l' = Some f" "unat cap \<le> length o1" "unat n \<le> length b"
  shows "\<exists>sid. f = op_ack_wire (r_receiver_id rr, sid, r_seq rr)
        \<lparr>ap_stream_id = r_stream_id rr, ap_ack_op_id = r_last_applied_op_id rr'\<rparr>
      \<or> (\<exists>c. f = op_nack_wire (r_receiver_id rr, sid, r_seq rr)
        \<lparr>np_stream_id = r_stream_id rr, np_error_code = c, np_detail = 0,
         np_expected_next_op_id = r_last_applied_op_id rr + 1\<rparr>)"
proof (cases rule: data.decode_cases [OF assms(4), of local_header local_data])
  case (1 a d)
  obtain sid rid sq where a: "a = (sid, rid, sq)" by (cases a)
  show ?thesis
    using assms(1,2) 1(1)
    by (auto simp: num8lora_receiver_handle_data_def Let_def a
        split: if_splits prod.splits option.splits dest: reply_emits [OF assms(3)]
          reply_emits(1) [OF assms(3), of "rr\<lparr>r_last_applied_op_id := v\<rparr>" for v, simplified])
next
  case 2
  then show ?thesis using assms(1,2) by (auto simp: num8lora_receiver_handle_data_def)
qed

lemma handle_beacon_step:
  assumes "num8lora_receiver_handle_beacon (Some rr) (Some b) n (Some o1) cap (Some l)
      = (ok, r', ob', l')"
    and "unat cap \<le> length o1"
  shows "\<exists>rr'. r' = Some rr' \<and> same_identity rr rr' \<and> r_last_applied_op_id rr' = r_last_applied_op_id rr
    \<and> (\<forall>f. emitted ok ob' l' = Some f \<longrightarrow> (\<exists>sid. f = op_request_wire (r_receiver_id rr, sid, r_seq rr)
        \<lparr>rp_stream_id = r_stream_id rr, rp_next_needed_op_id = r_last_applied_op_id rr + 1\<rparr>))"
  using assms(1)
  by (auto simp: num8lora_receiver_handle_beacon_def Let_def same_identity_def
      emitted_request [OF _ assms(2)] split: prod.splits option.splits if_splits bool.splits)

lemma handle_beacon_accept:
  assumes "op_beacon_valid (sid, sq) p" "take (unat n) b = op_beacon_wire (sid, sq) p"
    and "unat n \<le> length b" "unat cap \<le> length ob" "18 \<le> unat cap" "r_receiver_id rr \<noteq> 0"
    and "r_expected_sender_id rr = 0 \<or> r_expected_sender_id rr = sid"
    and "bp_stream_id p = r_stream_id rr" "r_last_applied_op_id rr < bp_latest_op_id p"
  shows "num8lora_receiver_handle_beacon (Some rr) (Some b) n (Some ob) cap (Some l) =
    (True, Some (rr\<lparr>r_seq := r_seq rr + 1\<rparr>),
     Some (overlay ob 0 (op_request_wire (r_receiver_id rr, sid, r_seq rr)
       \<lparr>rp_stream_id = r_stream_id rr, rp_next_needed_op_id = r_last_applied_op_id rr + 1\<rparr>)), Some 18)"
proof -
  have "r_last_applied_op_id rr + 1 \<noteq> 0"
    by (rule Suc_neq_0_u32 [OF assms(9)])
  then show ?thesis
    using assms beacon.decode_wire [OF assms(1-3), of local_header local_beacon]
    by (auto simp: num8lora_receiver_handle_beacon_def Let_def encode_request_accepts
        op_request_valid_def op_request_ok_def op_beacon_ok_def)
qed

end
