(* ===== verification/Sender.thy ===== *)
theory Sender
  imports OpFrame Receiver
begin

text \<open>
  \<open>src/src/num8lora_sender.c\<close> and \<open>src/include/num8lora_sender.h\<close>: the sender of the async protocol.
  It keeps a ring of numbered operations and one slot per registered receiver, transmits to each
  receiver the operation after the last acknowledged one, retries on a timer and drops an operation
  from the ring once every registered receiver has acknowledged it.

  The struct points to two caller-supplied arrays. The model keeps their contents in the record
  (\<open>s_ops\<close>, \<open>s_receivers\<close>; \<open>None\<close> is the NULL pointer), because nothing else in the library writes
  them. A pointer to a slot is its index. Functions return their status and every object they
  write.
\<close>

subsection \<open>Structs\<close>

record num8lora_sender_op =
  so_op_id :: u32
  so_op_type :: u8
  so_value :: u32

record num8lora_sender_receiver_slot =
  sl_receiver_id :: u16
  sl_last_acked_op_id :: u32
  sl_inflight_op_id :: u32
  sl_due_at_ms :: u64
  sl_waiting_ack :: u8
  sl_retries :: u8
  sl_active :: u8
  sl_exhausted :: u8

record num8lora_sender =
  s_sender_id :: u16
  s_seq :: u16
  s_stream_id :: u32
  s_latest_op_id :: u32
  s_oldest_retained_op_id :: u32
  s_op_head :: u32
  s_poll_cursor :: u32
  s_ack_timeout_ms :: u32
  s_max_retries :: u8
  s_ops :: "num8lora_sender_op list ptr"
  s_op_capacity :: u32
  s_op_count :: u32
  s_receivers :: "num8lora_sender_receiver_slot list ptr"
  s_receiver_capacity :: u32

text \<open>The arrays behind the two pointers, and the update of one slot.\<close>

abbreviation slots :: "num8lora_sender \<Rightarrow> num8lora_sender_receiver_slot list" where
  "slots s \<equiv> deref (s_receivers s)"

abbreviation ops :: "num8lora_sender \<Rightarrow> num8lora_sender_op list" where
  "ops s \<equiv> deref (s_ops s)"

definition update_slot ::
  "nat \<Rightarrow> (num8lora_sender_receiver_slot \<Rightarrow> num8lora_sender_receiver_slot)
    \<Rightarrow> num8lora_sender \<Rightarrow> num8lora_sender" where
  "update_slot i f s = s\<lparr>s_receivers := map_option (\<lambda>xs. xs[i := f (xs ! i)]) (s_receivers s)\<rparr>"

subsection \<open>Static helpers\<close>

definition find_slot_mut :: "num8lora_sender \<Rightarrow> u16 \<Rightarrow> nat option" where
  "find_slot_mut s rid = List.find
    (\<lambda>i. sl_active (slots s ! i) \<noteq> 0 \<and> sl_receiver_id (slots s ! i) = rid)
    [0..<unat (s_receiver_capacity s)]"

definition find_slot_const :: "num8lora_sender \<Rightarrow> u16 \<Rightarrow> nat option" where
  "find_slot_const s rid = List.find
    (\<lambda>i. sl_active (slots s ! i) \<noteq> 0 \<and> sl_receiver_id (slots s ! i) = rid)
    [0..<unat (s_receiver_capacity s)]"

definition find_op :: "num8lora_sender \<Rightarrow> u32 \<Rightarrow> num8lora_sender_op ptr" where
  "find_op s op_id =
    (if op_id < s_oldest_retained_op_id s \<or> op_id > s_latest_op_id s \<or> s_op_count s = 0 then None
     else let offset = op_id - s_oldest_retained_op_id s in
       if offset \<ge> s_op_count s \<or> s_op_capacity s = 0 then None
       else
         let index = s_op_head s + offset;
             index = (if index \<ge> s_op_capacity s then index mod s_op_capacity s else index)
         in Some (ops s ! unat index))"

definition deadline_after :: "u64 \<Rightarrow> u32 \<Rightarrow> u64" where
  "deadline_after now_ms timeout_ms =
    (if timeout_ms = 0 then now_ms
     else if (-1) - now_ms < ucast timeout_ms then -1
     else now_ms + ucast timeout_ms)"

definition sender_active_floor :: "num8lora_sender \<Rightarrow> u32" where
  "sender_active_floor s =
    (case fold (\<lambda>i (fl, any_active :: u8).
        let slot = slots s ! i in
        if sl_active slot = 0 then (fl, any_active)
        else let needed = sl_last_acked_op_id slot + 1
          in (if needed < fl then needed else fl, 1))
      [0..<unat (s_receiver_capacity s)] (s_latest_op_id s + 1, 0)
     of (fl, any_active) \<Rightarrow> if any_active = 0 then s_latest_op_id s + 1 else fl)"

text \<open>Every caller has checked the sender for NULL, so the guard of the C function is not modelled.\<close>

definition sender_reclaim_history :: "num8lora_sender \<Rightarrow> num8lora_sender" where
  "sender_reclaim_history s =
    (let fl = sender_active_floor s in
     if fl \<le> s_oldest_retained_op_id s then s
     else
       let fl = (if fl > s_latest_op_id s + 1 then s_latest_op_id s + 1 else fl);
           drop_count = fl - s_oldest_retained_op_id s;
           drop_count = (if drop_count > s_op_count s then s_op_count s else drop_count);
           s = s\<lparr>s_oldest_retained_op_id := fl\<rparr>;
           s = s\<lparr>s_op_head := (s_op_head s + drop_count)
                 mod (if s_op_capacity s = 0 then 1 else s_op_capacity s)\<rparr>;
           s = s\<lparr>s_op_count := s_op_count s - drop_count\<rparr>
       in if s_op_count s = 0 then s\<lparr>s_op_head := 0\<rparr> else s)"

text \<open>\<open>size_t\<close> is 64 bits wide (LP64).\<close>

definition sender_storage_pair_is_valid :: "'a list ptr \<Rightarrow> u32 \<Rightarrow> u64 \<Rightarrow> bool" where
  "sender_storage_pair_is_valid buf capacity elem_size =
    (if capacity = 0 then True
     else if buf = None \<or> elem_size = 0 then False
     else ucast capacity \<le> (-1) div elem_size)"

definition emit_data ::
  "num8lora_sender \<Rightarrow> nat \<Rightarrow> u32 \<Rightarrow> u8 list ptr \<Rightarrow> u32 \<Rightarrow> u32 ptr \<Rightarrow> u64
    \<Rightarrow> bool \<times> num8lora_sender \<times> u8 list ptr \<times> u32 ptr" where
  "emit_data s slot op_id out_buf out_cap out_len now_ms =
    (case find_op s op_id of
       None \<Rightarrow> (False, s, out_buf, out_len)
     | Some op \<Rightarrow>
         let p = \<lparr>dp_stream_id = s_stream_id s, dp_op_id = so_op_id op, dp_op_type = so_op_type op,
               dp_reserved0 = 0, dp_reserved1 = 0, dp_value = so_value op\<rparr>
         in
         if s_seq s = 0xFFFF then (False, s, out_buf, out_len)
         else (case num8lora_op_encode_data out_buf out_cap (s_sender_id s)
                 (sl_receiver_id (slots s ! slot)) (s_seq s) (Some p) out_len of
           (ok, out_buf, out_len) \<Rightarrow>
             let s = s\<lparr>s_seq := s_seq s + 1\<rparr> in
             if \<not> ok then (False, s, out_buf, out_len)
             else (True,
               update_slot slot (\<lambda>x. x\<lparr>sl_inflight_op_id := op_id, sl_waiting_ack := 1,
                 sl_exhausted := 0, sl_due_at_ms := deadline_after now_ms (s_ack_timeout_ms s)\<rparr>) s,
               out_buf, out_len)))"

subsection \<open>Initialisation\<close>

text \<open>
  The byte count handed to \<open>num8lora_codec_zero_bytes\<close> is computed in \<open>size_t\<close> and truncated to 32
  bits. A struct member of \<open>w\<close> bytes at offset \<open>off\<close> is cleared when it lies below that count; the
  count is a multiple of four, so no member is cut. Layout (LP64): an op has its members at offsets
  0, 4, 8 of 12 bytes, a slot at 0, 4, 8, 16, 24, 25, 26, 27 of 32 bytes.
\<close>

definition zero_member :: "u32 \<Rightarrow> nat \<Rightarrow> 'a :: len word \<Rightarrow> 'a word" where
  "zero_member n offset v = (if offset + LENGTH('a) div 8 \<le> unat n then 0 else v)"

definition zero_ops :: "num8lora_sender_op list \<Rightarrow> u32 \<Rightarrow> num8lora_sender_op list" where
  "zero_ops xs n = map (\<lambda>(i, x). \<lparr>
     so_op_id = zero_member n (12 * i) (so_op_id x),
     so_op_type = zero_member n (12 * i + 4) (so_op_type x),
     so_value = zero_member n (12 * i + 8) (so_value x)\<rparr>) (List.enumerate 0 xs)"

definition zero_slots ::
  "num8lora_sender_receiver_slot list \<Rightarrow> u32 \<Rightarrow> num8lora_sender_receiver_slot list" where
  "zero_slots xs n = map (\<lambda>(i, x). \<lparr>
     sl_receiver_id = zero_member n (32 * i) (sl_receiver_id x),
     sl_last_acked_op_id = zero_member n (32 * i + 4) (sl_last_acked_op_id x),
     sl_inflight_op_id = zero_member n (32 * i + 8) (sl_inflight_op_id x),
     sl_due_at_ms = zero_member n (32 * i + 16) (sl_due_at_ms x),
     sl_waiting_ack = zero_member n (32 * i + 24) (sl_waiting_ack x),
     sl_retries = zero_member n (32 * i + 25) (sl_retries x),
     sl_active = zero_member n (32 * i + 26) (sl_active x),
     sl_exhausted = zero_member n (32 * i + 27) (sl_exhausted x)\<rparr>) (List.enumerate 0 xs)"

definition zero_sender :: num8lora_sender where
  "zero_sender = \<lparr>s_sender_id = 0, s_seq = 0, s_stream_id = 0, s_latest_op_id = 0,
     s_oldest_retained_op_id = 0, s_op_head = 0, s_poll_cursor = 0, s_ack_timeout_ms = 0,
     s_max_retries = 0, s_ops = None, s_op_capacity = 0, s_op_count = 0, s_receivers = None,
     s_receiver_capacity = 0\<rparr>"

definition num8lora_sender_init ::
  "num8lora_sender ptr \<Rightarrow> u16 \<Rightarrow> u32 \<Rightarrow> u32 \<Rightarrow> u8 \<Rightarrow> num8lora_sender_op list ptr \<Rightarrow> u32
    \<Rightarrow> num8lora_sender_receiver_slot list ptr \<Rightarrow> u32 \<Rightarrow> num8lora_sender ptr" where
  "num8lora_sender_init s sender_id stream_id ack_timeout_ms max_retries ops_buf ops_capacity
     receiver_buf receiver_capacity =
    (case s of
       None \<Rightarrow> None
     | Some _ \<Rightarrow>
         let s = zero_sender in
         if \<not> sender_storage_pair_is_valid ops_buf ops_capacity 12
            \<or> \<not> sender_storage_pair_is_valid receiver_buf receiver_capacity 32
         then Some s
         else
           let s = s\<lparr>s_sender_id := sender_id, s_seq := 1, s_stream_id := stream_id,
                 s_oldest_retained_op_id := 1, s_op_head := 0, s_poll_cursor := 0,
                 s_ack_timeout_ms := ack_timeout_ms, s_max_retries := max_retries,
                 s_ops := ops_buf, s_op_capacity := ops_capacity,
                 s_receivers := receiver_buf, s_receiver_capacity := receiver_capacity\<rparr>;
               s = (if ops_buf \<noteq> None \<and> ops_capacity > 0
                    then s\<lparr>s_ops := map_option
                      (\<lambda>xs. zero_ops xs (ucast ((ucast ops_capacity :: u64) * 12))) (s_ops s)\<rparr>
                    else s);
               s = (if receiver_buf \<noteq> None \<and> receiver_capacity > 0
                    then s\<lparr>s_receivers := map_option
                      (\<lambda>xs. zero_slots xs (ucast ((ucast receiver_capacity :: u64) * 32)))
                      (s_receivers s)\<rparr>
                    else s)
           in Some s)"

subsection \<open>Receivers\<close>

definition num8lora_sender_register_receiver ::
  "num8lora_sender ptr \<Rightarrow> u16 \<Rightarrow> u32 \<Rightarrow> bool \<times> num8lora_sender ptr" where
  "num8lora_sender_register_receiver s receiver_id last_acked_op_id =
    (case s of
       None \<Rightarrow> (False, None)
     | Some st \<Rightarrow>
         if s_receivers st = None \<or> receiver_id = 0 then (False, Some st)
         else
           let st = sender_reclaim_history st in
           if find_slot_const st receiver_id \<noteq> None then (True, Some st)
           else (case List.find (\<lambda>i. sl_active (slots st ! i) = 0)
                   [0..<unat (s_receiver_capacity st)] of
             Some i \<Rightarrow> (True, Some (update_slot i (\<lambda>x. x\<lparr>sl_active := 1,
               sl_receiver_id := receiver_id, sl_last_acked_op_id := last_acked_op_id,
               sl_exhausted := 0\<rparr>) st))
           | None \<Rightarrow> (False, Some st)))"

definition num8lora_sender_set_receiver_progress ::
  "num8lora_sender ptr \<Rightarrow> u16 \<Rightarrow> u32 \<Rightarrow> bool \<times> num8lora_sender ptr" where
  "num8lora_sender_set_receiver_progress s receiver_id last_acked_op_id =
    (case s of
       None \<Rightarrow> (False, None)
     | Some st \<Rightarrow>
         (case find_slot_mut st receiver_id of
           None \<Rightarrow> (False, Some st)
         | Some i \<Rightarrow> (True, Some (sender_reclaim_history
             (update_slot i (\<lambda>x. x\<lparr>sl_last_acked_op_id := last_acked_op_id, sl_waiting_ack := 0,
               sl_inflight_op_id := 0, sl_retries := 0, sl_exhausted := 0\<rparr>) st)))))"

definition num8lora_sender_unregister_receiver ::
  "num8lora_sender ptr \<Rightarrow> u16 \<Rightarrow> bool \<times> num8lora_sender ptr" where
  "num8lora_sender_unregister_receiver s receiver_id =
    (case s of
       None \<Rightarrow> (False, None)
     | Some st \<Rightarrow>
         (case find_slot_mut st receiver_id of
           None \<Rightarrow> (False, Some st)
         | Some i \<Rightarrow> (True, Some (sender_reclaim_history
             (update_slot i (\<lambda>x. x\<lparr>sl_active := 0, sl_waiting_ack := 0, sl_inflight_op_id := 0,
               sl_retries := 0, sl_exhausted := 0\<rparr>) st)))))"

subsection \<open>Operations\<close>

definition enqueue_op ::
  "num8lora_sender ptr \<Rightarrow> u8 \<Rightarrow> u32 \<Rightarrow> u32 ptr \<Rightarrow> bool \<times> num8lora_sender ptr \<times> u32 ptr" where
  "enqueue_op s type value out_op_id =
    (case s of
       None \<Rightarrow> (False, None, out_op_id)
     | Some st \<Rightarrow>
         if s_ops st = None \<or> type = 0 \<or> value > MAX_VALUE then (False, Some st, out_op_id)
         else
           let st = sender_reclaim_history st in
           if s_op_capacity st = 0 \<or> s_op_count st \<ge> s_op_capacity st then (False, Some st, out_op_id)
           else
             let st = st\<lparr>s_latest_op_id := s_latest_op_id st + 1\<rparr>;
                 st = (if s_op_count st = 0
                       then st\<lparr>s_op_head := 0, s_oldest_retained_op_id := s_latest_op_id st\<rparr>
                       else st);
                 slot_index = s_op_head st + s_op_count st;
                 slot_index = (if slot_index \<ge> s_op_capacity st
                               then slot_index mod s_op_capacity st else slot_index);
                 op = \<lparr>so_op_id = s_latest_op_id st, so_op_type = type, so_value = value\<rparr>;
                 st = st\<lparr>s_ops := map_option (\<lambda>xs. xs[unat slot_index := op]) (s_ops st)\<rparr>;
                 st = st\<lparr>s_op_count := s_op_count st + 1\<rparr>
             in (True, Some st, store (so_op_id op) out_op_id))"

definition num8lora_sender_enqueue_add ::
  "num8lora_sender ptr \<Rightarrow> u32 \<Rightarrow> u32 ptr \<Rightarrow> bool \<times> num8lora_sender ptr \<times> u32 ptr" where
  "num8lora_sender_enqueue_add s value out_op_id = enqueue_op s NUM8LORA_OP_ADD value out_op_id"

definition num8lora_sender_enqueue_remove ::
  "num8lora_sender ptr \<Rightarrow> u32 \<Rightarrow> u32 ptr \<Rightarrow> bool \<times> num8lora_sender ptr \<times> u32 ptr" where
  "num8lora_sender_enqueue_remove s value out_op_id =
    enqueue_op s NUM8LORA_OP_REMOVE value out_op_id"

text \<open>
  One of the two enqueue loops of \<open>num8lora_sender_enqueue_lists\<close>, over the values still to come;
  \<open>first_id\<close> and \<open>last_id\<close> are the locals \<open>first\<close> and \<open>last\<close> of that function.
\<close>

fun enqueue_loop ::
  "u8 \<Rightarrow> u32 list \<Rightarrow> num8lora_sender \<Rightarrow> u32 \<Rightarrow> u32 \<Rightarrow> bool \<times> num8lora_sender \<times> u32 \<times> u32" where
  "enqueue_loop type [] s first_id last_id = (True, s, first_id, last_id)"
| "enqueue_loop type (v # vs) s first_id last_id =
    (case enqueue_op (Some s) type v (Some last_id) of
       (True, Some s', Some last_id') \<Rightarrow>
         enqueue_loop type vs s' (if first_id = 0 then last_id' else first_id) last_id'
     | (_, s', last_id') \<Rightarrow> (False, the s', first_id, the last_id'))"

definition num8lora_sender_enqueue_lists ::
  "num8lora_sender ptr \<Rightarrow> u32 list ptr \<Rightarrow> u32 \<Rightarrow> u32 list ptr \<Rightarrow> u32 \<Rightarrow> u32 ptr \<Rightarrow> u32 ptr
    \<Rightarrow> bool \<times> num8lora_sender ptr \<times> u32 ptr \<times> u32 ptr" where
  "num8lora_sender_enqueue_lists s remove_values remove_count add_values add_count
     out_first_op_id out_last_op_id =
    (let out_first_op_id = store 0 out_first_op_id;
         out_last_op_id = store 0 out_last_op_id in
     case s of
       None \<Rightarrow> (False, None, out_first_op_id, out_last_op_id)
     | Some st \<Rightarrow>
         let stop = (\<lambda>ok st. (ok, Some st, out_first_op_id, out_last_op_id)) in
         if (remove_count \<noteq> 0 \<and> remove_values = None) \<or> (add_count \<noteq> 0 \<and> add_values = None)
         then stop False st
         else
           let total_count = (ucast remove_count :: u64) + ucast add_count in
           if total_count = 0 then stop True st
           else if total_count > 0xFFFFFFFF then stop False st
           else if s_op_count st > s_op_capacity st then stop False st
           else if total_count > ucast (s_op_capacity st - s_op_count st) then stop False st
           else
             let projected_latest = (ucast (s_latest_op_id st) :: u64) + total_count in
             if projected_latest > 0xFFFFFFFF then stop False st
             else if List.find (\<lambda>i. deref remove_values ! i > MAX_VALUE) [0..<unat remove_count] \<noteq> None
             then stop False st
             else if List.find (\<lambda>i. deref add_values ! i > MAX_VALUE) [0..<unat add_count] \<noteq> None
             then stop False st
             else (case enqueue_loop NUM8LORA_OP_REMOVE
                     (take (unat remove_count) (deref remove_values)) st 0 0 of
               (ok, st, first_id, last_id) \<Rightarrow>
                 if \<not> ok then stop False st
                 else (case enqueue_loop NUM8LORA_OP_ADD
                         (take (unat add_count) (deref add_values)) st first_id last_id of
                   (ok, st, first_id, last_id) \<Rightarrow>
                     if \<not> ok then stop False st
                     else (True, Some st, store first_id out_first_op_id, store last_id out_last_op_id))))"

subsection \<open>Frames out\<close>

definition num8lora_sender_build_beacon ::
  "num8lora_sender ptr \<Rightarrow> u8 list ptr \<Rightarrow> u32 \<Rightarrow> u32 ptr \<Rightarrow> bool \<times> u8 list ptr \<times> u32 ptr" where
  "num8lora_sender_build_beacon s out_buf out_cap out_len =
    (case s of
       None \<Rightarrow> (False, out_buf, out_len)
     | Some st \<Rightarrow>
         let p = \<lparr>bp_stream_id = s_stream_id st, bp_latest_op_id = s_latest_op_id st\<rparr> in
         if s_seq st = 0xFFFF then (False, out_buf, out_len)
         else num8lora_op_encode_beacon out_buf out_cap (s_sender_id st) (s_seq st) (Some p) out_len)"

definition num8lora_sender_handle_request ::
  "num8lora_sender ptr \<Rightarrow> u8 list ptr \<Rightarrow> u32 \<Rightarrow> u8 list ptr \<Rightarrow> u32 \<Rightarrow> u32 ptr
    \<Rightarrow> bool \<times> num8lora_sender ptr \<times> u8 list ptr \<times> u32 ptr" where
  "num8lora_sender_handle_request s in_buf in_len out_response_buf out_cap out_len =
    (let out_len = store 0 out_len in
     let stop = (False, s, out_response_buf, out_len) in
     case (s, in_buf, out_response_buf, out_len) of
       (Some st, Some _, Some _, Some _) \<Rightarrow>
         if in_len < 2 then stop
         else (case num8lora_op_decode_request in_buf in_len (Some local_header) (Some local_request) of
           (True, Some hdr, Some p) \<Rightarrow>
             (case find_slot_const st (h_sender_id hdr) of
               None \<Rightarrow> stop
             | Some i \<Rightarrow>
                 let slot = slots st ! i in
                 if sl_active slot = 0 \<or> h_protocol_version hdr \<noteq> NUM8LORA_OP_PROTOCOL_VERSION
                    \<or> h_receiver_id hdr \<noteq> s_sender_id st then stop
                 else if rp_stream_id p \<noteq> s_stream_id st then stop
                 else if rp_next_needed_op_id p < s_oldest_retained_op_id st then
                   let nack = \<lparr>np_stream_id = s_stream_id st,
                         np_error_code = NUM8LORA_OP_ERR_HISTORY_UNAVAILABLE, np_detail = 0,
                         np_expected_next_op_id = s_oldest_retained_op_id st\<rparr> in
                   if s_seq st = 0xFFFF then stop
                   else (case num8lora_op_encode_nack out_response_buf out_cap (s_sender_id st)
                           (sl_receiver_id slot) (s_seq st) (Some nack) out_len of
                     (ok, out_response_buf, out_len) \<Rightarrow>
                       (ok, Some (st\<lparr>s_seq := s_seq st + 1\<rparr>), out_response_buf, out_len))
                 else stop)
         | _ \<Rightarrow> stop)
     | _ \<Rightarrow> stop)"

text \<open>
  The round-robin loop of \<open>num8lora_sender_poll_tx\<close>: \<open>k\<close> iterations are left and \<open>i\<close> is the loop
  counter. The sender is not NULL and the output pointers are valid here.
\<close>

fun poll_loop ::
  "nat \<Rightarrow> u32 \<Rightarrow> u32 \<Rightarrow> num8lora_sender \<Rightarrow> u64 \<Rightarrow> u8 list ptr \<Rightarrow> u32 \<Rightarrow> u32 ptr \<Rightarrow> u16 ptr
    \<Rightarrow> bool \<times> num8lora_sender \<times> u8 list ptr \<times> u32 ptr \<times> u16 ptr" where
  "poll_loop 0 start i s now_ms out_buf out_cap out_len out_target =
    (False, s, out_buf, out_len, out_target)"
| "poll_loop (Suc k) start i s now_ms out_buf out_cap out_len out_target =
    (let index = start + i;
         index = (if index \<ge> s_receiver_capacity s then index mod s_receiver_capacity s else index);
         n = unat index;
         slot = slots s ! n;
         continue = (\<lambda>s. poll_loop k start (i + 1) s now_ms out_buf out_cap out_len out_target)
     in
     if sl_active slot = 0 \<or> sl_exhausted slot \<noteq> 0 then continue s
     else if sl_waiting_ack slot \<noteq> 0 then
       if now_ms < sl_due_at_ms slot then continue s
       else if sl_retries slot \<ge> s_max_retries s then
         continue (update_slot n (\<lambda>x. x\<lparr>sl_waiting_ack := 0, sl_inflight_op_id := 0,
           sl_retries := 0, sl_exhausted := 1\<rparr>) s)
       else
         let s = update_slot n (\<lambda>x. x\<lparr>sl_retries := sl_retries x + 1\<rparr>) s in
         (case emit_data s n (sl_inflight_op_id slot) out_buf out_cap out_len now_ms of
           (ok, s, out_buf, out_len) \<Rightarrow>
             if \<not> ok then (False, s, out_buf, out_len, out_target)
             else (True, s\<lparr>s_poll_cursor := (index + 1) mod s_receiver_capacity s\<rparr>, out_buf, out_len,
               store (sl_receiver_id slot) out_target))
     else
       let target = sl_last_acked_op_id slot + 1 in
       if target > s_latest_op_id s \<or> target < s_oldest_retained_op_id s then continue s
       else
         (case emit_data s n target out_buf out_cap out_len now_ms of
           (ok, s, out_buf, out_len) \<Rightarrow>
             if \<not> ok then (False, s, out_buf, out_len, out_target)
             else (True,
               (update_slot n (\<lambda>x. x\<lparr>sl_retries := 0\<rparr>) s)
                 \<lparr>s_poll_cursor := (index + 1) mod s_receiver_capacity s\<rparr>,
               out_buf, out_len, store (sl_receiver_id slot) out_target)))"

definition num8lora_sender_poll_tx ::
  "num8lora_sender ptr \<Rightarrow> u64 \<Rightarrow> u8 list ptr \<Rightarrow> u32 \<Rightarrow> u32 ptr \<Rightarrow> u16 ptr
    \<Rightarrow> bool \<times> num8lora_sender ptr \<times> u8 list ptr \<times> u32 ptr \<times> u16 ptr" where
  "num8lora_sender_poll_tx s now_ms out_buf out_cap out_len out_target_receiver_id =
    (let out_len = store 0 out_len;
         out_target_receiver_id = store 0 out_target_receiver_id in
     case (s, out_buf, out_len, out_target_receiver_id) of
       (Some st, Some _, Some _, Some _) \<Rightarrow>
         let st = sender_reclaim_history st in
         if s_receiver_capacity st = 0 then (False, Some st, out_buf, out_len, out_target_receiver_id)
         else
           (case poll_loop (unat (s_receiver_capacity st))
                   (s_poll_cursor st mod s_receiver_capacity st) 0 st now_ms
                   out_buf out_cap out_len out_target_receiver_id of
             (ok, st, rest) \<Rightarrow> (ok, Some st, rest))
     | _ \<Rightarrow> (False, s, out_buf, out_len, out_target_receiver_id))"

subsection \<open>Frames in\<close>

definition num8lora_sender_handle_rx ::
  "num8lora_sender ptr \<Rightarrow> u64 \<Rightarrow> u8 list ptr \<Rightarrow> u32 \<Rightarrow> bool \<times> num8lora_sender ptr" where
  "num8lora_sender_handle_rx s now_ms in_buf in_len =
    (case (s, in_buf) of
       (Some st, Some b) \<Rightarrow>
         if in_len < 2 then (False, s)
         else if b ! 1 = NUM8LORA_OP_MSG_REQUEST then
           (case num8lora_op_decode_request in_buf in_len (Some local_header) (Some local_request) of
             (True, Some hdr, Some req) \<Rightarrow>
               (case find_slot_mut st (h_sender_id hdr) of
                 None \<Rightarrow> (False, s)
               | Some i \<Rightarrow>
                   let slot = slots st ! i in
                   if sl_active slot = 0 \<or> h_protocol_version hdr \<noteq> NUM8LORA_OP_PROTOCOL_VERSION
                      \<or> h_receiver_id hdr \<noteq> s_sender_id st then (False, s)
                   else if rp_stream_id req \<noteq> s_stream_id st then (False, s)
                   else if rp_next_needed_op_id req < s_oldest_retained_op_id st then (False, s)
                   else if rp_next_needed_op_id req > s_latest_op_id st + 1 then (False, s)
                   else if sl_exhausted slot \<noteq> 0
                      \<and> rp_next_needed_op_id req = sl_last_acked_op_id slot + 1 then (False, s)
                   else if rp_next_needed_op_id req \<noteq> sl_last_acked_op_id slot + 1 then (False, s)
                   else if sl_waiting_ack slot \<noteq> 0
                      \<and> sl_inflight_op_id slot \<noteq> rp_next_needed_op_id req then (False, s)
                   else (True, Some (update_slot i (\<lambda>x. x\<lparr>sl_due_at_ms := now_ms\<rparr>) st)))
           | _ \<Rightarrow> (False, s))
         else if b ! 1 = NUM8LORA_OP_MSG_ACK then
           (case num8lora_op_decode_ack in_buf in_len (Some local_header) (Some local_ack) of
             (True, Some hdr, Some ack) \<Rightarrow>
               (case find_slot_mut st (h_sender_id hdr) of
                 None \<Rightarrow> (False, s)
               | Some i \<Rightarrow>
                   let slot = slots st ! i in
                   if sl_active slot = 0 \<or> h_protocol_version hdr \<noteq> NUM8LORA_OP_PROTOCOL_VERSION
                      \<or> h_receiver_id hdr \<noteq> s_sender_id st then (False, s)
                   else if ap_stream_id ack \<noteq> s_stream_id st \<or> sl_waiting_ack slot = 0
                      \<or> sl_inflight_op_id slot = 0 \<or> ap_ack_op_id ack \<noteq> sl_inflight_op_id slot
                   then (False, s)
                   else (True, Some (sender_reclaim_history
                     (update_slot i (\<lambda>x. x\<lparr>sl_last_acked_op_id := ap_ack_op_id ack,
                       sl_waiting_ack := 0, sl_inflight_op_id := 0, sl_retries := 0,
                       sl_exhausted := 0\<rparr>) st))))
           | _ \<Rightarrow> (False, s))
         else if b ! 1 = NUM8LORA_OP_MSG_NACK then
           (case num8lora_op_decode_nack in_buf in_len (Some local_header) (Some local_nack) of
             (True, Some hdr, Some nack) \<Rightarrow>
               (case find_slot_mut st (h_sender_id hdr) of
                 None \<Rightarrow> (False, s)
               | Some i \<Rightarrow>
                   let slot = slots st ! i in
                   if sl_active slot = 0 \<or> h_protocol_version hdr \<noteq> NUM8LORA_OP_PROTOCOL_VERSION
                      \<or> h_receiver_id hdr \<noteq> s_sender_id st then (False, s)
                   else if np_stream_id nack \<noteq> s_stream_id st \<or> sl_waiting_ack slot = 0
                      \<or> sl_inflight_op_id slot = 0 then (False, s)
                   else if np_expected_next_op_id nack < s_oldest_retained_op_id st
                      \<or> np_expected_next_op_id nack > s_latest_op_id st + 1 then (False, s)
                   else if np_expected_next_op_id nack \<noteq> sl_inflight_op_id slot then (False, s)
                   else (True, Some (sender_reclaim_history
                     (update_slot i (\<lambda>x. x\<lparr>sl_waiting_ack := 0, sl_inflight_op_id := 0,
                       sl_retries := 0, sl_exhausted := 0, sl_due_at_ms := now_ms\<rparr>) st))))
           | _ \<Rightarrow> (False, s))
         else (False, s)
     | _ \<Rightarrow> (False, s))"

end
