(* ===== verification/SenderLog.thy ===== *)
theory SenderLog
  imports Sender
begin

text \<open>
  The operation log of the sender: the ring buffer behind \<open>op_head\<close> and \<open>op_count\<close> holds the
  operations \<open>oldest_retained_op_id .. latest_op_id\<close> in order. \<open>enqueue_op\<close> appends to that list and
  \<open>sender_reclaim_history\<close> drops a prefix no registered receiver still needs; \<open>find_op\<close> is the lookup
  by id.
\<close>

subsection \<open>Rings\<close>

text \<open>The \<open>n\<close> entries from position \<open>h\<close> of an array of \<open>c\<close> entries, wrapping at its end.\<close>

definition ring :: "'a list \<Rightarrow> nat \<Rightarrow> nat \<Rightarrow> nat \<Rightarrow> 'a list" where
  "ring xs c h n = map (\<lambda>k. xs ! ((h + k) mod c)) [0..<n]"

lemma length_ring [simp]: "length (ring xs c h n) = n"
  by (simp add: ring_def)

lemma ring_nth: "k < n \<Longrightarrow> ring xs c h n ! k = xs ! ((h + k) mod c)"
  by (simp add: ring_def)

lemma ring_0 [simp]: "ring xs c h 0 = []"
  by (simp add: ring_def)

lemma ring_drop: "d \<le> n \<Longrightarrow> ring xs c ((h + d) mod c) (n - d) = drop d (ring xs c h n)"
  by (rule nth_equalityI) (simp_all add: ring_nth mod_add_left_eq add.assoc)

lemma ring_index: "h < c \<Longrightarrow> k \<le> c \<Longrightarrow> (h + k) mod c = (if h + k < c then h + k else h + k - c)"
  for h c k :: nat
  by (simp add: le_mod_geq)

lemma ring_index_neq: "h < c \<Longrightarrow> k < n \<Longrightarrow> n < c \<Longrightarrow> (h + k) mod c \<noteq> (h + n) mod c" for h c k n :: nat
  by (auto simp: ring_index)

lemma ring_push:
  assumes "h < c" "n < c" "length xs = c"
  shows "ring (xs[(h + n) mod c := x]) c h (Suc n) = ring xs c h n @ [x]"
proof -
  have "xs[(h + n) mod c := x] ! ((h + k) mod c) = xs ! ((h + k) mod c)" if "k < n" for k
    using ring_index_neq [OF assms(1) that assms(2)] by (metis nth_list_update_neq)
  then have "ring (xs[(h + n) mod c := x]) c h n = ring xs c h n"
    by (simp add: ring_def)
  moreover have "(h + n) mod c < length xs" using assms by simp
  ultimately show ?thesis by (simp add: ring_def)
qed

text \<open>The index computation of the code, in \<open>u32\<close>, does not wrap for rings of at most \<open>2 ^ 31\<close> entries.\<close>

lemma ring_index_word:
  assumes "unat h < unat c \<or> h = 0" "unat k \<le> unat c" "unat (c :: u32) \<le> 2 ^ 31" "c \<noteq> 0"
  shows "unat (if h + k \<ge> c then (h + k) mod c else h + k) = (unat h + unat k) mod unat c"
proof -
  have "unat h < 2 ^ 31"
    using assms by (auto simp: word_neq_0_unat)
  then have "unat h + unat k < 2 ^ 32"
    using assms by simp
  then have "unat (h + k) = unat h + unat k"
    by (simp add: unat_word_ariths)
  then show ?thesis
    by (simp add: unat_mod word_le_nat_alt)
qed

subsection \<open>The log and its invariant\<close>

definition history :: "num8lora_sender \<Rightarrow> num8lora_sender_op list" where
  "history s = ring (ops s) (unat (s_op_capacity s)) (unat (s_op_head s)) (unat (s_op_count s))"

definition op_legal :: "num8lora_sender_op \<Rightarrow> bool" where
  "op_legal x \<longleftrightarrow> (so_op_type x = NUM8LORA_OP_ADD \<or> so_op_type x = NUM8LORA_OP_REMOVE)
    \<and> so_value x \<le> MAX_VALUE"

definition log_inv :: "num8lora_sender \<Rightarrow> bool" where
  "log_inv s \<longleftrightarrow>
    length (ops s) = unat (s_op_capacity s) \<and> unat (s_op_capacity s) \<le> 2 ^ 31
    \<and> unat (s_op_count s) \<le> unat (s_op_capacity s)
    \<and> (unat (s_op_head s) < unat (s_op_capacity s) \<or> s_op_head s = 0)
    \<and> 1 \<le> unat (s_oldest_retained_op_id s)
    \<and> unat (s_oldest_retained_op_id s) + unat (s_op_count s) = unat (s_latest_op_id s) + 1
    \<and> map (\<lambda>x. unat (so_op_id x)) (history s)
        = [unat (s_oldest_retained_op_id s)..<unat (s_latest_op_id s) + 1]
    \<and> (\<forall>x \<in> set (history s). op_legal x)"

lemma length_history [simp]: "length (history s) = unat (s_op_count s)"
  by (simp add: history_def)

lemma log_inv_sizes:
  assumes "log_inv s"
  shows "length (ops s) = unat (s_op_capacity s)" "unat (s_op_capacity s) \<le> 2 ^ 31"
    "unat (s_op_count s) \<le> unat (s_op_capacity s)"
    "unat (s_op_head s) < unat (s_op_capacity s) \<or> s_op_head s = 0"
    "1 \<le> unat (s_oldest_retained_op_id s)"
    "unat (s_oldest_retained_op_id s) + unat (s_op_count s) = unat (s_latest_op_id s) + 1"
  using assms by (simp_all add: log_inv_def)

lemma log_inv_entry:
  assumes "log_inv s" "k < unat (s_op_count s)"
  shows "unat (so_op_id (history s ! k)) = unat (s_oldest_retained_op_id s) + k"
    and "op_legal (history s ! k)"
proof -
  have "map (\<lambda>x. unat (so_op_id x)) (history s) ! k
      = [unat (s_oldest_retained_op_id s)..<unat (s_latest_op_id s) + 1] ! k"
    using assms(1) by (simp add: log_inv_def)
  then show "unat (so_op_id (history s ! k)) = unat (s_oldest_retained_op_id s) + k"
    using assms(2) log_inv_sizes(6) [OF assms(1)] by (simp del: upt_Suc)
  show "op_legal (history s ! k)"
    using assms by (simp add: log_inv_def)
qed

subsection \<open>Lookup\<close>

lemma find_op_log:
  assumes "log_inv s"
  shows "find_op s op_id =
    (if s_oldest_retained_op_id s \<le> op_id \<and> op_id \<le> s_latest_op_id s
     then Some (history s ! (unat op_id - unat (s_oldest_retained_op_id s))) else None)"
proof (cases "s_oldest_retained_op_id s \<le> op_id \<and> op_id \<le> s_latest_op_id s")
  case True
  let ?k = "op_id - s_oldest_retained_op_id s"
  have k: "unat ?k = unat op_id - unat (s_oldest_retained_op_id s)"
    using True by (simp add: unat_sub)
  then have lt: "unat ?k < unat (s_op_count s)"
    using True log_inv_sizes(5,6) [OF assms] unfolding k word_le_nat_alt by arith
  then have nz: "s_op_count s \<noteq> 0" "s_op_capacity s \<noteq> 0"
    using log_inv_sizes(3) [OF assms] by (auto simp: word_neq_0_unat)
  then have "unat (if s_op_head s + ?k \<ge> s_op_capacity s then (s_op_head s + ?k) mod s_op_capacity s
      else s_op_head s + ?k) = (unat (s_op_head s) + unat ?k) mod unat (s_op_capacity s)"
    using log_inv_sizes [OF assms] lt by (intro ring_index_word) simp_all
  moreover have "\<not> s_op_count s \<le> ?k"
    using lt by (simp add: word_le_nat_alt)
  moreover have "history s ! unat ?k
      = ops s ! ((unat (s_op_head s) + unat ?k) mod unat (s_op_capacity s))"
    using lt by (simp add: history_def ring_nth)
  ultimately show ?thesis
    using True nz unfolding k [symmetric] find_op_def Let_def by (simp add: not_less)
qed (auto simp: find_op_def not_le)

subsection \<open>The floor of the active receivers\<close>

lemma active_floor_fold:
  fixes needed :: "nat \<Rightarrow> u32" and active :: "nat \<Rightarrow> bool"
  shows "case fold (\<lambda>i (fl, any :: u8). if \<not> active i then (fl, any)
      else (if needed i < fl then needed i else fl, 1)) [0..<n] (init, 0)
    of (fl, any) \<Rightarrow> fl \<le> init \<and> (\<forall>i < n. active i \<longrightarrow> fl \<le> needed i)
      \<and> (any = 0 \<longleftrightarrow> (\<forall>i < n. \<not> active i))
      \<and> (fl = init \<or> (\<exists>i < n. active i \<and> fl = needed i))"
  by (induction n) (auto simp: less_Suc_eq split: prod.splits)

lemma sender_active_floor_spec:
  shows "sender_active_floor s \<le> s_latest_op_id s + 1"
    and "i < unat (s_receiver_capacity s) \<Longrightarrow> sl_active (slots s ! i) \<noteq> 0 \<Longrightarrow>
      sender_active_floor s \<le> sl_last_acked_op_id (slots s ! i) + 1"
    and "sender_active_floor s = s_latest_op_id s + 1
      \<or> (\<exists>i < unat (s_receiver_capacity s). sl_active (slots s ! i) \<noteq> 0
          \<and> sender_active_floor s = sl_last_acked_op_id (slots s ! i) + 1)"
  using active_floor_fold [where active = "\<lambda>i. sl_active (slots s ! i) \<noteq> 0"
      and needed = "\<lambda>i. sl_last_acked_op_id (slots s ! i) + 1"
      and n = "unat (s_receiver_capacity s)" and init = "s_latest_op_id s + 1"]
  unfolding sender_active_floor_def Let_def by (auto split: prod.splits if_splits)


subsection \<open>Reclaiming\<close>

text \<open>Reclaiming touches the ring indices only.\<close>

lemma reclaim_fields [simp]:
  "s_sender_id (sender_reclaim_history s) = s_sender_id s"
  "s_seq (sender_reclaim_history s) = s_seq s"
  "s_stream_id (sender_reclaim_history s) = s_stream_id s"
  "s_latest_op_id (sender_reclaim_history s) = s_latest_op_id s"
  "s_poll_cursor (sender_reclaim_history s) = s_poll_cursor s"
  "s_ack_timeout_ms (sender_reclaim_history s) = s_ack_timeout_ms s"
  "s_max_retries (sender_reclaim_history s) = s_max_retries s"
  "s_ops (sender_reclaim_history s) = s_ops s"
  "s_op_capacity (sender_reclaim_history s) = s_op_capacity s"
  "s_receivers (sender_reclaim_history s) = s_receivers s"
  "s_receiver_capacity (sender_reclaim_history s) = s_receiver_capacity s"
  by (simp_all add: sender_reclaim_history_def Let_def)

text \<open>The new left end of the log: the floor, when the floor is past the old end.\<close>

definition reclaimed_to :: "num8lora_sender \<Rightarrow> u32" where
  "reclaimed_to s = (if sender_active_floor s \<le> s_oldest_retained_op_id s
    then s_oldest_retained_op_id s else sender_active_floor s)"

lemma reclaim_log:
  assumes "log_inv s"
  defines "d \<equiv> unat (reclaimed_to s) - unat (s_oldest_retained_op_id s)"
  shows "s_oldest_retained_op_id (sender_reclaim_history s) = reclaimed_to s"
    and "history (sender_reclaim_history s) = drop d (history s)"
    and "unat (s_op_count (sender_reclaim_history s)) = unat (s_op_count s) - d"
    and "unat (s_oldest_retained_op_id s) \<le> unat (reclaimed_to s)"
    and "unat (reclaimed_to s) \<le> unat (s_latest_op_id s) + 1"
    and "log_inv (sender_reclaim_history s)"
proof -
  let ?fl = "sender_active_floor s" and ?o = "s_oldest_retained_op_id s" and ?r = "sender_reclaim_history s"
  note sz = log_inv_sizes [OF assms(1)]
  have all: "s_oldest_retained_op_id ?r = reclaimed_to s \<and> history ?r = drop d (history s)
    \<and> unat (s_op_count ?r) = unat (s_op_count s) - d \<and> unat ?o \<le> unat (reclaimed_to s)
    \<and> unat (reclaimed_to s) \<le> unat (s_latest_op_id s) + 1
    \<and> (unat (s_op_head ?r) < unat (s_op_capacity s) \<or> s_op_head ?r = 0)"
  proof (cases "?fl \<le> ?o")
    case True
    then show ?thesis
      using sz by (auto simp: sender_reclaim_history_def reclaimed_to_def d_def)
  next
    case False
    have le: "?fl \<le> s_latest_op_id s + 1" by (rule sender_active_floor_spec(1))
    have "s_latest_op_id s + 1 \<noteq> 0"
      using le False by auto
    then have latest: "unat (s_latest_op_id s + 1) = unat (s_latest_op_id s) + 1"
      by (simp add: unat_Suc_neq_0_u32)
    have to: "reclaimed_to s = ?fl" using False by (simp add: reclaimed_to_def)
    have drop_word: "unat (?fl - ?o) = d"
      using False by (simp add: d_def to unat_sub)
    have d: "d \<le> unat (s_op_count s)" "0 < d"
      using le latest sz(6) False unfolding word_le_nat_alt d_def to by arith+
    have cap: "s_op_capacity s \<noteq> 0" "0 < unat (s_op_capacity s)"
      using d sz(3) by (auto simp: word_neq_0_unat)
    have "unat (s_op_head s) < 2 ^ 31" using sz(2,4) cap by auto
    then have "unat (s_op_head s + (?fl - ?o)) = unat (s_op_head s) + d"
      using d sz(2,3) by (simp add: unat_word_ariths drop_word)
    then have head: "unat ((s_op_head s + (?fl - ?o)) mod s_op_capacity s)
        = (unat (s_op_head s) + d) mod unat (s_op_capacity s)"
      by (simp add: unat_mod)
    have count: "unat (s_op_count s - (?fl - ?o)) = unat (s_op_count s) - d"
      using d by (simp add: unat_sub word_le_nat_alt drop_word)
    have "\<not> s_op_count s < ?fl - ?o"
      using d drop_word by (simp add: word_less_nat_alt)
    then have r: "?r = (let s' = s\<lparr>s_oldest_retained_op_id := ?fl,
        s_op_head := (s_op_head s + (?fl - ?o)) mod s_op_capacity s,
        s_op_count := s_op_count s - (?fl - ?o)\<rparr>
        in if s_op_count s' = 0 then s'\<lparr>s_op_head := 0\<rparr> else s')"
      using False le cap by (simp add: sender_reclaim_history_def Let_def not_less)
    have "history ?r = drop d (history s)"
    proof (cases "s_op_count s = ?fl - ?o")
      case True
      then show ?thesis using count by (simp add: r history_def)
    next
      case False
      then show ?thesis
        using ring_drop [OF d(1), of "ops s" "unat (s_op_capacity s)" "unat (s_op_head s)"]
        by (simp add: r history_def head count)
    qed
    moreover have "unat (s_op_head ?r) < unat (s_op_capacity s) \<or> s_op_head ?r = 0"
      using cap by (simp add: r head Let_def)
    moreover have "unat (s_op_count ?r) = unat (s_op_count s) - d"
      using count by (simp add: r Let_def drop_word)
    moreover have "s_oldest_retained_op_id ?r = reclaimed_to s"
      by (simp add: r Let_def to)
    moreover have "unat ?o \<le> unat ?fl" "unat ?fl \<le> unat (s_latest_op_id s) + 1"
      using False le latest by (simp_all add: word_le_nat_alt)
    ultimately show ?thesis by (simp add: to)
  qed
  then show "s_oldest_retained_op_id ?r = reclaimed_to s" "history ?r = drop d (history s)"
    "unat (s_op_count ?r) = unat (s_op_count s) - d" "unat ?o \<le> unat (reclaimed_to s)"
    "unat (reclaimed_to s) \<le> unat (s_latest_op_id s) + 1"
    by blast+
  have "map (\<lambda>x. unat (so_op_id x)) (drop d (history s))
      = drop d [unat ?o..<unat (s_latest_op_id s) + 1]"
    using assms(1) by (simp add: log_inv_def drop_map [symmetric] del: upt_Suc)
  also have "\<dots> = [unat (reclaimed_to s)..<unat (s_latest_op_id s) + 1]"
    using all by (simp add: d_def del: upt_Suc)
  finally show "log_inv ?r"
    using all assms(1) sz in_set_dropD [of _ d "history s"]
    by (auto simp: log_inv_def d_def simp del: upt_Suc)
qed

text \<open>Nothing a registered receiver still has to get is dropped.\<close>

lemma reclaimed_to_needed:
  assumes "i < unat (s_receiver_capacity s)" "sl_active (slots s ! i) \<noteq> 0"
    and "s_oldest_retained_op_id s \<le> sl_last_acked_op_id (slots s ! i) + 1"
  shows "reclaimed_to s \<le> sl_last_acked_op_id (slots s ! i) + 1"
  using assms sender_active_floor_spec(2) [OF assms(1,2)] by (simp add: reclaimed_to_def)

text \<open>The look-up of any operation after the last one a registered receiver acknowledged is unaffected.\<close>

lemma reclaim_keeps_needed:
  assumes "log_inv s" "i < unat (s_receiver_capacity s)" "sl_active (slots s ! i) \<noteq> 0"
    and "sl_last_acked_op_id (slots s ! i) < k"
  shows "find_op (sender_reclaim_history s) k = find_op s k"
proof -
  note rec = reclaim_log [OF assms(1)]
  have "sender_active_floor s \<le> k"
    using sender_active_floor_spec(2) [OF assms(2,3)] inc_le [OF assms(4)] by (rule order_trans)
  then have to: "s_oldest_retained_op_id s \<le> k \<longleftrightarrow> reclaimed_to s \<le> k"
    using rec(4) by (auto simp: reclaimed_to_def word_le_nat_alt)
  have len: "unat (reclaimed_to s) - unat (s_oldest_retained_op_id s) \<le> length (history s)"
    using rec(5) log_inv_sizes(6) [OF assms(1)] by simp
  have "unat k - unat (s_oldest_retained_op_id s) = (unat k - unat (reclaimed_to s))
      + (unat (reclaimed_to s) - unat (s_oldest_retained_op_id s))" if "reclaimed_to s \<le> k"
    using rec(4) that by (simp add: word_le_nat_alt)
  then show ?thesis
    using to len by (simp add: find_op_log [OF assms(1)] find_op_log [OF rec(6)] rec(1,2) add.commute)
qed

subsection \<open>Enqueueing\<close>

text \<open>What the operations on the log leave alone.\<close>

definition same_config :: "num8lora_sender \<Rightarrow> num8lora_sender \<Rightarrow> bool" where
  "same_config s s' \<longleftrightarrow> s_sender_id s' = s_sender_id s \<and> s_seq s' = s_seq s
    \<and> s_stream_id s' = s_stream_id s \<and> s_poll_cursor s' = s_poll_cursor s
    \<and> s_ack_timeout_ms s' = s_ack_timeout_ms s \<and> s_max_retries s' = s_max_retries s
    \<and> s_op_capacity s' = s_op_capacity s \<and> s_receivers s' = s_receivers s
    \<and> s_receiver_capacity s' = s_receiver_capacity s"

lemma same_config_refl [simp]: "same_config s s"
  by (simp add: same_config_def)

lemma same_config_trans: "same_config s t \<Longrightarrow> same_config t u \<Longrightarrow> same_config s u"
  by (simp add: same_config_def)

lemma same_config_reclaim [simp]: "same_config s (sender_reclaim_history s)"
  by (simp add: same_config_def)

lemma enqueue_op_room:
  assumes "log_inv s" "s_latest_op_id s < 0xFFFFFFFF"
    and "type = NUM8LORA_OP_ADD \<or> type = NUM8LORA_OP_REMOVE" "value \<le> MAX_VALUE"
    and "s_op_count (sender_reclaim_history s) < s_op_capacity s"
  obtains s' where "enqueue_op (Some s) type value out = (True, Some s', store (s_latest_op_id s + 1) out)"
    and "history s' = history (sender_reclaim_history s)
      @ [\<lparr>so_op_id = s_latest_op_id s + 1, so_op_type = type, so_value = value\<rparr>]"
    and "s_latest_op_id s' = s_latest_op_id s + 1" "s_oldest_retained_op_id s' = reclaimed_to s"
    and "log_inv s'" "same_config s s'"
proof -
  define r where "r = sender_reclaim_history s"
  define op where "op = \<lparr>so_op_id = s_latest_op_id s + 1, so_op_type = type, so_value = value\<rparr>"
  define h where "h = (if s_op_count r = 0 then 0 else s_op_head r)"
  define i where "i = (if h + s_op_count r \<ge> s_op_capacity r then (h + s_op_count r) mod s_op_capacity r
    else h + s_op_count r)"
  define s' where "s' = r\<lparr>s_latest_op_id := s_latest_op_id s + 1, s_op_head := h,
    s_oldest_retained_op_id := reclaimed_to s,
    s_ops := map_option (\<lambda>xs. xs[unat i := op]) (s_ops s), s_op_count := s_op_count r + 1\<rparr>"
  have inv: "log_inv r" and old: "s_oldest_retained_op_id r = reclaimed_to s"
    using reclaim_log [OF assms(1)] by (simp_all add: r_def)
  note sz = log_inv_sizes [OF inv]
  have conf: "s_op_capacity r = s_op_capacity s" "s_ops r = s_ops s" "s_latest_op_id r = s_latest_op_id s"
    by (simp_all add: r_def)
  have room: "unat (s_op_count r) < unat (s_op_capacity r)"
    using assms(5) by (simp add: r_def word_less_nat_alt)
  have latest: "unat (s_latest_op_id s + 1) = unat (s_latest_op_id s) + 1"
    using assms(2) by (simp add: unat_Suc_less_u32)
  have empty: "reclaimed_to s = s_latest_op_id s + 1" if "s_op_count r = 0"
    using sz(6) that latest by (simp add: old conf word_unat_eq_iff)
  have some: "s_ops s \<noteq> None"
    using sz(1) room by (cases "s_ops s") (simp_all add: deref_def conf)
  have cap: "s_op_capacity r \<noteq> 0" using room by (auto simp: word_neq_0_unat)
  have type: "type \<noteq> 0" using assms(3) by auto
  have run: "enqueue_op (Some s) type value out = (True, Some s', store (s_latest_op_id s + 1) out)"
    using some cap room type assms(4) empty
    by (simp add: enqueue_op_def s'_def r_def [symmetric] Let_def op_def i_def h_def conf old
      word_le_nat_alt word_less_nat_alt not_le)
  have hlt: "unat h < unat (s_op_capacity r)"
    using sz(4) room by (auto simp: h_def)
  have i: "unat i = (unat h + unat (s_op_count r)) mod unat (s_op_capacity r)"
    unfolding i_def using hlt room sz(2) cap by (intro ring_index_word) simp_all
  have hist_r: "history r = ring (ops s) (unat (s_op_capacity r)) (unat h) (unat (s_op_count r))"
    by (simp add: history_def conf h_def)
  have ops': "ops s' = (ops s)[unat i := op]"
    using some by (auto simp: s'_def deref_def)
  have count: "unat (s_op_count r + 1) = Suc (unat (s_op_count r))"
    using room by (simp add: unat_Suc_less_u32 word_less_nat_alt)
  have hist: "history s' = history r @ [op]"
    using ring_push [OF hlt room, of "ops s" op] sz(1)
    by (simp add: history_def [of s'] ops' i) (simp add: s'_def count conf hist_r)
  have ids: "map (\<lambda>x. unat (so_op_id x)) (history s')
      = [unat (reclaimed_to s)..<unat (s_latest_op_id s) + 1] @ [unat (s_latest_op_id s) + 1]"
    using inv by (simp add: hist op_def latest log_inv_def old conf del: upt_Suc)
  have "log_inv s'"
    unfolding log_inv_def
  proof (intro conjI)
    have "unat (reclaimed_to s) \<le> unat (s_latest_op_id s) + 1"
      using sz(6) by (simp add: old conf)
    then show "map (\<lambda>x. unat (so_op_id x)) (history s')
        = [unat (s_oldest_retained_op_id s')..<unat (s_latest_op_id s') + 1]"
      using ids by (simp add: s'_def latest)
    show "\<forall>x\<in>set (history s'). op_legal x"
      using inv assms(3,4) by (auto simp: hist op_def op_legal_def log_inv_def)
  qed (use sz room hlt count latest in \<open>simp_all add: ops' conf old\<close>,
      simp_all add: s'_def conf old)
  then show ?thesis
    using run hist by (intro that [of s']) (simp_all add: r_def op_def s'_def same_config_def)
qed

lemma enqueue_op_cases:
  assumes "log_inv s" "s_latest_op_id s < 0xFFFFFFFF"
    and "type = NUM8LORA_OP_ADD \<or> type = NUM8LORA_OP_REMOVE"
  obtains (refused) "enqueue_op (Some s) type v out = (False, Some s, out)"
    | (full) "enqueue_op (Some s) type v out = (False, Some (sender_reclaim_history s), out)"
    | (added) s' where
      "enqueue_op (Some s) type v out = (True, Some s', store (s_latest_op_id s + 1) out)"
      "history s' = history (sender_reclaim_history s)
        @ [\<lparr>so_op_id = s_latest_op_id s + 1, so_op_type = type, so_value = v\<rparr>]"
      "s_latest_op_id s' = s_latest_op_id s + 1" "s_oldest_retained_op_id s' = reclaimed_to s"
      "log_inv s'" "same_config s s'" "v \<le> MAX_VALUE"
proof (cases "s_ops s = None \<or> v > MAX_VALUE")
  case True
  then show ?thesis using refused by (auto simp: enqueue_op_def)
next
  case False
  then have some: "s_ops s \<noteq> None" "\<not> v > MAX_VALUE" "v \<le> MAX_VALUE" by auto
  have type: "type \<noteq> 0" using assms(3) by auto
  show ?thesis
  proof (cases "s_op_count (sender_reclaim_history s) < s_op_capacity s")
    case True
    show ?thesis
      by (rule enqueue_op_room [OF assms some(3) True]) (rule added, use some in simp_all)
  next
    case False
    then have "enqueue_op (Some s) type v out = (False, Some (sender_reclaim_history s), out)"
      using some type by (auto simp: enqueue_op_def Let_def not_less)
    then show ?thesis by (rule full)
  qed
qed

subsection \<open>Enqueueing two lists\<close>

text \<open>The operations a list of values stands for, numbered from the successor of \<open>latest\<close>.\<close>

fun new_ops :: "u8 \<Rightarrow> u32 \<Rightarrow> u32 list \<Rightarrow> num8lora_sender_op list" where
  "new_ops type latest [] = []"
| "new_ops type latest (v # vs) =
    \<lparr>so_op_id = latest + 1, so_op_type = type, so_value = v\<rparr> # new_ops type (latest + 1) vs"

lemma length_new_ops [simp]: "length (new_ops type latest vs) = length vs"
  by (induction vs arbitrary: latest) simp_all

lemma reclaim_count_le:
  assumes "log_inv s"
  shows "unat (s_op_count (sender_reclaim_history s)) \<le> unat (s_op_count s)"
  using reclaim_log(3) [OF assms] by simp

lemma drop_append_le: "d \<le> length xs \<Longrightarrow> drop d xs @ ys = drop d (xs @ ys)"
  by simp

lemma drop_drop_append:
  "d \<le> length xs \<Longrightarrow> drop k (drop d (xs @ [y]) @ zs) = drop (k + d) (xs @ y # zs)"
proof -
  assume "d \<le> length xs"
  then have "drop d (xs @ [y]) @ zs = drop d (xs @ y # zs)"
    using drop_append_le [of d "xs @ [y]" zs] by simp
  then show ?thesis by (simp only: drop_drop)
qed

text \<open>
  With enough room a loop appends all its values. The prefix that reclaiming drops on the way is
  the one the id of the new left end tells.
\<close>

lemma enqueue_loop_log:
  assumes "log_inv s" "type = NUM8LORA_OP_ADD \<or> type = NUM8LORA_OP_REMOVE"
    and "\<forall>v \<in> set vs. v \<le> MAX_VALUE"
    and "unat (s_op_count s) + length vs \<le> unat (s_op_capacity s)"
    and "unat (s_latest_op_id s) + length vs < 2 ^ 32"
  shows "\<exists>s'. enqueue_loop type vs s first_id last_id = (True, s',
        (if first_id = 0 \<and> vs \<noteq> [] then s_latest_op_id s + 1 else first_id),
        (if vs = [] then last_id else s_latest_op_id s'))
      \<and> log_inv s' \<and> same_config s s'
      \<and> unat (s_latest_op_id s') = unat (s_latest_op_id s) + length vs
      \<and> unat (s_oldest_retained_op_id s) \<le> unat (s_oldest_retained_op_id s')
      \<and> unat (s_op_count s') \<le> unat (s_op_count s) + length vs
      \<and> history s' = drop (unat (s_oldest_retained_op_id s') - unat (s_oldest_retained_op_id s))
          (history s @ new_ops type (s_latest_op_id s) vs)"
  using assms
proof (induction vs arbitrary: s first_id last_id)
  case Nil
  then show ?case by simp
next
  case (Cons v vs)
  let ?o = "unat (s_oldest_retained_op_id s)"
  note inv = Cons.prems(1)
  have latest: "s_latest_op_id s < 0xFFFFFFFF"
    using Cons.prems(5) by (simp add: word_less_nat_alt)
  have room: "s_op_count (sender_reclaim_history s) < s_op_capacity s"
    using reclaim_count_le [OF inv] Cons.prems(4) by (simp add: word_less_nat_alt)
  have v: "v \<le> MAX_VALUE" using Cons.prems(3) by simp
  obtain t where t: "enqueue_op (Some s) type v (Some last_id)
        = (True, Some t, store (s_latest_op_id s + 1) (Some last_id))"
    and hist: "history t = history (sender_reclaim_history s)
        @ [\<lparr>so_op_id = s_latest_op_id s + 1, so_op_type = type, so_value = v\<rparr>]"
    and late: "s_latest_op_id t = s_latest_op_id s + 1"
    and old: "s_oldest_retained_op_id t = reclaimed_to s"
    and invt: "log_inv t" and conf: "same_config s t"
    by (rule enqueue_op_room [OF inv latest Cons.prems(2) v room])
  let ?d = "unat (reclaimed_to s) - ?o"
  note rec = reclaim_log [OF inv]
  have late_nat: "unat (s_latest_op_id t) = unat (s_latest_op_id s) + 1"
    using latest by (simp add: late unat_Suc_less_u32)
  then have nz: "s_latest_op_id s + 1 \<noteq> 0" using late by auto
  have dle: "?d \<le> length (history s)"
    using rec(5) log_inv_sizes(6) [OF inv] by simp
  have ht: "history t = drop ?d (history s @ [\<lparr>so_op_id = s_latest_op_id s + 1, so_op_type = type, so_value = v\<rparr>])"
    using dle by (simp add: hist rec(2))
  have ct: "unat (s_op_count t) \<le> unat (s_op_count s) + 1"
    using arg_cong [OF ht, of length] by simp
  obtain u where u: "enqueue_loop type vs t (if first_id = 0 then s_latest_op_id s + 1 else first_id)
        (s_latest_op_id s + 1) = (True, u,
        (if (if first_id = 0 then s_latest_op_id s + 1 else first_id) = 0 \<and> vs \<noteq> []
         then s_latest_op_id t + 1 else (if first_id = 0 then s_latest_op_id s + 1 else first_id)),
        (if vs = [] then s_latest_op_id s + 1 else s_latest_op_id u))"
    and inv': "log_inv u" and conf': "same_config t u"
    and lat: "unat (s_latest_op_id u) = unat (s_latest_op_id t) + length vs"
    and mono: "unat (s_oldest_retained_op_id t) \<le> unat (s_oldest_retained_op_id u)"
    and cnt: "unat (s_op_count u) \<le> unat (s_op_count t) + length vs"
    and hu: "history u = drop (unat (s_oldest_retained_op_id u) - unat (s_oldest_retained_op_id t))
          (history t @ new_ops type (s_latest_op_id t) vs)"
    using Cons.IH [OF invt Cons.prems(2), of "if first_id = 0 then s_latest_op_id s + 1 else first_id"
        "s_latest_op_id s + 1"] Cons.prems(3,4,5) ct late_nat conf
    by (auto simp: same_config_def)
  have e: "s_latest_op_id u = s_latest_op_id s + 1" if "vs = []"
    using lat that by (simp add: late word_unat_eq_iff)
  have od: "unat (s_oldest_retained_op_id u) - ?o
      = (unat (s_oldest_retained_op_id u) - unat (s_oldest_retained_op_id t)) + ?d"
    using mono rec(4) by (simp add: old)
  have "history u = drop (unat (s_oldest_retained_op_id u) - ?o)
      (history s @ new_ops type (s_latest_op_id s) (v # vs))"
    unfolding od hu ht late old new_ops.simps by (rule drop_drop_append [OF dle])
  moreover have "?o \<le> unat (s_oldest_retained_op_id u)"
    using mono rec(4) by (simp add: old)
  ultimately show ?case
    using t u inv' same_config_trans [OF conf conf'] lat late_nat cnt ct nz e
    by (intro exI [of _ u]) auto
qed

text \<open>The guards of \<open>num8lora_sender_enqueue_lists\<close>, over naturals.\<close>

definition enqueue_lists_fits :: "num8lora_sender \<Rightarrow> u32 list \<Rightarrow> u32 list \<Rightarrow> bool" where
  "enqueue_lists_fits s rs as \<longleftrightarrow>
    unat (s_op_count s) + length rs + length as \<le> unat (s_op_capacity s)
    \<and> unat (s_latest_op_id s) + length rs + length as < 2 ^ 32
    \<and> (\<forall>v \<in> set rs \<union> set as. v \<le> MAX_VALUE)"

lemma find_bad_value:
  assumes "unat n \<le> length xs"
  shows "List.find (\<lambda>i. xs ! i > MAX_VALUE) [0..<unat n] = None
    \<longleftrightarrow> (\<forall>v \<in> set (take (unat n) xs). v \<le> MAX_VALUE)"
  unfolding find_upt_None nth_image [OF assms, symmetric] by (auto simp: not_less)

lemma enqueue_total_count:
  fixes a b :: u32
  shows "unat ((ucast a :: u64) + ucast b) = unat a + unat b"
proof -
  have "unat a + unat b < 4294967296 + 4294967296"
    by (intro add_strict_mono unat_less_u32)
  then show ?thesis by (simp add: unat_word_ariths)
qed

lemma enqueue_lists_guards:
  assumes "length rs = unat m" "length as = unat n" "rs @ as \<noteq> []"
    and "unat (s_op_count s) \<le> unat (s_op_capacity s)"
  shows "num8lora_sender_enqueue_lists (Some s) (Some rs) m (Some as) n (Some f0) (Some l0) =
    (if \<not> enqueue_lists_fits s rs as then (False, Some s, Some 0, Some 0)
     else case enqueue_loop NUM8LORA_OP_REMOVE rs s 0 0 of (ok, t, first_id, last_id) \<Rightarrow>
       if \<not> ok then (False, Some t, Some 0, Some 0)
       else case enqueue_loop NUM8LORA_OP_ADD as t first_id last_id of (ok, u, first_id, last_id) \<Rightarrow>
         if \<not> ok then (False, Some u, Some 0, Some 0)
         else (True, Some u, Some first_id, Some last_id))"
proof -
  let ?total = "(ucast m :: u64) + ucast n"
  have total: "unat ?total = length rs + length as"
    using assms(1,2) by (simp add: enqueue_total_count)
  have nz: "?total \<noteq> 0"
    using assms(3) total by (auto simp: word_neq_0_unat)
  have sub: "unat (s_op_capacity s - s_op_count s) = unat (s_op_capacity s) - unat (s_op_count s)"
    using assms(4) by (simp add: unat_sub word_le_nat_alt)
  have room: "ucast (s_op_capacity s - s_op_count s) < ?total
      \<longleftrightarrow> unat (s_op_capacity s) < unat (s_op_count s) + length rs + length as"
    using assms(4) unfolding word_less_nat_alt total unat_u32_in_u64 sub by arith
  have big: "0xFFFFFFFF < ?total \<longrightarrow> unat (s_op_capacity s) < unat (s_op_count s) + length rs + length as"
    using unat_less_u32 [of "s_op_capacity s"] unfolding word_less_nat_alt total
    by (simp del: unat_less_u32)
  have proj: "0xFFFFFFFF < (ucast (s_latest_op_id s) :: u64) + ?total
      \<longleftrightarrow> 2 ^ 32 \<le> unat (s_latest_op_id s) + length rs + length as" if "\<not> 0xFFFFFFFF < ?total"
  proof -
    have "unat (s_latest_op_id s) + unat ?total < 4294967296 + 4294967296"
      using that by (intro add_strict_mono unat_less_u32) (simp add: word_less_nat_alt)
    then have "unat ((ucast (s_latest_op_id s) :: u64) + ?total)
        = unat (s_latest_op_id s) + (length rs + length as)"
      unfolding unat_word_ariths(1) [of "ucast (s_latest_op_id s)" ?total] total unat_u32_in_u64
      by simp
    then show ?thesis by (simp add: word_less_nat_alt) arith
  qed
  have rs: "List.find (\<lambda>i. rs ! i > MAX_VALUE) [0..<unat m] = None \<longleftrightarrow> (\<forall>v\<in>set rs. v \<le> MAX_VALUE)"
    and as: "List.find (\<lambda>i. as ! i > MAX_VALUE) [0..<unat n] = None \<longleftrightarrow> (\<forall>v\<in>set as. v \<le> MAX_VALUE)"
    using find_bad_value [of m rs] find_bad_value [of n as] assms(1,2) by simp_all
  have take: "take (unat m) rs = rs" "take (unat n) as = as"
    using assms(1,2) by simp_all
  have cap: "\<not> s_op_count s > s_op_capacity s"
    using assms(4) by (simp add: word_le_nat_alt not_less)
  show ?thesis
  proof (cases "unat (s_op_capacity s) < unat (s_op_count s) + length rs + length as")
    case True
    then show ?thesis
      using nz room cap
      by (simp add: num8lora_sender_enqueue_lists_def Let_def enqueue_lists_fits_def)
  next
    case False
    then have nb: "\<not> 0xFFFFFFFF < ?total" using big by blast
    show ?thesis
      using nz False room cap nb unfolding enqueue_lists_fits_def
      by (simp add: num8lora_sender_enqueue_lists_def Let_def deref_def proj [OF nb] rs as take
          ball_Un not_less split: prod.splits)
  qed
qed

lemma enqueue_lists_log:
  assumes "log_inv s" "length rs = unat m" "length as = unat n" "rs @ as \<noteq> []"
    and fits: "enqueue_lists_fits s rs as"
  shows "\<exists>s'. num8lora_sender_enqueue_lists (Some s) (Some rs) m (Some as) n (Some f0) (Some l0)
        = (True, Some s', Some (s_latest_op_id s + 1), Some (s_latest_op_id s'))
      \<and> log_inv s' \<and> same_config s s'
      \<and> unat (s_latest_op_id s') = unat (s_latest_op_id s) + length rs + length as
      \<and> unat (s_oldest_retained_op_id s) \<le> unat (s_oldest_retained_op_id s')
      \<and> history s' = drop (unat (s_oldest_retained_op_id s') - unat (s_oldest_retained_op_id s))
          (history s @ new_ops NUM8LORA_OP_REMOVE (s_latest_op_id s) rs
            @ new_ops NUM8LORA_OP_ADD (s_latest_op_id s + m) as)"
proof -
  have le: "unat (s_op_count s) \<le> unat (s_op_capacity s)"
    by (rule log_inv_sizes(3) [OF assms(1)])
  obtain t where t: "enqueue_loop NUM8LORA_OP_REMOVE rs s 0 0 = (True, t,
        (if rs \<noteq> [] then s_latest_op_id s + 1 else 0), (if rs = [] then 0 else s_latest_op_id t))"
    and invt: "log_inv t" and conf: "same_config s t"
    and late: "unat (s_latest_op_id t) = unat (s_latest_op_id s) + length rs"
    and old: "unat (s_oldest_retained_op_id s) \<le> unat (s_oldest_retained_op_id t)"
    and cnt: "unat (s_op_count t) \<le> unat (s_op_count s) + length rs"
    and ht: "history t = drop (unat (s_oldest_retained_op_id t) - unat (s_oldest_retained_op_id s))
          (history s @ new_ops NUM8LORA_OP_REMOVE (s_latest_op_id s) rs)"
    using enqueue_loop_log [OF assms(1), of NUM8LORA_OP_REMOVE rs 0 0] fits
    by (auto simp: enqueue_lists_fits_def)
  have latew: "s_latest_op_id t = s_latest_op_id s + m"
    using late fits by (simp add: word_unat_eq_iff enqueue_lists_fits_def unat_word_ariths assms(2))
  obtain u where u: "enqueue_loop NUM8LORA_OP_ADD as t
        (if rs \<noteq> [] then s_latest_op_id s + 1 else 0) (if rs = [] then 0 else s_latest_op_id t)
      = (True, u, (if (if rs \<noteq> [] then s_latest_op_id s + 1 else 0) = 0 \<and> as \<noteq> []
          then s_latest_op_id t + 1 else (if rs \<noteq> [] then s_latest_op_id s + 1 else 0)),
         (if as = [] then (if rs = [] then 0 else s_latest_op_id t) else s_latest_op_id u))"
    and invu: "log_inv u" and confu: "same_config t u"
    and lateu: "unat (s_latest_op_id u) = unat (s_latest_op_id t) + length as"
    and oldu: "unat (s_oldest_retained_op_id t) \<le> unat (s_oldest_retained_op_id u)"
    and hu: "history u = drop (unat (s_oldest_retained_op_id u) - unat (s_oldest_retained_op_id t))
          (history t @ new_ops NUM8LORA_OP_ADD (s_latest_op_id t) as)"
    using enqueue_loop_log [OF invt, of NUM8LORA_OP_ADD as
        "if rs \<noteq> [] then s_latest_op_id s + 1 else 0" "if rs = [] then 0 else s_latest_op_id t"]
      fits cnt late conf
    by (auto simp: enqueue_lists_fits_def same_config_def)
  have od: "unat (s_oldest_retained_op_id u) - unat (s_oldest_retained_op_id s)
      = (unat (s_oldest_retained_op_id u) - unat (s_oldest_retained_op_id t))
        + (unat (s_oldest_retained_op_id t) - unat (s_oldest_retained_op_id s))"
    using old oldu by simp
  have dle: "unat (s_oldest_retained_op_id t) - unat (s_oldest_retained_op_id s)
      \<le> length (history s @ new_ops NUM8LORA_OP_REMOVE (s_latest_op_id s) rs)"
    using log_inv_sizes(6) [OF assms(1)] log_inv_sizes(6) [OF invt] late by simp
  have hist: "history u = drop (unat (s_oldest_retained_op_id u) - unat (s_oldest_retained_op_id s))
      (history s @ new_ops NUM8LORA_OP_REMOVE (s_latest_op_id s) rs
        @ new_ops NUM8LORA_OP_ADD (s_latest_op_id s + m) as)"
    using drop_append_le [OF dle] unfolding od hu ht latew by (simp only: drop_drop append_assoc)
  have nz: "s_latest_op_id s + 1 \<noteq> 0"
    using fits assms(4) by (intro Suc_neq_0_u32 [of _ "0xFFFFFFFF"])
      (cases rs; cases as; simp add: enqueue_lists_fits_def word_less_nat_alt)
  have same: "s_latest_op_id t = s_latest_op_id s" if "rs = []"
    using late that by (simp add: word_unat_eq_iff)
  have first_id: "(if (if rs \<noteq> [] then s_latest_op_id s + 1 else 0) = 0 \<and> as \<noteq> []
      then s_latest_op_id t + 1 else (if rs \<noteq> [] then s_latest_op_id s + 1 else 0))
      = s_latest_op_id s + 1"
    using nz assms(4) same by auto
  have last_id: "(if as = [] then (if rs = [] then 0 else s_latest_op_id t) else s_latest_op_id u)
      = s_latest_op_id u"
    using assms(4) lateu by (auto simp: word_unat_eq_iff)
  have "num8lora_sender_enqueue_lists (Some s) (Some rs) m (Some as) n (Some f0) (Some l0)
      = (True, Some u, Some (s_latest_op_id s + 1), Some (s_latest_op_id u))"
    using fits unfolding enqueue_lists_guards [OF assms(2-4) le] t prod.case
      u [unfolded first_id last_id] by simp
  then show ?thesis
    using invu same_config_trans [OF conf confu] late lateu old oldu hist
    by (intro exI [of _ u]) simp
qed

text \<open>A call that does not fit changes nothing at all.\<close>

lemma enqueue_lists_refused:
  assumes "log_inv s" "length rs = unat m" "length as = unat n" "\<not> enqueue_lists_fits s rs as"
    "rs @ as \<noteq> []"
  shows "num8lora_sender_enqueue_lists (Some s) (Some rs) m (Some as) n (Some f0) (Some l0)
    = (False, Some s, Some 0, Some 0)"
  using enqueue_lists_guards [OF assms(2,3,5) log_inv_sizes(3) [OF assms(1)]] assms(4) by simp

subsection \<open>The contract of an operation log\<close>

text \<open>
  The abstract log is the list \<open>xs\<close> of every operation ever enqueued; operation number \<open>k\<close> (counted
  from 1) is \<open>xs ! (k - 1)\<close>. An implementation may forget a prefix: \<open>first s\<close> is the number of the
  oldest operation it still holds.
\<close>

locale operation_log =
  fixes represents :: "'s \<Rightarrow> 'e list \<Rightarrow> bool"
    and first :: "'s \<Rightarrow> nat"
    and append :: "'s \<Rightarrow> 'e \<Rightarrow> 's option"
    and trim :: "'s \<Rightarrow> 's"
    and lookup :: "'s \<Rightarrow> nat \<Rightarrow> 'e option"
  assumes first_range: "represents s xs \<Longrightarrow> 1 \<le> first s \<and> first s \<le> length xs + 1"
    and append_represents: "represents s xs \<Longrightarrow> append s e = Some s' \<Longrightarrow>
      represents s' (xs @ [e]) \<and> first s \<le> first s' \<and> first s' \<le> length xs + 1"
    and trim_represents: "represents s xs \<Longrightarrow> represents (trim s) xs \<and> first s \<le> first (trim s)"
    and lookup_represents: "represents s xs \<Longrightarrow>
      lookup s k = (if first s \<le> k \<and> k \<le> length xs then Some (xs ! (k - 1)) else None)"
begin

text \<open>The newest operation can always be looked up.\<close>

lemma lookup_newest:
  assumes "represents s xs" "append s e = Some s'"
  shows "lookup s' (length xs + 1) = Some e"
  using append_represents [OF assms] lookup_represents [of s' "xs @ [e]" "length xs + 1"] by simp

text \<open>An operation number never changes its meaning, however the log grows and is trimmed.\<close>

lemma lookup_stable:
  assumes "represents s xs" "represents s' (xs @ ys)" "lookup s k = Some e" "lookup s' k = Some e'"
  shows "e' = e"
proof -
  have "first s \<le> k \<and> k \<le> length xs" "e = xs ! (k - 1)"
    using assms(1,3) lookup_represents [OF assms(1), of k] by (auto split: if_splits)
  moreover have "e' = (xs @ ys) ! (k - 1)"
    using assms(2,4) lookup_represents [OF assms(2), of k] by (auto split: if_splits)
  moreover have "k - 1 < length xs"
    using calculation(1) first_range [OF assms(1)] by linarith
  ultimately show ?thesis by (simp add: nth_append)
qed

lemma lookup_trim:
  assumes "represents s xs" "first (trim s) \<le> k"
  shows "lookup (trim s) k = lookup s k"
  using assms(2) trim_represents [OF assms(1)] lookup_represents [OF assms(1), of k]
    lookup_represents [of "trim s" xs k] by simp

lemma lookup_append:
  assumes "represents s xs" "append s e = Some s'" "first s' \<le> k" "k \<le> length xs"
  shows "lookup s' k = lookup s k"
proof -
  note a = append_represents [OF assms(1,2)]
  have "k - 1 < length xs"
    using a assms(3,4) first_range [of s' "xs @ [e]"] by linarith
  then show ?thesis
    using a assms(3,4) lookup_represents [OF assms(1), of k] lookup_represents [of s' "xs @ [e]" k]
    by (simp add: nth_append)
qed

end

subsection \<open>The ring meets the contract\<close>

definition op_entry :: "num8lora_sender_op \<Rightarrow> u8 \<times> u32" where
  "op_entry x = (so_op_type x, so_value x)"

definition log_represents :: "num8lora_sender \<Rightarrow> (u8 \<times> u32) list \<Rightarrow> bool" where
  "log_represents s xs \<longleftrightarrow> log_inv s \<and> length xs = unat (s_latest_op_id s)
    \<and> map op_entry (history s) = drop (unat (s_oldest_retained_op_id s) - 1) xs"

definition log_first :: "num8lora_sender \<Rightarrow> nat" where
  "log_first s = unat (s_oldest_retained_op_id s)"

text \<open>\<open>enqueue_op\<close> as a partial operation, away from the last id and with a legal type.\<close>

definition log_append :: "num8lora_sender \<Rightarrow> u8 \<times> u32 \<Rightarrow> num8lora_sender option" where
  "log_append s e =
    (if s_latest_op_id s = 0xFFFFFFFF \<or> (fst e \<noteq> NUM8LORA_OP_ADD \<and> fst e \<noteq> NUM8LORA_OP_REMOVE)
     then None
     else case enqueue_op (Some s) (fst e) (snd e) None of (ok, s', _) \<Rightarrow> if ok then s' else None)"

definition log_lookup :: "num8lora_sender \<Rightarrow> nat \<Rightarrow> (u8 \<times> u32) option" where
  "log_lookup s k = (if k < 2 ^ 32 then map_option op_entry (find_op s (of_nat k)) else None)"

text \<open>The output cell does not influence what \<open>enqueue_op\<close> does.\<close>

lemma enqueue_op_out:
  "fst (enqueue_op (Some s) type v out) = fst (enqueue_op (Some s) type v None)
    \<and> fst (snd (enqueue_op (Some s) type v out)) = fst (snd (enqueue_op (Some s) type v None))"
  by (simp add: enqueue_op_def Let_def)

lemma log_represents_reclaim:
  assumes "log_represents s xs"
  shows "log_represents (sender_reclaim_history s) xs"
proof -
  have inv: "log_inv s" using assms by (simp add: log_represents_def)
  note rec = reclaim_log [OF inv]
  let ?d = "unat (reclaimed_to s) - unat (s_oldest_retained_op_id s)"
  have "map op_entry (history (sender_reclaim_history s))
      = drop ?d (drop (unat (s_oldest_retained_op_id s) - 1) xs)"
    using assms by (simp add: rec(2) drop_map [symmetric] log_represents_def)
  also have "\<dots> = drop (unat (reclaimed_to s) - 1) xs"
    using rec(4) log_inv_sizes(5) [OF inv] by simp
  finally show ?thesis
    using assms rec(1,6) by (simp add: log_represents_def)
qed

lemma log_represents_push:
  assumes "log_represents r xs" "log_inv s'" "s_latest_op_id s' = s_latest_op_id r + 1"
    and "s_latest_op_id r < 0xFFFFFFFF" "s_oldest_retained_op_id s' = s_oldest_retained_op_id r"
    and "history s' = history r @ [x]"
  shows "log_represents s' (xs @ [op_entry x])"
proof -
  have "unat (s_oldest_retained_op_id r) - 1 \<le> length xs"
    using assms(1) log_inv_sizes(6) [of r] by (simp add: log_represents_def)
  then show ?thesis
    using assms by (simp add: log_represents_def unat_Suc_less_u32)
qed

lemma log_represents_enqueue:
  assumes "log_represents s xs" "s_latest_op_id s < 0xFFFFFFFF"
    and "type = NUM8LORA_OP_ADD \<or> type = NUM8LORA_OP_REMOVE"
    and "enqueue_op (Some s) type v out = (True, Some s', out')"
  shows "log_represents s' (xs @ [(type, v)])" "s_oldest_retained_op_id s' = reclaimed_to s"
proof -
  have inv: "log_inv s" using assms(1) by (simp add: log_represents_def)
  have "log_represents s' (xs @ [(type, v)]) \<and> s_oldest_retained_op_id s' = reclaimed_to s"
    using inv assms(2,3)
  proof (cases rule: enqueue_op_cases [where v = v and out = out])
    case (added t)
    then have t: "t = s'" using assms(4) by simp
    then show ?thesis
      using log_represents_push [OF log_represents_reclaim [OF assms(1)] added(5)] added(2-4)
        assms(2) reclaim_log(1) [OF inv] by (simp add: op_entry_def)
  qed (use assms(4) in simp_all)
  then show "log_represents s' (xs @ [(type, v)])" "s_oldest_retained_op_id s' = reclaimed_to s"
    by simp_all
qed

lemma log_lookup_represents:
  assumes "log_represents s xs"
  shows "log_lookup s k = (if log_first s \<le> k \<and> k \<le> length xs then Some (xs ! (k - 1)) else None)"
proof (cases "k < 2 ^ 32")
  case True
  have inv: "log_inv s" using assms by (simp add: log_represents_def)
  have k: "unat (of_nat k :: u32) = k" using True by (simp add: unat_of_nat)
  show ?thesis
  proof (cases "log_first s \<le> k \<and> k \<le> length xs")
    case range: True
    let ?o = "unat (s_oldest_retained_op_id s)"
    have "k - ?o < length (history s)"
      using range assms log_inv_sizes(5,6) [OF inv]
      unfolding log_first_def log_represents_def length_history by arith
    then have "op_entry (history s ! (k - ?o)) = map op_entry (history s) ! (k - ?o)" by simp
    also have "\<dots> = drop (?o - 1) xs ! (k - ?o)"
      using assms by (simp add: log_represents_def)
    also have "\<dots> = xs ! (k - 1)"
      using range log_inv_sizes(5,6) [OF inv] assms by (simp add: log_first_def log_represents_def)
    finally show ?thesis
      using range True k inv assms
      by (simp add: log_lookup_def find_op_log word_le_nat_alt log_first_def log_represents_def)
  next
    case False
    then show ?thesis
      using True k inv assms
      by (auto simp: log_lookup_def find_op_log word_le_nat_alt log_first_def log_represents_def)
  qed
next
  case False
  then show ?thesis
    using assms unat_less_u32 [of "s_latest_op_id s"]
    by (simp add: log_lookup_def log_represents_def del: unat_less_u32)
qed

interpretation sender_log: operation_log log_represents log_first log_append sender_reclaim_history
  log_lookup
proof
  fix s s' :: num8lora_sender and xs :: "(u8 \<times> u32) list" and e :: "u8 \<times> u32" and k :: nat
  assume r: "log_represents s xs"
  then have inv: "log_inv s" and len: "length xs = unat (s_latest_op_id s)"
    by (simp_all add: log_represents_def)
  show "1 \<le> log_first s \<and> log_first s \<le> length xs + 1"
    using log_inv_sizes(5,6) [OF inv] by (simp add: log_first_def len)
  show "log_represents (sender_reclaim_history s) xs \<and> log_first s \<le> log_first (sender_reclaim_history s)"
    using log_represents_reclaim [OF r] reclaim_log(1,4) [OF inv] by (simp add: log_first_def)
  show "log_lookup s k = (if log_first s \<le> k \<and> k \<le> length xs then Some (xs ! (k - 1)) else None)"
    by (rule log_lookup_represents [OF r])
  assume a: "log_append s e = Some s'"
  then have t: "fst e = NUM8LORA_OP_ADD \<or> fst e = NUM8LORA_OP_REMOVE"
    and l: "s_latest_op_id s \<noteq> 0xFFFFFFFF"
    and "\<exists>o'. enqueue_op (Some s) (fst e) (snd e) None = (True, Some s', o')"
    by (auto simp: log_append_def split: if_splits prod.splits)
  moreover from l have "s_latest_op_id s < 0xFFFFFFFF"
    using unat_less_u32 [of "s_latest_op_id s"]
    by (simp add: word_less_nat_alt word_unat_eq_iff del: unat_less_u32)
  ultimately have "log_represents s' (xs @ [e])" "s_oldest_retained_op_id s' = reclaimed_to s"
    using log_represents_enqueue [OF r] by (metis prod.collapse)+
  then show "log_represents s' (xs @ [e]) \<and> log_first s \<le> log_first s' \<and> log_first s' \<le> length xs + 1"
    using reclaim_log(4,5) [OF inv] by (simp add: log_first_def len)
qed

lemma op_entry_new_ops: "map op_entry (new_ops type latest vs) = map (Pair type) vs"
  by (induction vs arbitrary: latest) (simp_all add: op_entry_def)

text \<open>The two lists become the next operations of the stream, removals first, or nothing changes.\<close>

lemma enqueue_lists_represents:
  assumes "log_represents s xs" "length rs = unat m" "length as = unat n"
    and "num8lora_sender_enqueue_lists (Some s) (Some rs) m (Some as) n (Some f0) (Some l0)
      = (ok, Some s', f1, l1)"
  shows "log_represents s' (xs @ (if ok
      then map (Pair NUM8LORA_OP_REMOVE) rs @ map (Pair NUM8LORA_OP_ADD) as else []))"
    and "slots s' = slots s"
proof -
  have inv: "log_inv s" using assms(1) by (simp add: log_represents_def)
  have "log_represents s' (xs @ (if ok
      then map (Pair NUM8LORA_OP_REMOVE) rs @ map (Pair NUM8LORA_OP_ADD) as else []))
      \<and> slots s' = slots s"
  proof (cases "rs @ as = []")
    case True
    then have "m = 0" "n = 0" using assms(2,3) by (simp_all add: word_unat_eq_iff)
    then show ?thesis
      using assms(1,4) True by (auto simp: num8lora_sender_enqueue_lists_def)
  next
    case False
    show ?thesis
    proof (cases "enqueue_lists_fits s rs as")
      case fits: True
      have s': "ok" "log_inv s'" "same_config s s'"
        "unat (s_latest_op_id s') = unat (s_latest_op_id s) + length rs + length as"
        "unat (s_oldest_retained_op_id s) \<le> unat (s_oldest_retained_op_id s')"
        "history s' = drop (unat (s_oldest_retained_op_id s') - unat (s_oldest_retained_op_id s))
          (history s @ new_ops NUM8LORA_OP_REMOVE (s_latest_op_id s) rs
            @ new_ops NUM8LORA_OP_ADD (s_latest_op_id s + m) as)"
        using enqueue_lists_log [OF inv assms(2,3) False fits, of f0 l0] assms(4) by auto
      let ?new = "map (Pair NUM8LORA_OP_REMOVE) rs @ map (Pair NUM8LORA_OP_ADD) as"
      have o: "1 \<le> unat (s_oldest_retained_op_id s)"
        "unat (s_oldest_retained_op_id s) - 1 \<le> length xs"
        using log_inv_sizes(5,6) [OF inv] assms(1) by (simp_all add: log_represents_def)
      have "map op_entry (history s') = drop (unat (s_oldest_retained_op_id s')
          - unat (s_oldest_retained_op_id s)) (drop (unat (s_oldest_retained_op_id s) - 1) xs @ ?new)"
        using assms(1) by (simp add: s'(6) drop_map [symmetric] op_entry_new_ops log_represents_def
          del: drop_append)
      also have "\<dots> = drop (unat (s_oldest_retained_op_id s') - 1) (xs @ ?new)"
        unfolding drop_append_le [OF o(2)] using o(1) s'(5) by (simp only: drop_drop) simp
      finally show ?thesis
        using s' assms(1) by (simp add: log_represents_def same_config_def)
    next
      case nofit: False
      then show ?thesis
        using enqueue_lists_refused [OF inv assms(2,3) nofit False, of f0 l0] assms(1,4) by auto
    qed
  qed
  then show "log_represents s' (xs @ (if ok
      then map (Pair NUM8LORA_OP_REMOVE) rs @ map (Pair NUM8LORA_OP_ADD) as else []))"
    "slots s' = slots s" by blast+
qed

end
