(* ===== verification/SenderSlots.thy ===== *)
theory SenderSlots
  imports SenderLog
begin

text \<open>
  The receiver slots of the sender and the invariant of the whole sender: the log invariant, and for
  every slot that a transmission in flight is for the operation after the last acknowledged one, is
  retained in the log, and has used at most \<open>max_retries\<close> retries. Every public operation preserves
  it. The lemmas on \<open>num8lora_sender_poll_tx\<close> and \<open>num8lora_sender_handle_rx\<close> say what is sent and
  what an accepted frame changes.
\<close>

subsection \<open>Updating a slot\<close>

lemma update_slot_fields [simp]:
  "s_sender_id (update_slot i f s) = s_sender_id s"
  "s_seq (update_slot i f s) = s_seq s"
  "s_stream_id (update_slot i f s) = s_stream_id s"
  "s_latest_op_id (update_slot i f s) = s_latest_op_id s"
  "s_oldest_retained_op_id (update_slot i f s) = s_oldest_retained_op_id s"
  "s_op_head (update_slot i f s) = s_op_head s"
  "s_poll_cursor (update_slot i f s) = s_poll_cursor s"
  "s_ack_timeout_ms (update_slot i f s) = s_ack_timeout_ms s"
  "s_max_retries (update_slot i f s) = s_max_retries s"
  "s_ops (update_slot i f s) = s_ops s"
  "s_op_capacity (update_slot i f s) = s_op_capacity s"
  "s_op_count (update_slot i f s) = s_op_count s"
  "s_receiver_capacity (update_slot i f s) = s_receiver_capacity s"
  "slots (update_slot i f s) = (slots s)[i := f (slots s ! i)]"
  by (simp_all add: update_slot_def deref_def split: option.splits)

lemma slots_only [simp]:
  "log_inv (update_slot i f s) = log_inv s" "history (update_slot i f s) = history s"
  "log_inv (s\<lparr>s_seq := q\<rparr>) = log_inv s" "history (s\<lparr>s_seq := q\<rparr>) = history s"
  "log_inv (s\<lparr>s_poll_cursor := c\<rparr>) = log_inv s" "history (s\<lparr>s_poll_cursor := c\<rparr>) = history s"
  by (simp_all add: log_inv_def history_def)

subsection \<open>The invariant\<close>

definition slot_ok :: "num8lora_sender \<Rightarrow> num8lora_sender_receiver_slot \<Rightarrow> bool" where
  "slot_ok s x \<longleftrightarrow>
    (if sl_waiting_ack x = 0 then sl_inflight_op_id x = 0 \<and> sl_retries x = 0
     else sl_active x \<noteq> 0 \<and> sl_exhausted x = 0
       \<and> unat (sl_inflight_op_id x) = unat (sl_last_acked_op_id x) + 1
       \<and> s_oldest_retained_op_id s \<le> sl_inflight_op_id x \<and> sl_inflight_op_id x \<le> s_latest_op_id s
       \<and> sl_retries x \<le> s_max_retries s)
    \<and> (sl_active x \<noteq> 0 \<longrightarrow> sl_receiver_id x \<noteq> 0)"

definition distinct_ids :: "num8lora_sender_receiver_slot list \<Rightarrow> bool" where
  "distinct_ids xs \<longleftrightarrow> (\<forall>i < length xs. \<forall>j < length xs.
    sl_active (xs ! i) \<noteq> 0 \<longrightarrow> sl_active (xs ! j) \<noteq> 0
      \<longrightarrow> sl_receiver_id (xs ! i) = sl_receiver_id (xs ! j) \<longrightarrow> i = j)"

lemma distinct_idsD:
  assumes "distinct_ids xs" "i < length xs" "j < length xs" "sl_active (xs ! i) \<noteq> 0"
    "sl_active (xs ! j) \<noteq> 0" "sl_receiver_id (xs ! i) = sl_receiver_id (xs ! j)"
  shows "i = j"
  using assms unfolding distinct_ids_def by blast

definition sender_inv :: "num8lora_sender \<Rightarrow> bool" where
  "sender_inv s \<longleftrightarrow> log_inv s \<and> length (slots s) = unat (s_receiver_capacity s)
    \<and> (\<forall>x \<in> set (slots s). slot_ok s x) \<and> distinct_ids (slots s)"

lemma sender_inv_slot:
  "sender_inv s \<Longrightarrow> i < unat (s_receiver_capacity s) \<Longrightarrow> slot_ok s (slots s ! i)"
  by (simp add: sender_inv_def)

lemma sender_inv_log: "sender_inv s \<Longrightarrow> log_inv s"
  by (simp add: sender_inv_def)

lemma sender_inv_length: "sender_inv s \<Longrightarrow> length (slots s) = unat (s_receiver_capacity s)"
  by (simp add: sender_inv_def)

lemma sender_inv_seq [simp]:
  "sender_inv (s\<lparr>s_seq := q\<rparr>) = sender_inv s"
  "sender_inv (s\<lparr>s_poll_cursor := c\<rparr>) = sender_inv s"
  by (simp_all add: sender_inv_def slot_ok_def)

text \<open>Changing one slot keeps the invariant if the slot stays legal and takes no one's id.\<close>

lemma sender_inv_update_slot:
  assumes "sender_inv s" "i < unat (s_receiver_capacity s)" "slot_ok s (f (slots s ! i))"
    and "sl_active (f (slots s ! i)) = 0
      \<or> (sl_active (slots s ! i) \<noteq> 0 \<and> sl_receiver_id (f (slots s ! i)) = sl_receiver_id (slots s ! i))
      \<or> (\<forall>j < unat (s_receiver_capacity s). sl_active (slots s ! j) \<noteq> 0
           \<longrightarrow> sl_receiver_id (slots s ! j) \<noteq> sl_receiver_id (f (slots s ! i)))"
  shows "sender_inv (update_slot i f s)"
proof -
  have ok: "slot_ok (update_slot i f s) x = slot_ok s x" for x
    by (simp add: slot_ok_def)
  have "\<forall>x \<in> set ((slots s)[i := f (slots s ! i)]). slot_ok s x"
    using assms(1,3) set_update_subset_insert [of "slots s" i "f (slots s ! i)"]
    by (auto simp: sender_inv_def)
  moreover have "distinct_ids ((slots s)[i := f (slots s ! i)])"
    using assms unfolding sender_inv_def distinct_ids_def
    by (simp add: nth_list_update) metis
  ultimately show ?thesis
    using assms(1) by (simp add: sender_inv_def ok)
qed

text \<open>Reclaiming keeps the invariant: what is in flight is never dropped.\<close>

lemma sender_inv_reclaim:
  assumes "sender_inv s"
  shows "sender_inv (sender_reclaim_history s)"
proof -
  note log = reclaim_log [OF sender_inv_log [OF assms]]
  have "slot_ok (sender_reclaim_history s) x" if mem: "x \<in> set (slots s)" for x
  proof -
    obtain i where i: "i < unat (s_receiver_capacity s)" "x = slots s ! i"
      using mem assms by (auto simp: in_set_conv_nth sender_inv_length)
    have ok: "slot_ok s x" using assms mem by (simp add: sender_inv_def)
    have "reclaimed_to s \<le> sl_inflight_op_id x" if w: "sl_waiting_ack x \<noteq> 0"
    proof -
      have "unat (sl_inflight_op_id x) = unat (sl_last_acked_op_id x) + 1"
        "sl_inflight_op_id x \<le> s_latest_op_id s" "s_oldest_retained_op_id s \<le> sl_inflight_op_id x"
        "sl_active x \<noteq> 0"
        using ok w by (simp_all add: slot_ok_def)
      moreover from this(1) have "sl_last_acked_op_id x + 1 = sl_inflight_op_id x"
        by (rule Suc_u32_eqI)
      ultimately show ?thesis
        using reclaimed_to_needed [OF i(1)] i(2) by simp
    qed
    then show ?thesis
      using ok by (simp add: slot_ok_def log(1))
  qed
  then show ?thesis
    using assms log(6) by (simp add: sender_inv_def)
qed

subsection \<open>Finding a receiver\<close>

lemma find_slot_const_eq: "find_slot_const = find_slot_mut"
  by (simp add: fun_eq_iff find_slot_const_def find_slot_mut_def)

lemma find_slot_Some:
  "find_slot_mut s rid = Some i \<Longrightarrow> i < unat (s_receiver_capacity s)
    \<and> sl_active (slots s ! i) \<noteq> 0 \<and> sl_receiver_id (slots s ! i) = rid"
  unfolding find_slot_mut_def by (drule find_upt_Some) simp

lemma find_slot_None:
  "find_slot_mut s rid = None \<longleftrightarrow> (\<forall>i < unat (s_receiver_capacity s).
    sl_active (slots s ! i) \<noteq> 0 \<longrightarrow> sl_receiver_id (slots s ! i) \<noteq> rid)"
  by (auto simp: find_slot_mut_def find_upt_None)

lemma find_slot_iff:
  assumes "sender_inv s"
  shows "find_slot_mut s rid = Some i \<longleftrightarrow> i < unat (s_receiver_capacity s)
    \<and> sl_active (slots s ! i) \<noteq> 0 \<and> sl_receiver_id (slots s ! i) = rid" (is "_ \<longleftrightarrow> ?r i")
proof
  assume r: "?r i"
  then have "find_slot_mut s rid \<noteq> None"
    unfolding find_slot_None by blast
  then obtain j where j: "find_slot_mut s rid = Some j" by blast
  then have "j = i"
    using r find_slot_Some [OF j] assms by (intro distinct_idsD [of "slots s"]) (simp_all add: sender_inv_def)
  with j show "find_slot_mut s rid = Some i" by simp
qed (rule find_slot_Some)

subsection \<open>Registration and progress\<close>

lemma register_cases:
  assumes "num8lora_sender_register_receiver (Some s) rid acked = (ok, Some s')"
  obtains (same) "s' = s" | (reclaimed) "s' = sender_reclaim_history s"
    | (added) i where "ok" "rid \<noteq> 0" "find_slot_mut (sender_reclaim_history s) rid = None"
      "i < unat (s_receiver_capacity s)" "sl_active (slots s ! i) = 0"
      "s' = update_slot i (\<lambda>x. x\<lparr>sl_active := 1, sl_receiver_id := rid,
        sl_last_acked_op_id := acked, sl_exhausted := 0\<rparr>) (sender_reclaim_history s)"
proof -
  let ?r = "sender_reclaim_history s"
  show ?thesis
  proof (cases "s_receivers s = None \<or> rid = 0 \<or> find_slot_mut ?r rid \<noteq> None")
    case True
    then have "s' = s \<or> s' = ?r"
      using assms by (auto simp: num8lora_sender_register_receiver_def Let_def find_slot_const_eq
        split: if_splits)
    then show ?thesis using same reclaimed by blast
  next
    case False
    then have new: "rid \<noteq> 0" "find_slot_mut ?r rid = None" by simp_all
    show ?thesis
    proof (cases "List.find (\<lambda>i. sl_active (slots s ! i) = 0) [0..<unat (s_receiver_capacity s)]")
      case None
      then have "s' = ?r"
        using False assms
        by (auto simp: num8lora_sender_register_receiver_def Let_def find_slot_const_eq
          split: if_splits)
      then show ?thesis by (rule reclaimed)
    next
      case (Some i)
      then have "ok \<and> s' = update_slot i (\<lambda>x. x\<lparr>sl_active := 1, sl_receiver_id := rid,
          sl_last_acked_op_id := acked, sl_exhausted := 0\<rparr>) ?r"
        using False assms
        by (auto simp: num8lora_sender_register_receiver_def Let_def find_slot_const_eq
          split: if_splits)
      then show ?thesis
        using new find_upt_Some [OF Some] by (intro added) simp_all
    qed
  qed
qed

lemma register_inv:
  assumes "sender_inv s" "num8lora_sender_register_receiver (Some s) rid acked = (ok, Some s')"
  shows "sender_inv s'"
  using assms(2)
proof (cases rule: register_cases)
  case (added i)
  let ?r = "sender_reclaim_history s"
  have inv: "sender_inv ?r" by (rule sender_inv_reclaim [OF assms(1)])
  then have "slot_ok ?r (slots ?r ! i)" by (rule sender_inv_slot) (simp add: added)
  then have "slot_ok ?r ((slots ?r ! i)\<lparr>sl_active := 1, sl_receiver_id := rid,
      sl_last_acked_op_id := acked, sl_exhausted := 0\<rparr>)"
    using added by (simp add: slot_ok_def split: if_splits)
  then show ?thesis
    using added inv find_slot_None [of ?r rid] by (auto intro!: sender_inv_update_slot)
qed (use assms(1) sender_inv_reclaim in simp_all)

lemma progress_cases:
  assumes "num8lora_sender_set_receiver_progress (Some s) rid acked = (ok, Some s')"
  obtains (unknown) "ok = False" "s' = s" "find_slot_mut s rid = None"
    | (known) i where "ok" "find_slot_mut s rid = Some i"
      "s' = sender_reclaim_history (update_slot i (\<lambda>x. x\<lparr>sl_last_acked_op_id := acked,
        sl_waiting_ack := 0, sl_inflight_op_id := 0, sl_retries := 0, sl_exhausted := 0\<rparr>) s)"
  using assms by (auto simp: num8lora_sender_set_receiver_progress_def split: option.splits)

lemma progress_inv:
  assumes "sender_inv s" "num8lora_sender_set_receiver_progress (Some s) rid acked = (ok, Some s')"
  shows "sender_inv s'"
  using assms(2)
proof (cases rule: progress_cases)
  case (known i)
  note i = find_slot_Some [OF known(2)]
  then have "slot_ok s (slots s ! i)" by (intro sender_inv_slot [OF assms(1)]) simp
  then show ?thesis
    using assms(1) known(3) i
    by (auto intro!: sender_inv_reclaim sender_inv_update_slot simp: slot_ok_def)
qed (use assms(1) in simp)

lemma unregister_cases:
  assumes "num8lora_sender_unregister_receiver (Some s) rid = (ok, Some s')"
  obtains (unknown) "ok = False" "s' = s" "find_slot_mut s rid = None"
    | (known) i where "ok" "find_slot_mut s rid = Some i"
      "s' = sender_reclaim_history (update_slot i (\<lambda>x. x\<lparr>sl_active := 0, sl_waiting_ack := 0,
        sl_inflight_op_id := 0, sl_retries := 0, sl_exhausted := 0\<rparr>) s)"
  using assms by (auto simp: num8lora_sender_unregister_receiver_def split: option.splits)

lemma unregister_inv:
  assumes "sender_inv s" "num8lora_sender_unregister_receiver (Some s) rid = (ok, Some s')"
  shows "sender_inv s'"
  using assms(2)
proof (cases rule: unregister_cases)
  case (known i)
  then show ?thesis
    using assms(1) find_slot_Some [OF known(2)]
    by (auto intro!: sender_inv_reclaim sender_inv_update_slot simp: slot_ok_def)
qed (use assms(1) in simp)

subsection \<open>Enqueueing\<close>

lemma sender_inv_log_grows:
  assumes "sender_inv s" "log_inv s'" "same_config s s'"
    and "s_oldest_retained_op_id s' = s_oldest_retained_op_id s"
    and "s_latest_op_id s \<le> s_latest_op_id s'"
  shows "sender_inv s'"
  using assms by (auto simp: sender_inv_def same_config_def slot_ok_def split: if_splits)

lemma enqueue_op_inv:
  assumes "sender_inv s" "s_latest_op_id s < 0xFFFFFFFF"
    and "type = NUM8LORA_OP_ADD \<or> type = NUM8LORA_OP_REMOVE"
    and "enqueue_op (Some s) type v out = (ok, Some s', out')"
  shows "sender_inv s'"
proof -
  have inv: "sender_inv (sender_reclaim_history s)" by (rule sender_inv_reclaim [OF assms(1)])
  note log = reclaim_log [OF sender_inv_log [OF assms(1)]]
  show ?thesis
    using sender_inv_log [OF assms(1)] assms(2,3)
  proof (cases rule: enqueue_op_cases [where v = v and out = out])
    case (added t)
    have "s_latest_op_id s \<le> s_latest_op_id s + 1"
      using assms(2) by (simp add: word_le_nat_alt unat_Suc_less_u32)
    then have "sender_inv t"
      using inv added log(1)
      by (intro sender_inv_log_grows [OF inv]) (auto simp: same_config_def)
    then show ?thesis using added(1) assms(4) by simp
  qed (use assms(1,4) inv in auto)
qed

subsection \<open>Initialisation\<close>

lemma zero_slots_inactive:
  assumes "32 * length xs \<le> unat n" "x \<in> set (zero_slots xs n)"
  shows "sl_active x = 0" "sl_waiting_ack x = 0" "sl_inflight_op_id x = 0" "sl_retries x = 0"
proof -
  obtain i where "i < length xs" "x = zero_slots xs n ! i"
    using assms(2) by (auto simp: in_set_conv_nth zero_slots_def)
  then show "sl_active x = 0" "sl_waiting_ack x = 0" "sl_inflight_op_id x = 0" "sl_retries x = 0"
    using assms(1) by (simp_all add: zero_slots_def nth_enumerate_eq zero_member_def)
qed

lemma length_zero_slots [simp]: "length (zero_slots xs n) = length xs"
  by (simp add: zero_slots_def)

lemma length_zero_ops [simp]: "length (zero_ops xs n) = length xs"
  by (simp add: zero_ops_def)

text \<open>
  With arrays of the stated sizes (and at most \<open>2 ^ 27 - 1\<close> slots, so that the byte count fits in 32
  bits) initialisation establishes the invariant whatever the memory held before.
\<close>

lemma storage_pair_valid:
  assumes "0 < c" "c \<le> 32"
  shows "sender_storage_pair_is_valid (Some xs) n c"
proof -
  have "unat (ucast n :: u64) \<le> unat ((-1) div c :: u64)"
  proof -
    have "unat c \<le> 32" "0 < unat c" using assms by (simp_all add: word_le_nat_alt word_less_nat_alt)
    then have "4294967296 * unat c \<le> unat (- 1 :: u64)"
      by (simp add: unsigned_minus_1_eq_mask mask_eq_exp_minus_1)
    then have "4294967296 \<le> unat (- 1 :: u64) div unat c"
      using \<open>0 < unat c\<close> by (simp add: less_eq_div_iff_mult_less_eq)
    then show ?thesis
      using unat_less_u32 [of n] by (simp add: unat_div del: unat_less_u32)
  qed
  then show ?thesis
    using assms(1) by (auto simp: sender_storage_pair_is_valid_def word_le_nat_alt)
qed

lemma init_state:
  assumes "length xs = unat m" "length ys = unat n"
  shows "num8lora_sender_init (Some s) sid stream timeout retries (Some xs) m (Some ys) n =
    Some \<lparr>s_sender_id = sid, s_seq = 1, s_stream_id = stream, s_latest_op_id = 0,
      s_oldest_retained_op_id = 1, s_op_head = 0, s_poll_cursor = 0, s_ack_timeout_ms = timeout,
      s_max_retries = retries,
      s_ops = Some (zero_ops xs (ucast ((ucast m :: u64) * 12))), s_op_capacity = m, s_op_count = 0,
      s_receivers = Some (zero_slots ys (ucast ((ucast n :: u64) * 32))), s_receiver_capacity = n\<rparr>"
  using storage_pair_valid [of 12 xs m] storage_pair_valid [of 32 ys n] assms
  by (auto simp: num8lora_sender_init_def Let_def zero_sender_def zero_ops_def zero_slots_def
    word_gt_0)

lemma init_slots_inactive:
  assumes "length ys = unat n" "unat n < 2 ^ 27"
  shows "\<forall>x \<in> set (zero_slots ys (ucast ((ucast n :: u64) * 32))). sl_active x = 0"
proof -
  have "unat (ucast ((ucast n :: u64) * 32) :: u32) = unat n * 32"
    using assms(2)
    by (simp add: unsigned_ucast_eq unsigned_take_bit_eq take_bit_eq_mod unat_word_ariths)
  then have "32 * length ys \<le> unat (ucast ((ucast n :: u64) * 32) :: u32)"
    using assms(1) by simp
  from zero_slots_inactive(1) [OF this] show ?thesis by blast
qed

lemma init_fields:
  assumes "length xs = unat m" "length ys = unat n"
    and "num8lora_sender_init (Some s) sid stream timeout retries (Some xs) m (Some ys) n = Some s'"
  shows "s_latest_op_id s' = 0" "s_oldest_retained_op_id s' = 1" "s_op_count s' = 0"
    "slots s' = zero_slots ys (ucast ((ucast n :: u64) * 32))" "s_seq s' = 1"
    "s_sender_id s' = sid" "s_stream_id s' = stream" "s_receiver_capacity s' = n"
  using assms(3) unfolding init_state [OF assms(1,2)] by (auto simp: deref_def)

lemma init_inv:
  assumes "length xs = unat m" "length ys = unat n" "unat m \<le> 2 ^ 31" "unat n < 2 ^ 27"
    and "num8lora_sender_init (Some s) sid stream timeout retries (Some xs) m (Some ys) n = Some s'"
  shows "sender_inv s'" "history s' = []"
proof -
  have "unat (ucast ((ucast n :: u64) * 32) :: u32) = unat n * 32"
    using assms(4)
    by (simp add: unsigned_ucast_eq unsigned_take_bit_eq take_bit_eq_mod unat_word_ariths)
  then have "32 * length ys \<le> unat (ucast ((ucast n :: u64) * 32) :: u32)"
    using assms(2) by simp
  note zero = zero_slots_inactive [OF this]
  show "history s' = []"
    using assms(5) init_state [OF assms(1,2)] by (auto simp: history_def)
  show "sender_inv s'"
    using assms(5) init_state [OF assms(1,2)] assms(1-3) zero
    by (auto simp: sender_inv_def log_inv_def slot_ok_def distinct_ids_def history_def deref_def)
qed

lemma enqueue_loop_inv:
  assumes "sender_inv s" "unat (s_latest_op_id s) + length vs < 2 ^ 32"
    and "type = NUM8LORA_OP_ADD \<or> type = NUM8LORA_OP_REMOVE"
    and "enqueue_loop type vs s first_id last_id = (ok, s', first_id', last_id')"
  shows "sender_inv s' \<and> unat (s_latest_op_id s') \<le> unat (s_latest_op_id s) + length vs"
  using assms
proof (induction vs arbitrary: s first_id last_id)
  case Nil
  then show ?case by simp
next
  case (Cons v vs)
  have latest: "s_latest_op_id s < 0xFFFFFFFF"
    using Cons.prems(2) by (simp add: word_less_nat_alt)
  show ?case
    using sender_inv_log [OF Cons.prems(1)] latest Cons.prems(3)
  proof (cases rule: enqueue_op_cases [where v = v and out = "Some last_id"])
    case refused
    then show ?thesis using Cons.prems(1,4) by auto
  next
    case full
    then show ?thesis using Cons.prems(4) sender_inv_reclaim [OF Cons.prems(1)] by auto
  next
    case (added t)
    have "sender_inv t"
      by (rule enqueue_op_inv [OF Cons.prems(1) latest Cons.prems(3) added(1)])
    moreover have "unat (s_latest_op_id t) = unat (s_latest_op_id s) + 1"
      using latest added(3) by (simp add: unat_Suc_less_u32)
    ultimately show ?thesis
      using Cons.IH [of t] Cons.prems(2-4) added(1) by fastforce
  qed
qed

lemma enqueue_lists_inv:
  assumes "sender_inv s" "length rs = unat m" "length as = unat n"
    and "num8lora_sender_enqueue_lists (Some s) (Some rs) m (Some as) n (Some f0) (Some l0)
      = (ok, Some s', f, l)"
  shows "sender_inv s'"
proof (cases "rs @ as = []")
  case True
  then have "m = 0" "n = 0"
    using assms(2,3) by (simp_all add: word_unat_eq_iff)
  then show ?thesis
    using assms(1,4) by (simp add: num8lora_sender_enqueue_lists_def)
next
  case False
  note guards = enqueue_lists_guards [OF assms(2,3) False
      log_inv_sizes(3) [OF sender_inv_log [OF assms(1)]], of f0 l0]
  show ?thesis
  proof (cases "enqueue_lists_fits s rs as")
    case fits: True
    obtain ok1 t f1 l1 where t: "enqueue_loop NUM8LORA_OP_REMOVE rs s 0 0 = (ok1, t, f1, l1)"
      by (metis prod.exhaust)
    obtain ok2 u f2 l2 where u: "enqueue_loop NUM8LORA_OP_ADD as t f1 l1 = (ok2, u, f2, l2)"
      by (metis prod.exhaust)
    have invt: "sender_inv t" "unat (s_latest_op_id t) \<le> unat (s_latest_op_id s) + length rs"
      using enqueue_loop_inv [OF assms(1) _ _ t] fits by (simp_all add: enqueue_lists_fits_def)
    moreover have "sender_inv u"
      using enqueue_loop_inv [OF invt(1) _ _ u] fits invt(2) by (simp add: enqueue_lists_fits_def)
    ultimately show ?thesis
      using assms(4) fits unfolding guards t by (auto simp: u split: if_splits)
  qed (use assms(1,4) guards in simp)
qed

end
