(* ===== verification/SenderTx.thy ===== *)
theory SenderTx
  imports SenderSlots
begin

text \<open>
  What the sender transmits and what it accepts: the effect of \<open>num8lora_sender_poll_tx\<close>,
  \<open>num8lora_sender_build_beacon\<close>, \<open>num8lora_sender_handle_request\<close> and \<open>num8lora_sender_handle_rx\<close>
  on the slots, and the frames they leave in the caller's buffer.
\<close>

subsection \<open>What transmissions leave alone\<close>

definition same_log :: "num8lora_sender \<Rightarrow> num8lora_sender \<Rightarrow> bool" where
  "same_log s s' \<longleftrightarrow> s_sender_id s' = s_sender_id s \<and> s_stream_id s' = s_stream_id s
    \<and> s_latest_op_id s' = s_latest_op_id s \<and> s_oldest_retained_op_id s' = s_oldest_retained_op_id s
    \<and> s_max_retries s' = s_max_retries s \<and> s_receiver_capacity s' = s_receiver_capacity s
    \<and> history s' = history s"

definition same_progress :: "num8lora_sender \<Rightarrow> num8lora_sender \<Rightarrow> bool" where
  "same_progress s s' \<longleftrightarrow> map (\<lambda>x. (sl_active x, sl_receiver_id x, sl_last_acked_op_id x)) (slots s')
    = map (\<lambda>x. (sl_active x, sl_receiver_id x, sl_last_acked_op_id x)) (slots s)"

lemma same_log_refl [simp]: "same_log s s"
  by (simp add: same_log_def)

lemma same_progress_refl [simp]: "same_progress s s"
  by (simp add: same_progress_def)

lemma same_log_trans: "same_log s t \<Longrightarrow> same_log t u \<Longrightarrow> same_log s u"
  by (simp add: same_log_def)

lemma same_progress_trans: "same_progress s t \<Longrightarrow> same_progress t u \<Longrightarrow> same_progress s u"
  by (simp add: same_progress_def)

lemma same_log_update_slot [simp]: "same_log s (update_slot i f s)"
  by (simp add: same_log_def)

lemma same_log_seq [simp]: "same_log s (s\<lparr>s_seq := q\<rparr>)" "same_log s (s\<lparr>s_poll_cursor := c\<rparr>)"
  by (simp_all add: same_log_def)

lemma same_progress_seq [simp]:
  "same_progress s (s\<lparr>s_seq := q\<rparr>)" "same_progress s (s\<lparr>s_poll_cursor := c\<rparr>)"
  by (simp_all add: same_progress_def)

lemma same_progress_update_slot:
  assumes "i < length (slots s) \<Longrightarrow> sl_active (f (slots s ! i)) = sl_active (slots s ! i)
    \<and> sl_receiver_id (f (slots s ! i)) = sl_receiver_id (slots s ! i)
    \<and> sl_last_acked_op_id (f (slots s ! i)) = sl_last_acked_op_id (slots s ! i)"
  shows "same_progress s (update_slot i f s)"
proof (cases "i < length (slots s)")
  case True
  then show ?thesis
    using assms by (simp add: same_progress_def map_update list_update_same_conv)
qed (simp add: same_progress_def list_update_beyond not_less)

lemma same_progress_nth:
  assumes "same_progress s s'" "i < length (slots s)"
  shows "sl_active (slots s' ! i) = sl_active (slots s ! i)"
    "sl_receiver_id (slots s' ! i) = sl_receiver_id (slots s ! i)"
    "sl_last_acked_op_id (slots s' ! i) = sl_last_acked_op_id (slots s ! i)"
proof -
  have len: "length (slots s') = length (slots s)"
    using assms(1) unfolding same_progress_def by (rule map_eq_imp_length_eq)
  have "map (\<lambda>x. (sl_active x, sl_receiver_id x, sl_last_acked_op_id x)) (slots s') ! i
      = map (\<lambda>x. (sl_active x, sl_receiver_id x, sl_last_acked_op_id x)) (slots s) ! i"
    using assms(1) by (simp add: same_progress_def)
  then show "sl_active (slots s' ! i) = sl_active (slots s ! i)"
    "sl_receiver_id (slots s' ! i) = sl_receiver_id (slots s ! i)"
    "sl_last_acked_op_id (slots s' ! i) = sl_last_acked_op_id (slots s ! i)"
    using assms(2) len by simp_all
qed

subsection \<open>One DATA frame\<close>

text \<open>The payload of the DATA frame for a retained operation.\<close>

definition data_payload :: "num8lora_sender \<Rightarrow> u32 \<Rightarrow> num8lora_op_data_payload" where
  "data_payload s op_id =
    (let x = history s ! (unat op_id - unat (s_oldest_retained_op_id s)) in
     \<lparr>dp_stream_id = s_stream_id s, dp_op_id = op_id, dp_op_type = so_op_type x,
      dp_reserved0 = 0, dp_reserved1 = 0, dp_value = so_value x\<rparr>)"

lemma find_op_payload:
  assumes "log_inv s" "s_oldest_retained_op_id s \<le> op_id" "op_id \<le> s_latest_op_id s"
  obtains x where "find_op s op_id = Some x" "so_op_id x = op_id" "op_legal x"
    "data_payload s op_id = \<lparr>dp_stream_id = s_stream_id s, dp_op_id = op_id,
      dp_op_type = so_op_type x, dp_reserved0 = 0, dp_reserved1 = 0, dp_value = so_value x\<rparr>"
proof -
  let ?k = "unat op_id - unat (s_oldest_retained_op_id s)"
  have "?k < unat (s_op_count s)"
    using assms(2,3) log_inv_sizes(5,6) [OF assms(1)] unfolding word_le_nat_alt by arith
  note entry = log_inv_entry [OF assms(1) this]
  have "so_op_id (history s ! ?k) = op_id"
    using entry(1) assms(2) by (simp add: word_unat_eq_iff word_le_nat_alt)
  then show ?thesis
    using entry(2) assms by (intro that [of "history s ! ?k"])
      (simp_all add: find_op_log data_payload_def Let_def)
qed

lemma emit_data_spec:
  assumes "log_inv s" "s_oldest_retained_op_id s \<le> op_id" "op_id \<le> s_latest_op_id s"
    and "unat cap \<le> length ob"
  shows "(\<exists>ob' l'. emit_data s i op_id (Some ob) cap (Some l) now = (True,
        update_slot i (\<lambda>x. x\<lparr>sl_inflight_op_id := op_id, sl_waiting_ack := 1, sl_exhausted := 0,
          sl_due_at_ms := deadline_after now (s_ack_timeout_ms s)\<rparr>) (s\<lparr>s_seq := s_seq s + 1\<rparr>), ob', l')
      \<and> emitted True ob' l' = Some (op_data_wire (s_sender_id s, sl_receiver_id (slots s ! i), s_seq s)
          (data_payload s op_id))
      \<and> op_data_valid (s_sender_id s, sl_receiver_id (slots s ! i), s_seq s) (data_payload s op_id))
    \<or> (\<exists>l' q. emit_data s i op_id (Some ob) cap (Some l) now
        = (False, s\<lparr>s_seq := q\<rparr>, Some ob, Some l'))"
proof -
  obtain x where x: "find_op s op_id = Some x" "so_op_id x = op_id"
    and pay: "data_payload s op_id = \<lparr>dp_stream_id = s_stream_id s, dp_op_id = op_id,
      dp_op_type = so_op_type x, dp_reserved0 = 0, dp_reserved1 = 0, dp_value = so_value x\<rparr>"
    by (rule find_op_payload [OF assms(1-3)])
  let ?a = "(s_sender_id s, sl_receiver_id (slots s ! i), s_seq s)"
  let ?enc = "num8lora_op_encode_data (Some ob) cap (s_sender_id s) (sl_receiver_id (slots s ! i))
    (s_seq s) (Some (data_payload s op_id)) (Some l)"
  have emit: "emit_data s i op_id (Some ob) cap (Some l) now =
    (if s_seq s = 0xFFFF then (False, s, Some ob, Some l)
     else case ?enc of (ok, out_buf, out_len) \<Rightarrow>
       let s = s\<lparr>s_seq := s_seq s + 1\<rparr> in
       if \<not> ok then (False, s, out_buf, out_len)
       else (True, update_slot i (\<lambda>x. x\<lparr>sl_inflight_op_id := op_id, sl_waiting_ack := 1,
         sl_exhausted := 0, sl_due_at_ms := deadline_after now (s_ack_timeout_ms s)\<rparr>) s,
         out_buf, out_len))"
    by (simp add: emit_data_def x pay Let_def split: prod.split)
  show ?thesis
  proof (cases "s_seq s = 0xFFFF")
    case True
    then have "emit_data s i op_id (Some ob) cap (Some l) now
        = (False, s\<lparr>s_seq := s_seq s\<rparr>, Some ob, Some l)"
      using emit by simp
    then show ?thesis by blast
  next
    case False
    show ?thesis
    proof (cases "op_data_valid ?a (data_payload s op_id) \<and> 26 \<le> unat cap")
      case True
      then have "?enc = (True, Some (overlay ob 0 (op_data_wire ?a (data_payload s op_id))), Some 26)"
        using encode_data_accepts assms(4) by simp
      then show ?thesis
        using emit False True assms(4)
        by (simp add: Let_def take_overlay_0 overlay_0)
    next
      case F: False
      then have "?enc = (False, Some ob, Some 0)"
        using encode_data_rejects by simp
      then show ?thesis using emit False by (simp add: Let_def) blast
    qed
  qed
qed

lemma emit_data_accepts:
  assumes "log_inv s" "s_oldest_retained_op_id s \<le> op_id" "op_id \<le> s_latest_op_id s"
    and "unat cap \<le> length ob" "26 \<le> unat cap" "s_seq s \<noteq> 0xFFFF" "s_sender_id s \<noteq> 0"
    and "sl_receiver_id (slots s ! i) \<noteq> 0" "s_stream_id s \<noteq> 0"
  shows "fst (emit_data s i op_id (Some ob) cap (Some l) now)"
proof -
  obtain x where x: "find_op s op_id = Some x" "so_op_id x = op_id" "op_legal x"
    by (rule find_op_payload [OF assms(1-3)])
  have "op_id \<noteq> 0"
    using log_inv_sizes(5) [OF assms(1)] assms(2) by (auto simp: word_le_nat_alt)
  then show ?thesis
    using assms(4-9) x
    by (auto simp: emit_data_def Let_def encode_data_accepts op_data_valid_def op_data_ok_def
      op_legal_def)
qed

subsection \<open>Polling\<close>

text \<open>
  \<open>transmitted now s s' j f\<close>: between \<open>s\<close> and \<open>s'\<close> slot \<open>j\<close> was served with the frame \<open>f\<close>. The frame
  carries the operation after the last one the receiver acknowledged; a retransmission is due and
  within the retry budget.
\<close>

definition transmitted :: "u64 \<Rightarrow> num8lora_sender \<Rightarrow> num8lora_sender \<Rightarrow> nat \<Rightarrow> u8 list \<Rightarrow> bool" where
  "transmitted now s s' j f \<longleftrightarrow>
    (let x = slots s ! j; y = slots s' ! j; nxt = sl_last_acked_op_id x + 1;
         a = (s_sender_id s, sl_receiver_id x, s_seq s) in
     j < unat (s_receiver_capacity s) \<and> sl_active x \<noteq> 0 \<and> sl_exhausted x = 0
     \<and> s_oldest_retained_op_id s \<le> nxt \<and> nxt \<le> s_latest_op_id s
     \<and> op_data_valid a (data_payload s nxt) \<and> f = op_data_wire a (data_payload s nxt)
     \<and> (sl_waiting_ack x \<noteq> 0 \<longrightarrow> sl_due_at_ms x \<le> now \<and> sl_retries x < s_max_retries s)
     \<and> y = x\<lparr>sl_inflight_op_id := nxt, sl_waiting_ack := 1, sl_exhausted := 0,
           sl_due_at_ms := deadline_after now (s_ack_timeout_ms s),
           sl_retries := (if sl_waiting_ack x = 0 then 0 else sl_retries x + 1)\<rparr>
     \<and> s_seq s' = s_seq s + 1)"

definition polled :: "u64 \<Rightarrow> num8lora_sender \<Rightarrow> bool \<times> num8lora_sender \<times> u8 list ptr \<times> u32 ptr \<times> u16 ptr
    \<Rightarrow> bool" where
  "polled now s res \<longleftrightarrow> (case res of (ok, s', b, n, t) \<Rightarrow>
    sender_inv s' \<and> same_log s s' \<and> same_progress s s'
    \<and> (ok \<longrightarrow> (\<exists>j f. transmitted now s s' j f \<and> emitted ok b n = Some f
        \<and> t = Some (sl_receiver_id (slots s ! j)))))"

lemma update_slot_twice:
  "i < length (slots s) \<Longrightarrow>
    update_slot i f (update_slot i g s) = update_slot i (\<lambda>x. f (g x)) s"
  by (cases "s_receivers s") (simp_all add: update_slot_def deref_def)

lemma update_slot_commutes:
  "(update_slot i f s)\<lparr>s_seq := q\<rparr> = update_slot i f (s\<lparr>s_seq := q\<rparr>)"
  "(update_slot i f s)\<lparr>s_poll_cursor := c\<rparr> = update_slot i f (s\<lparr>s_poll_cursor := c\<rparr>)"
  by (simp_all add: update_slot_def)

lemma data_payload_same_log: "same_log s s' \<Longrightarrow> data_payload s' nxt = data_payload s nxt"
  by (simp add: data_payload_def same_log_def)

lemma transmit_inv:
  assumes "sender_inv s" "i < unat (s_receiver_capacity s)" "sl_active (slots s ! i) \<noteq> 0"
    and "s_oldest_retained_op_id s \<le> sl_last_acked_op_id (slots s ! i) + 1"
    and "sl_last_acked_op_id (slots s ! i) + 1 \<le> s_latest_op_id s" "r \<le> s_max_retries s"
  shows "sender_inv (update_slot i (\<lambda>x. x\<lparr>sl_inflight_op_id := sl_last_acked_op_id x + 1,
    sl_waiting_ack := 1, sl_exhausted := 0, sl_due_at_ms := d, sl_retries := r\<rparr>) s)"
proof -
  have "sl_last_acked_op_id (slots s ! i) + 1 \<noteq> 0"
    using assms(4) log_inv_sizes(5) [OF sender_inv_log [OF assms(1)]] by (auto simp: word_le_nat_alt)
  then have "unat (sl_last_acked_op_id (slots s ! i) + 1) = unat (sl_last_acked_op_id (slots s ! i)) + 1"
    by (simp add: unat_Suc_neq_0_u32)
  then show ?thesis
    using assms sender_inv_slot [OF assms(1,2)]
    by (intro sender_inv_update_slot) (auto simp: slot_ok_def)
qed

lemma exhaust_inv:
  assumes "sender_inv s" "i < unat (s_receiver_capacity s)" "sl_active (slots s ! i) \<noteq> 0"
  shows "sender_inv (update_slot i (\<lambda>x. x\<lparr>sl_waiting_ack := 0, sl_inflight_op_id := 0,
    sl_retries := 0, sl_exhausted := 1\<rparr>) s)"
  using assms sender_inv_slot [OF assms(1,2)]
  by (intro sender_inv_update_slot) (auto simp: slot_ok_def)

lemma retry_inv:
  assumes "sender_inv s" "i < unat (s_receiver_capacity s)" "sl_waiting_ack (slots s ! i) \<noteq> 0"
    and "sl_retries (slots s ! i) < s_max_retries s"
  shows "sender_inv (update_slot i (\<lambda>x. x\<lparr>sl_retries := sl_retries x + 1\<rparr>) s)"
  using assms sender_inv_slot [OF assms(1,2)] inc_le [OF assms(4)]
  by (intro sender_inv_update_slot) (auto simp: slot_ok_def)

text \<open>A poll that starts by giving up on a receiver continues as if that receiver were skipped.\<close>

lemma polled_after_exhaust:
  assumes "polled now (update_slot i (\<lambda>x. x\<lparr>sl_waiting_ack := 0, sl_inflight_op_id := 0,
      sl_retries := 0, sl_exhausted := 1\<rparr>) s) res" (is "polled now ?t res")
    and "i < length (slots s)"
  shows "polled now s res"
proof -
  have log: "same_log s ?t" and prog: "same_progress s ?t"
    by simp (rule same_progress_update_slot, simp)
  have "transmitted now s s' j f" if "transmitted now ?t s' j f" for s' j f
  proof -
    have "j \<noteq> i"
      using that assms(2) by (auto simp: transmitted_def Let_def)
    then show ?thesis
      using that by (auto simp: transmitted_def Let_def data_payload_same_log [OF log])
  qed
  moreover have "sl_receiver_id (slots ?t ! j) = sl_receiver_id (slots s ! j)" for j
    using same_progress_nth(2) [OF prog] assms(2) by (cases "j = i") simp_all
  ultimately show ?thesis
    using assms(1) same_log_trans [OF log] same_progress_trans [OF prog]
    unfolding polled_def by (fastforce split: prod.splits)
qed

lemma update_slot_cong:
  "f (slots s ! i) = g (slots s ! i) \<Longrightarrow> update_slot i f s = update_slot i g s"
  by (cases "s_receivers s") (simp_all add: update_slot_def deref_def)

lemma transmit_polled:
  fixes s :: num8lora_sender and i :: nat
  defines "x \<equiv> slots s ! i" and "nxt \<equiv> sl_last_acked_op_id (slots s ! i) + 1"
  assumes "sender_inv s" "i < unat (s_receiver_capacity s)" "sl_active x \<noteq> 0" "sl_exhausted x = 0"
    and "s_oldest_retained_op_id s \<le> nxt" "nxt \<le> s_latest_op_id s"
    and "sl_waiting_ack x \<noteq> 0 \<longrightarrow> sl_due_at_ms x \<le> now \<and> sl_retries x < s_max_retries s"
    and "emitted True b n = Some (op_data_wire (s_sender_id s, sl_receiver_id x, s_seq s)
          (data_payload s nxt))"
    and "op_data_valid (s_sender_id s, sl_receiver_id x, s_seq s) (data_payload s nxt)"
    and f: "f x = x\<lparr>sl_inflight_op_id := nxt, sl_waiting_ack := 1, sl_exhausted := 0,
           sl_due_at_ms := deadline_after now (s_ack_timeout_ms s),
           sl_retries := (if sl_waiting_ack x = 0 then 0 else sl_retries x + 1)\<rparr>"
  shows "polled now s (True, update_slot i f (s\<lparr>s_seq := s_seq s + 1, s_poll_cursor := c\<rparr>), b, n,
    Some (sl_receiver_id x))"
proof -
  let ?s = "s\<lparr>s_seq := s_seq s + 1, s_poll_cursor := c\<rparr>"
  define r where "r = (if sl_waiting_ack x = 0 then 0 else sl_retries x + 1)"
  let ?g = "\<lambda>x. x\<lparr>sl_inflight_op_id := sl_last_acked_op_id x + 1, sl_waiting_ack := 1,
    sl_exhausted := 0, sl_due_at_ms := deadline_after now (s_ack_timeout_ms s), sl_retries := r\<rparr>"
  have len: "i < length (slots s)" using assms(3,4) by (simp add: sender_inv_length)
  have "r \<le> s_max_retries s"
    using assms(9) inc_le [of "sl_retries x" "s_max_retries s"] by (auto simp: r_def)
  then have "sender_inv (update_slot i ?g ?s)"
    using assms(3-8) unfolding x_def nxt_def by (intro transmit_inv) simp_all
  moreover have "update_slot i f ?s = update_slot i ?g ?s"
    using f by (intro update_slot_cong) (simp add: r_def x_def [symmetric] nxt_def [folded x_def])
  ultimately have "sender_inv (update_slot i f ?s)" by simp
  moreover have "same_log s (update_slot i f ?s)"
    by (simp add: same_log_def)
  moreover have "same_progress s (update_slot i f ?s)"
    using f same_progress_update_slot [of i ?s f] by (simp add: x_def same_progress_def)
  moreover have "transmitted now s (update_slot i f ?s) i
      (op_data_wire (s_sender_id s, sl_receiver_id x, s_seq s) (data_payload s nxt))"
    using assms(4-9,11) f len
    by (simp add: transmitted_def Let_def x_def [symmetric] nxt_def [folded x_def])
  ultimately show ?thesis
    using assms(10) by (auto simp: polled_def x_def)
qed

lemma polled_skip:
  "sender_inv s \<Longrightarrow> polled now s (False, s, b, n, t)"
  by (simp add: polled_def)

text \<open>One iteration, with the slot it looks at named.\<close>

definition poll_index :: "num8lora_sender \<Rightarrow> u32 \<Rightarrow> u32 \<Rightarrow> u32" where
  "poll_index s start i =
    (if start + i \<ge> s_receiver_capacity s then (start + i) mod s_receiver_capacity s else start + i)"

lemma poll_index_bound: "s_receiver_capacity s \<noteq> 0 \<Longrightarrow> unat (poll_index s start i) < unat (s_receiver_capacity s)"
  by (auto simp: poll_index_def word_le_nat_alt not_le unat_mod word_neq_0_unat)

lemma poll_loop_step:
  assumes "n = unat (poll_index s start i)" "x = slots s ! n"
  shows "poll_loop (Suc k) start i s now b cap m (Some t) =
    (if sl_active x = 0 \<or> sl_exhausted x \<noteq> 0 then poll_loop k start (i + 1) s now b cap m (Some t)
     else if sl_waiting_ack x \<noteq> 0 then
       if now < sl_due_at_ms x then poll_loop k start (i + 1) s now b cap m (Some t)
       else if sl_retries x \<ge> s_max_retries s then
         poll_loop k start (i + 1) (update_slot n (\<lambda>x. x\<lparr>sl_waiting_ack := 0, sl_inflight_op_id := 0,
           sl_retries := 0, sl_exhausted := 1\<rparr>) s) now b cap m (Some t)
       else (case emit_data (update_slot n (\<lambda>x. x\<lparr>sl_retries := sl_retries x + 1\<rparr>) s) n
               (sl_inflight_op_id x) b cap m now of
           (ok, s', b', m') \<Rightarrow>
             if \<not> ok then (False, s', b', m', Some t)
             else (True, s'\<lparr>s_poll_cursor := (poll_index s start i + 1) mod s_receiver_capacity s'\<rparr>,
               b', m', Some (sl_receiver_id x)))
     else if sl_last_acked_op_id x + 1 > s_latest_op_id s
        \<or> sl_last_acked_op_id x + 1 < s_oldest_retained_op_id s
       then poll_loop k start (i + 1) s now b cap m (Some t)
     else (case emit_data s n (sl_last_acked_op_id x + 1) b cap m now of
           (ok, s', b', m') \<Rightarrow>
             if \<not> ok then (False, s', b', m', Some t)
             else (True, (update_slot n (\<lambda>x. x\<lparr>sl_retries := 0\<rparr>) s')
                 \<lparr>s_poll_cursor := (poll_index s start i + 1) mod s_receiver_capacity s'\<rparr>,
               b', m', Some (sl_receiver_id x))))"
  unfolding assms poll_loop.simps(2) Let_def poll_index_def [symmetric] store_simps
  by (simp split: prod.split del: poll_loop.simps)

text \<open>A new operation for an idle receiver, and a retransmission to one that is late.\<close>

lemma fresh_polled:
  assumes inv: "sender_inv s" and n: "n < unat (s_receiver_capacity s)" and buf: "unat cap \<le> length ob"
    and act: "sl_active (slots s ! n) \<noteq> 0" "sl_exhausted (slots s ! n) = 0" "sl_waiting_ack (slots s ! n) = 0"
  defines "nxt \<equiv> sl_last_acked_op_id (slots s ! n) + 1"
  assumes range: "s_oldest_retained_op_id s \<le> nxt" "nxt \<le> s_latest_op_id s"
  shows "polled now s (case emit_data s n nxt (Some ob) cap (Some l) now of
    (ok, s', b', m') \<Rightarrow>
      if \<not> ok then (False, s', b', m', Some t)
      else (True, (update_slot n (\<lambda>x. x\<lparr>sl_retries := 0\<rparr>) s')
          \<lparr>s_poll_cursor := (poll_index s start i + 1) mod s_receiver_capacity s'\<rparr>,
        b', m', Some (sl_receiver_id (slots s ! n))))" (is "polled now s ?res")
  using emit_data_spec [OF sender_inv_log [OF inv] range buf, of n l now]
proof (elim disjE exE conjE)
  have len: "n < length (slots s)" using n inv by (simp add: sender_inv_length)
  fix b m
  assume e: "emit_data s n nxt (Some ob) cap (Some l) now = (True,
      update_slot n (\<lambda>x. x\<lparr>sl_inflight_op_id := nxt, sl_waiting_ack := 1,
        sl_exhausted := 0, sl_due_at_ms := deadline_after now (s_ack_timeout_ms s)\<rparr>)
        (s\<lparr>s_seq := s_seq s + 1\<rparr>), b, m)"
    and f: "emitted True b m = Some (op_data_wire
        (s_sender_id s, sl_receiver_id (slots s ! n), s_seq s) (data_payload s nxt))"
      "op_data_valid (s_sender_id s, sl_receiver_id (slots s ! n), s_seq s) (data_payload s nxt)"
  have "?res = (True, update_slot n (\<lambda>x. x\<lparr>sl_inflight_op_id := nxt, sl_waiting_ack := 1,
        sl_exhausted := 0, sl_due_at_ms := deadline_after now (s_ack_timeout_ms s),
        sl_retries := 0\<rparr>)
      (s\<lparr>s_seq := s_seq s + 1, s_poll_cursor := (poll_index s start i + 1) mod s_receiver_capacity s\<rparr>),
      b, m, Some (sl_receiver_id (slots s ! n)))"
    using len unfolding e by (simp add: update_slot_twice update_slot_commutes)
  then show ?thesis
    using inv n act range f unfolding nxt_def
    by (simp only:) (intro transmit_polled; simp)
qed (use inv in \<open>auto simp: polled_def\<close>)

lemma retry_polled:
  assumes inv: "sender_inv s" and n: "n < unat (s_receiver_capacity s)" and buf: "unat cap \<le> length ob"
    and act: "sl_active (slots s ! n) \<noteq> 0" "sl_exhausted (slots s ! n) = 0"
    and waiting: "sl_waiting_ack (slots s ! n) \<noteq> 0"
    and lt: "sl_retries (slots s ! n) < s_max_retries s" and due: "sl_due_at_ms (slots s ! n) \<le> now"
  shows "polled now s (case emit_data (update_slot n (\<lambda>x. x\<lparr>sl_retries := sl_retries x + 1\<rparr>) s) n
      (sl_inflight_op_id (slots s ! n)) (Some ob) cap (Some l) now of
     (ok, s', b', m') \<Rightarrow>
       if \<not> ok then (False, s', b', m', Some t)
       else (True, s'\<lparr>s_poll_cursor := (poll_index s start i + 1) mod s_receiver_capacity s'\<rparr>,
         b', m', Some (sl_receiver_id (slots s ! n))))" (is "polled now s ?res")
proof -
  let ?x = "slots s ! n"
  let ?s = "update_slot n (\<lambda>x. x\<lparr>sl_retries := sl_retries x + 1\<rparr>) s"
  have len: "n < length (slots s)" using n inv by (simp add: sender_inv_length)
  have ok: "slot_ok s ?x" using sender_inv_slot [OF inv n] by simp
  have infl: "sl_last_acked_op_id ?x + 1 = sl_inflight_op_id ?x"
    using ok waiting by (intro Suc_u32_eqI) (simp add: slot_ok_def)
  have r: "s_oldest_retained_op_id s \<le> sl_inflight_op_id ?x" "sl_inflight_op_id ?x \<le> s_latest_op_id s"
    using ok waiting by (simp_all add: slot_ok_def)
  have inv': "sender_inv ?s"
    using inv n waiting lt by (rule retry_inv)
  have prog: "same_progress s ?s" by (rule same_progress_update_slot) simp
  have pay: "data_payload ?s k = data_payload s k" for k
    by (rule data_payload_same_log) simp
  have rid: "sl_receiver_id (slots ?s ! n) = sl_receiver_id ?x"
    using len by simp
  have r': "s_oldest_retained_op_id ?s \<le> sl_inflight_op_id ?x" "sl_inflight_op_id ?x \<le> s_latest_op_id ?s"
    using r by simp_all
  show ?thesis
    using emit_data_spec [OF sender_inv_log [OF inv'] r' buf, of n l now, unfolded rid pay]
  proof (elim disjE exE conjE)
    fix b m
    assume e: "emit_data ?s n (sl_inflight_op_id ?x) (Some ob) cap (Some l) now = (True,
        update_slot n (\<lambda>y. y\<lparr>sl_inflight_op_id := sl_inflight_op_id ?x, sl_waiting_ack := 1,
          sl_exhausted := 0, sl_due_at_ms := deadline_after now (s_ack_timeout_ms ?s)\<rparr>)
          (?s\<lparr>s_seq := s_seq ?s + 1\<rparr>), b, m)"
      and f: "emitted True b m = Some (op_data_wire
          (s_sender_id ?s, sl_receiver_id ?x, s_seq ?s) (data_payload s (sl_inflight_op_id ?x)))"
        "op_data_valid (s_sender_id ?s, sl_receiver_id ?x, s_seq ?s)
          (data_payload s (sl_inflight_op_id ?x))"
    have res: "?res = (True, update_slot n (\<lambda>y. y\<lparr>sl_retries := sl_retries y + 1,
          sl_inflight_op_id := sl_inflight_op_id ?x, sl_waiting_ack := 1,
          sl_exhausted := 0, sl_due_at_ms := deadline_after now (s_ack_timeout_ms s)\<rparr>)
        (s\<lparr>s_seq := s_seq s + 1, s_poll_cursor := (poll_index s start i + 1) mod s_receiver_capacity s\<rparr>),
        b, m, Some (sl_receiver_id ?x))"
      using len unfolding e by (simp add: update_slot_twice update_slot_commutes)
    show ?thesis
      unfolding res using inv n act waiting r f lt due
      by (intro transmit_polled; simp add: infl)
  qed (use inv' prog in \<open>auto simp: polled_def same_log_def same_progress_def\<close>)
qed

lemma poll_loop_polled:
  assumes "sender_inv s" "s_receiver_capacity s \<noteq> 0" "unat cap \<le> length ob"
  shows "polled now s (poll_loop k start i s now (Some ob) cap (Some l) (Some t))"
  using assms
proof (induction k arbitrary: i s)
  case 0
  then show ?case by (simp add: polled_skip)
next
  case (Suc k)
  define n where "n = unat (poll_index s start i)"
  define x where "x = slots s ! n"
  let ?continue = "\<lambda>s. poll_loop k start (i + 1) s now (Some ob) cap (Some l) (Some t)"
  let ?gone = "update_slot n (\<lambda>x. x\<lparr>sl_waiting_ack := 0, sl_inflight_op_id := 0,
    sl_retries := 0, sl_exhausted := 1\<rparr>) s"
  note step = poll_loop_step [OF n_def x_def, of k now "Some ob" cap "Some l" t]
  have n: "n < unat (s_receiver_capacity s)"
    using Suc.prems(2) by (simp add: n_def poll_index_bound)
  have len: "n < length (slots s)" using n Suc.prems(1) by (simp add: sender_inv_length)
  consider (skip) "sl_active x = 0 \<or> sl_exhausted x \<noteq> 0
      \<or> sl_waiting_ack x = 0 \<and> (sl_last_acked_op_id x + 1 > s_latest_op_id s
         \<or> sl_last_acked_op_id x + 1 < s_oldest_retained_op_id s)
      \<or> sl_waiting_ack x \<noteq> 0 \<and> now < sl_due_at_ms x"
    | (fresh) "sl_active x \<noteq> 0" "sl_exhausted x = 0" "sl_waiting_ack x = 0"
      "s_oldest_retained_op_id s \<le> sl_last_acked_op_id x + 1" "sl_last_acked_op_id x + 1 \<le> s_latest_op_id s"
    | (exhaust) "sl_active x \<noteq> 0" "sl_exhausted x = 0" "sl_waiting_ack x \<noteq> 0" "\<not> now < sl_due_at_ms x"
      "s_max_retries s \<le> sl_retries x"
    | (retry) "sl_active x \<noteq> 0" "sl_exhausted x = 0" "sl_waiting_ack x \<noteq> 0" "\<not> now < sl_due_at_ms x"
      "\<not> s_max_retries s \<le> sl_retries x"
    by (meson not_less)
  then show ?case
  proof cases
    case skip
    then have "poll_loop (Suc k) start i s now (Some ob) cap (Some l) (Some t) = ?continue s"
      unfolding step by auto
    then show ?thesis using Suc by simp
  next
    case fresh
    then have "\<not> s_latest_op_id s < sl_last_acked_op_id x + 1" "\<not> sl_last_acked_op_id x + 1 < s_oldest_retained_op_id s"
      by (simp_all add: not_less)
    then show ?thesis
      unfolding step using fresh fresh_polled [OF Suc.prems(1) n Suc.prems(3), folded x_def] by simp
  next
    case exhaust
    then have res: "poll_loop (Suc k) start i s now (Some ob) cap (Some l) (Some t) = ?continue ?gone"
      unfolding step by simp
    have "sender_inv ?gone"
      using Suc.prems(1) n exhaust(1) unfolding x_def by (rule exhaust_inv)
    then have "polled now ?gone (?continue ?gone)"
      using Suc.prems(2,3) by (intro Suc.IH) simp_all
    then show ?thesis unfolding res using len by (rule polled_after_exhaust)
  next
    case retry
    then have "sl_retries x < s_max_retries s" "sl_due_at_ms x \<le> now" by simp_all
    then show ?thesis
      unfolding step using retry retry_polled [OF Suc.prems(1) n Suc.prems(3), folded x_def] by simp
  qed
qed

lemma poll_tx_polled:
  assumes "sender_inv s" "unat cap \<le> length ob"
  shows "\<exists>ok s' b n t'. num8lora_sender_poll_tx (Some s) now (Some ob) cap (Some l) (Some t)
      = (ok, Some s', b, n, t') \<and> polled now (sender_reclaim_history s) (ok, s', b, n, t')"
proof (cases "s_receiver_capacity s = 0")
  case True
  then show ?thesis
    using sender_inv_reclaim [OF assms(1)]
    by (intro exI [of _ False]) (simp add: num8lora_sender_poll_tx_def Let_def polled_skip)
next
  case False
  let ?r = "sender_reclaim_history s"
  let ?res = "poll_loop (unat (s_receiver_capacity s)) (s_poll_cursor s mod s_receiver_capacity s) 0
    ?r now (Some ob) cap (Some 0) (Some 0)"
  have "polled now ?r ?res"
    using sender_inv_reclaim [OF assms(1)] False assms(2) by (intro poll_loop_polled) simp_all
  then show ?thesis
    using False by (cases ?res) (simp add: num8lora_sender_poll_tx_def Let_def)
qed

text \<open>A poll serves somebody whenever somebody can be served.\<close>

definition servable :: "u64 \<Rightarrow> num8lora_sender \<Rightarrow> num8lora_sender_receiver_slot \<Rightarrow> bool" where
  "servable now s x \<longleftrightarrow> sl_active x \<noteq> 0 \<and> sl_exhausted x = 0
    \<and> (if sl_waiting_ack x \<noteq> 0 then sl_due_at_ms x \<le> now \<and> sl_retries x < s_max_retries s
       else s_oldest_retained_op_id s \<le> sl_last_acked_op_id x + 1
         \<and> sl_last_acked_op_id x + 1 \<le> s_latest_op_id s)"

definition can_transmit :: "num8lora_sender \<Rightarrow> bool" where
  "can_transmit s \<longleftrightarrow> s_seq s \<noteq> 0xFFFF \<and> s_sender_id s \<noteq> 0 \<and> s_stream_id s \<noteq> 0"

lemma poll_loop_serves:
  assumes "sender_inv s" "s_receiver_capacity s \<noteq> 0" "unat cap \<le> length ob" "26 \<le> unat cap"
    and "can_transmit s" "servable now s (slots s ! j)"
    and "\<exists>m < k. unat (poll_index s start (i + of_nat m)) = j"
  shows "fst (poll_loop k start i s now (Some ob) cap (Some l) (Some t))"
  using assms(1,2,5-7)
proof (induction k arbitrary: i s)
  case 0
  then show ?case by simp
next
  case (Suc k)
  define n where "n = unat (poll_index s start i)"
  define x where "x = slots s ! n"
  note step = poll_loop_step [OF n_def x_def, of k now "Some ob" cap "Some l" t]
  have n: "n < unat (s_receiver_capacity s)"
    using Suc.prems(2) by (simp add: n_def poll_index_bound)
  have len: "n < length (slots s)" using n Suc.prems(1) by (simp add: sender_inv_length)
  have ok: "slot_ok s x" using sender_inv_slot [OF Suc.prems(1) n] by (simp add: x_def)
  have rid: "sl_active x \<noteq> 0 \<Longrightarrow> sl_receiver_id x \<noteq> 0" using ok by (simp add: slot_ok_def)
  have later: "\<exists>m < k. unat (poll_index s start (i + 1 + of_nat m)) = j" if neq: "j \<noteq> n"
  proof -
    obtain m where m: "m < Suc k" "unat (poll_index s start (i + of_nat m)) = j"
      using Suc.prems(5) by blast
    then obtain m' where "m = Suc m'" using neq n_def by (cases m) simp_all
    then show ?thesis using m by (intro exI [of _ m']) (simp add: add.assoc)
  qed
  show ?case
  proof (cases "servable now s x")
    case False
    then have j: "j \<noteq> n" using Suc.prems(4) x_def by blast
    let ?gone = "update_slot n (\<lambda>x. x\<lparr>sl_waiting_ack := 0, sl_inflight_op_id := 0,
      sl_retries := 0, sl_exhausted := 1\<rparr>) s"
    have skip: "fst (poll_loop k start (i + 1) s now (Some ob) cap (Some l) (Some t))"
      using Suc later [OF j] by blast
    have gone: "fst (poll_loop k start (i + 1) ?gone now (Some ob) cap (Some l) (Some t))"
      if "sl_active x \<noteq> 0"
    proof (rule Suc.IH)
      show "sender_inv ?gone" using Suc.prems(1) n that unfolding x_def by (rule exhaust_inv)
      show "servable now ?gone (slots ?gone ! j)" using Suc.prems(4) j by (simp add: servable_def)
      show "\<exists>m<k. unat (poll_index ?gone start (i + 1 + of_nat m)) = j"
        using later [OF j] by (simp only: poll_index_def update_slot_fields)
    qed (use Suc.prems(2,3) in \<open>simp_all add: can_transmit_def\<close>)
    show ?thesis
      using False skip gone unfolding step servable_def by (auto simp: not_less split: if_splits)
  next
    case True
    let ?s = "update_slot n (\<lambda>x. x\<lparr>sl_retries := sl_retries x + 1\<rparr>) s"
    have idle: "fst (emit_data s n (sl_last_acked_op_id x + 1) (Some ob) cap (Some l) now)"
      if "sl_waiting_ack x = 0"
      using True that Suc.prems(3) rid sender_inv_log [OF Suc.prems(1)] assms(3,4)
      by (intro emit_data_accepts) (simp_all add: servable_def can_transmit_def x_def [symmetric])
    have retry: "fst (emit_data ?s n (sl_inflight_op_id x) (Some ob) cap (Some l) now)"
      if "sl_waiting_ack x \<noteq> 0"
      using True that ok Suc.prems(3) rid sender_inv_log [OF Suc.prems(1)] assms(3,4) len
      by (intro emit_data_accepts)
        (simp_all add: servable_def can_transmit_def x_def [symmetric] slot_ok_def)
    show ?thesis
      using True idle retry unfolding step servable_def
      by (auto simp: not_less not_le split: prod.splits if_splits)
  qed
qed

lemma poll_index_reaches:
  assumes "unat start < unat (s_receiver_capacity s)" "j < unat (s_receiver_capacity s)"
    and "unat (s_receiver_capacity s) \<le> 2 ^ 31"
  shows "\<exists>m < unat (s_receiver_capacity s). unat (poll_index s start (0 + of_nat m)) = j"
proof -
  let ?c = "unat (s_receiver_capacity s)"
  define m where "m = (if unat start \<le> j then j - unat start else j + ?c - unat start)"
  have m: "m < ?c" "m < 2 ^ 32" using assms by (auto simp: m_def)
  have um: "unat (of_nat m :: u32) = m" using m(2) by (simp add: unat_of_nat)
  have "unat start + m < 2 ^ 32" using assms m by simp
  then have sum: "unat (start + of_nat m) = unat start + m"
    by (simp add: unat_word_ariths um)
  have "unat (poll_index s start (0 + of_nat m)) = j"
    using assms by (simp add: poll_index_def word_le_nat_alt sum unat_mod)
      (auto simp: m_def le_mod_geq)
  then show ?thesis using m(1) by blast
qed

lemma poll_tx_serves:
  assumes "sender_inv s" "unat cap \<le> length ob" "26 \<le> unat cap" "can_transmit s"
    and "unat (s_receiver_capacity s) \<le> 2 ^ 31" "j < unat (s_receiver_capacity s)"
    and "servable now (sender_reclaim_history s) (slots s ! j)"
  shows "fst (num8lora_sender_poll_tx (Some s) now (Some ob) cap (Some l) (Some t))"
proof -
  let ?r = "sender_reclaim_history s" and ?start = "s_poll_cursor s mod s_receiver_capacity s"
  have nz: "s_receiver_capacity s \<noteq> 0" using assms(6) by auto
  have "fst (poll_loop (unat (s_receiver_capacity ?r)) ?start 0 ?r now (Some ob) cap (Some 0) (Some 0))"
    using assms(1-4,7) nz poll_index_reaches [of ?start ?r j] assms(5,6) sender_inv_reclaim
    by (intro poll_loop_serves [where j = j])
      (simp_all add: can_transmit_def unat_mod word_neq_0_unat)
  then show ?thesis
    using nz by (auto simp: num8lora_sender_poll_tx_def Let_def split: prod.splits)
qed

text \<open>
  When nobody can be served, a poll visits every slot, gives up the receivers whose last retransmission
  is overdue and hands out nothing.
\<close>

definition overdue :: "u64 \<Rightarrow> num8lora_sender_receiver_slot \<Rightarrow> bool" where
  "overdue now x \<longleftrightarrow> sl_active x \<noteq> 0 \<and> sl_waiting_ack x \<noteq> 0 \<and> sl_due_at_ms x \<le> now"

definition given_up :: "num8lora_sender_receiver_slot \<Rightarrow> num8lora_sender_receiver_slot" where
  "given_up x = x\<lparr>sl_waiting_ack := 0, sl_inflight_op_id := 0, sl_retries := 0, sl_exhausted := 1\<rparr>"

lemma poll_loop_idle:
  assumes "sender_inv s" "s_receiver_capacity s \<noteq> 0"
    and "\<And>j. j < unat (s_receiver_capacity s) \<Longrightarrow> \<not> servable now s (slots s ! j)"
  shows "\<exists>s'. poll_loop k start i s now b cap l (Some t) = (False, s', b, l, Some t)
    \<and> (\<forall>j < unat (s_receiver_capacity s). slots s' ! j =
      (if overdue now (slots s ! j) \<and> (\<exists>m < k. unat (poll_index s start (i + of_nat m)) = j)
       then given_up (slots s ! j) else slots s ! j))"
  using assms
proof (induction k arbitrary: i s)
  case 0
  then show ?case by simp
next
  case (Suc k)
  define n where "n = unat (poll_index s start i)"
  define x where "x = slots s ! n"
  note step = poll_loop_step [OF n_def x_def, of k now b cap l t]
  let ?gone = "update_slot n given_up s"
  have n: "n < unat (s_receiver_capacity s)"
    using Suc.prems(2) by (simp add: n_def poll_index_bound)
  have len: "n < length (slots s)" using n Suc.prems(1) by (simp add: sender_inv_length)
  have ok: "sl_waiting_ack x \<noteq> 0 \<Longrightarrow> sl_exhausted x = 0"
    using sender_inv_slot [OF Suc.prems(1) n] by (auto simp: slot_ok_def x_def)
  have visited: "(\<exists>m < Suc k. unat (poll_index s start (i + of_nat m)) = j)
      \<longleftrightarrow> j = n \<or> (\<exists>m < k. unat (poll_index s start (i + 1 + of_nat m)) = j)" for j
    unfolding Ex_less_Suc2 by (auto simp: n_def add.assoc)
  show ?case
  proof (cases "overdue now x")
    case True
    then have "poll_loop (Suc k) start i s now b cap l (Some t)
        = poll_loop k start (i + 1) ?gone now b cap l (Some t)"
      using Suc.prems(3) [OF n] ok unfolding step
      by (auto simp: overdue_def servable_def x_def [symmetric] given_up_def [abs_def] not_less dest: leD)
    moreover have "sender_inv ?gone"
      using exhaust_inv [OF Suc.prems(1) n] True by (simp add: overdue_def x_def given_up_def [abs_def])
    moreover have "servable now ?gone = servable now s" by (simp add: fun_eq_iff servable_def)
    moreover have "\<not> servable now s (slots ?gone ! j)" if "j < unat (s_receiver_capacity s)" for j
    proof (cases "j = n")
      case True
      then show ?thesis using len by (simp add: servable_def given_up_def)
    next
      case False
      then show ?thesis using Suc.prems(3) [OF that] by simp
    qed
    moreover have "poll_index ?gone = poll_index s" by (simp add: fun_eq_iff poll_index_def)
    ultimately show ?thesis
      using Suc.IH [of ?gone "i + 1"] Suc.prems(2) len True unfolding visited
      by (fastforce simp: nth_list_update x_def [symmetric] overdue_def given_up_def)
  next
    case False
    then have "poll_loop (Suc k) start i s now b cap l (Some t)
        = poll_loop k start (i + 1) s now b cap l (Some t)"
      using Suc.prems(3) [OF n] unfolding step
      by (auto simp: overdue_def servable_def x_def [symmetric] not_less not_le)
    then show ?thesis
      using Suc.IH [of s "i + 1"] Suc.prems False unfolding visited by (auto simp: x_def)
  qed
qed

lemma poll_tx_idle:
  assumes "sender_inv s" "unat (s_receiver_capacity s) \<le> 2 ^ 31"
    and "\<And>j. j < unat (s_receiver_capacity s) \<Longrightarrow> \<not> servable now (sender_reclaim_history s) (slots s ! j)"
  shows "\<exists>s'. num8lora_sender_poll_tx (Some s) now (Some ob) cap (Some l) (Some t)
      = (False, Some s', Some ob, Some 0, Some 0)
    \<and> (\<forall>j < unat (s_receiver_capacity s). slots s' ! j =
      (if overdue now (slots s ! j) then given_up (slots s ! j) else slots s ! j))"
proof (cases "s_receiver_capacity s = 0")
  case False
  let ?r = "sender_reclaim_history s" and ?start = "s_poll_cursor s mod s_receiver_capacity s"
  have "unat ?start < unat (s_receiver_capacity ?r)"
    using False by (simp add: unat_mod word_neq_0_unat)
  then have reach: "\<exists>m < unat (s_receiver_capacity ?r). unat (poll_index ?r ?start (0 + of_nat m)) = j"
    if "j < unat (s_receiver_capacity s)" for j
    using poll_index_reaches [of ?start ?r j] that assms(2) by simp
  obtain s' where "poll_loop (unat (s_receiver_capacity ?r)) ?start 0 ?r now (Some ob) cap (Some 0) (Some 0)
      = (False, s', Some ob, Some 0, Some 0)"
    "\<forall>j < unat (s_receiver_capacity s). slots s' ! j =
      (if overdue now (slots s ! j) then given_up (slots s ! j) else slots s ! j)"
    using poll_loop_idle [of ?r now "unat (s_receiver_capacity ?r)" ?start 0 "Some ob" cap "Some 0" 0]
      sender_inv_reclaim [OF assms(1)] False assms(3) reach by auto
  then show ?thesis
    using False by (simp add: num8lora_sender_poll_tx_def Let_def)
qed (simp add: num8lora_sender_poll_tx_def Let_def)

text \<open>Transmissions leave every look-up alone.\<close>

lemma find_op_same_log:
  "log_inv s \<Longrightarrow> log_inv s' \<Longrightarrow> same_log s s' \<Longrightarrow> find_op s' k = find_op s k"
  by (simp add: find_op_log same_log_def)

subsection \<open>BEACON and the answer to an outdated REQUEST\<close>

lemma build_beacon_emits:
  assumes "num8lora_sender_build_beacon (Some s) (Some ob) cap (Some l) = (ok, b, n)"
    and "unat cap \<le> length ob" "emitted ok b n = Some f"
  shows "f = op_beacon_wire (s_sender_id s, s_seq s)
    \<lparr>bp_stream_id = s_stream_id s, bp_latest_op_id = s_latest_op_id s\<rparr>"
proof -
  have "s_seq s \<noteq> 0xFFFF"
    using assms(1,3) by (auto simp: num8lora_sender_build_beacon_def)
  then have "num8lora_op_encode_beacon (Some ob) cap (s_sender_id s) (s_seq s)
      (Some \<lparr>bp_stream_id = s_stream_id s, bp_latest_op_id = s_latest_op_id s\<rparr>) (Some l) = (ok, b, n)"
    using assms(1) by (simp add: num8lora_sender_build_beacon_def)
  from emitted_beacon [OF this assms(2)] show ?thesis
    using assms(3) by (simp split: if_splits)
qed

lemma handle_request_step:
  assumes "num8lora_sender_handle_request (Some s) (Some b) n (Some ob) cap (Some l) = (ok, s', ob', l')"
    and "unat cap \<le> length ob"
  shows "\<exists>q. s' = Some (s\<lparr>s_seq := q\<rparr>)"
    and "emitted ok ob' l' = Some f \<Longrightarrow> \<exists>rid c. f = op_nack_wire (s_sender_id s, rid, s_seq s)
      \<lparr>np_stream_id = s_stream_id s, np_error_code = NUM8LORA_OP_ERR_HISTORY_UNAVAILABLE,
       np_detail = 0, np_expected_next_op_id = s_oldest_retained_op_id s\<rparr>"
proof -
  have same: "\<exists>q. s = s\<lparr>s_seq := q\<rparr>" by (rule exI [of _ "s_seq s"]) simp
  show "\<exists>q. s' = Some (s\<lparr>s_seq := q\<rparr>)"
    using assms(1) same
    by (auto simp: num8lora_sender_handle_request_def Let_def split: prod.splits option.splits
      bool.splits if_splits)
  show "\<exists>rid c. f = op_nack_wire (s_sender_id s, rid, s_seq s)
      \<lparr>np_stream_id = s_stream_id s, np_error_code = NUM8LORA_OP_ERR_HISTORY_UNAVAILABLE,
       np_detail = 0, np_expected_next_op_id = s_oldest_retained_op_id s\<rparr>"
    if "emitted ok ob' l' = Some f"
    using assms(1) that
    by (auto simp: num8lora_sender_handle_request_def Let_def emitted_nack [OF _ assms(2)]
      split: prod.splits option.splits bool.splits if_splits)
qed

subsection \<open>Frames from the receivers\<close>

text \<open>The slot a frame from \<open>rid\<close> addressed to the sender belongs to.\<close>

definition addressed :: "num8lora_sender \<Rightarrow> u16 \<times> u16 \<times> u16 \<Rightarrow> nat \<Rightarrow> bool" where
  "addressed s a i \<longleftrightarrow> find_slot_mut s (fst a) = Some i \<and> fst (snd a) = s_sender_id s"

lemma handle_rx_cases:
  assumes "num8lora_sender_handle_rx (Some s) now (Some b) n = (ok, s')" "unat n \<le> length b"
  obtains (ignored) "ok = False" "s' = Some s"
    | (request) i a p where "ok" "op_request_valid a p" "take (unat n) b = op_request_wire a p"
      "addressed s a i" "rp_stream_id p = s_stream_id s"
      "rp_next_needed_op_id p = sl_last_acked_op_id (slots s ! i) + 1" "sl_exhausted (slots s ! i) = 0"
      "s' = Some (update_slot i (\<lambda>x. x\<lparr>sl_due_at_ms := now\<rparr>) s)"
    | (ack) i a p where "ok" "op_ack_valid a p" "take (unat n) b = op_ack_wire a p"
      "addressed s a i" "ap_stream_id p = s_stream_id s"
      "sl_waiting_ack (slots s ! i) \<noteq> 0" "ap_ack_op_id p = sl_inflight_op_id (slots s ! i)"
      "s' = Some (sender_reclaim_history (update_slot i (\<lambda>x. x\<lparr>sl_last_acked_op_id := ap_ack_op_id p,
        sl_waiting_ack := 0, sl_inflight_op_id := 0, sl_retries := 0, sl_exhausted := 0\<rparr>) s))"
    | (nack) i a p where "ok" "op_nack_valid a p" "take (unat n) b = op_nack_wire a p"
      "addressed s a i" "np_stream_id p = s_stream_id s"
      "sl_waiting_ack (slots s ! i) \<noteq> 0" "np_expected_next_op_id p = sl_inflight_op_id (slots s ! i)"
      "s' = Some (sender_reclaim_history (update_slot i (\<lambda>x. x\<lparr>sl_waiting_ack := 0,
        sl_inflight_op_id := 0, sl_retries := 0, sl_exhausted := 0, sl_due_at_ms := now\<rparr>) s))"
proof -
  consider "n < 2 \<or> b ! 1 \<notin> {NUM8LORA_OP_MSG_REQUEST, NUM8LORA_OP_MSG_ACK, NUM8LORA_OP_MSG_NACK}"
    | "\<not> n < 2" "b ! 1 = NUM8LORA_OP_MSG_REQUEST" | "\<not> n < 2" "b ! 1 = NUM8LORA_OP_MSG_ACK"
    | "\<not> n < 2" "b ! 1 = NUM8LORA_OP_MSG_NACK" by blast
  then show ?thesis
  proof cases
    case 1
    then have "ok = False \<and> s' = Some s"
      using assms(1) by (auto simp: num8lora_sender_handle_rx_def split: if_splits)
    then show ?thesis using ignored by blast
  next
    case 2
    show ?thesis
    proof (cases rule: request.decode_cases [OF assms(2), of local_header local_request])
      case (1 a p)
      obtain sid rid sq where a: "a = (sid, rid, sq)" by (cases a)
      show ?thesis
        using assms(1) 2 1(1) a
        by (auto simp: num8lora_sender_handle_rx_def Let_def addressed_def
          split: option.splits if_splits intro: ignored request [OF _ 1(2,3)])
    next
      case d: 2
      then have "ok = False \<and> s' = Some s"
        using assms(1) 2 by (auto simp: num8lora_sender_handle_rx_def split: if_splits)
      then show ?thesis using ignored by blast
    qed
  next
    case 3
    show ?thesis
    proof (cases rule: ack.decode_cases [OF assms(2), of local_header local_ack])
      case (1 a p)
      obtain sid rid sq where a: "a = (sid, rid, sq)" by (cases a)
      show ?thesis
        using assms(1) 3 1(1) a
        by (auto simp: num8lora_sender_handle_rx_def Let_def addressed_def
          split: option.splits if_splits intro: ignored ack [OF _ 1(2,3)])
    next
      case d: 2
      then have "ok = False \<and> s' = Some s"
        using assms(1) 3 by (auto simp: num8lora_sender_handle_rx_def split: if_splits)
      then show ?thesis using ignored by blast
    qed
  next
    case 4
    show ?thesis
    proof (cases rule: nack.decode_cases [OF assms(2), of local_header local_nack])
      case (1 a p)
      obtain sid rid sq where a: "a = (sid, rid, sq)" by (cases a)
      show ?thesis
        using assms(1) 4 1(1) a
        by (auto simp: num8lora_sender_handle_rx_def Let_def addressed_def
          split: option.splits if_splits intro: ignored nack [OF _ 1(2,3)])
    next
      case d: 2
      then have "ok = False \<and> s' = Some s"
        using assms(1) 4 by (auto simp: num8lora_sender_handle_rx_def split: if_splits)
      then show ?thesis using ignored by blast
    qed
  qed
qed

text \<open>Accepting a frame preserves the invariant; an ACK moves exactly one step forward.\<close>

lemma handle_rx_inv:
  assumes "sender_inv s" "num8lora_sender_handle_rx (Some s) now (Some b) n = (ok, Some s')"
    and "unat n \<le> length b"
  shows "sender_inv s'"
  using assms(2,3)
proof (cases rule: handle_rx_cases)
  case ignored
  then show ?thesis using assms(1) by simp
next
  case (request i a p)
  then have i: "i < unat (s_receiver_capacity s)" "sl_active (slots s ! i) \<noteq> 0"
    using find_slot_Some [of s "fst a" i] by (simp_all add: addressed_def)
  then show ?thesis
    using request(8) assms(1) sender_inv_slot [OF assms(1) i(1)]
    by (auto intro!: sender_inv_update_slot simp: slot_ok_def)
next
  case (ack i a p)
  then have i: "i < unat (s_receiver_capacity s)" "sl_active (slots s ! i) \<noteq> 0"
    using find_slot_Some [of s "fst a" i] by (simp_all add: addressed_def)
  then show ?thesis
    using ack(8) assms(1) sender_inv_slot [OF assms(1) i(1)]
    by (auto intro!: sender_inv_reclaim sender_inv_update_slot simp: slot_ok_def)
next
  case (nack i a p)
  then have i: "i < unat (s_receiver_capacity s)" "sl_active (slots s ! i) \<noteq> 0"
    using find_slot_Some [of s "fst a" i] by (simp_all add: addressed_def)
  then show ?thesis
    using nack(8) assms(1) sender_inv_slot [OF assms(1) i(1)]
    by (auto intro!: sender_inv_reclaim sender_inv_update_slot simp: slot_ok_def)
qed

text \<open>The call always returns a sender.\<close>

lemma handle_rx_returns:
  assumes "unat n \<le> length b"
  obtains ok s' where "num8lora_sender_handle_rx (Some s) now (Some b) n = (ok, Some s')"
proof -
  obtain ok s' where e: "num8lora_sender_handle_rx (Some s) now (Some b) n = (ok, s')"
    by (metis prod.exhaust)
  then have "s' \<noteq> None"
    using assms by (cases rule: handle_rx_cases) simp_all
  with e show ?thesis using that by auto
qed

end
