(* ===== verification/Runs.thy ===== *)
theory Runs
  imports Main
begin

text \<open>
  Runs of a step relation, and the two contracts the state machines of the library are proved
  against: a step relation that preserves an invariant, and one that simulates a simpler machine.
\<close>

inductive runs :: "('s \<Rightarrow> 's \<Rightarrow> bool) \<Rightarrow> 's \<Rightarrow> 's \<Rightarrow> bool" for step x where
  start: "runs step x x"
| step: "runs step x y \<Longrightarrow> step y z \<Longrightarrow> runs step x z"

lemma runs_single: "step x y \<Longrightarrow> runs step x y"
  by (rule runs.step [OF runs.start])

lemma runs_trans:
  assumes "runs step x y" "runs step y z"
  shows "runs step x z"
  using assms(2) by induction (auto intro: assms(1) runs.step)

locale preserved =
  fixes step :: "'s \<Rightarrow> 's \<Rightarrow> bool" and good :: "'s \<Rightarrow> bool"
  assumes step_keeps: "step x y \<Longrightarrow> good x \<Longrightarrow> good y"
begin

lemma runs_keep:
  assumes "runs step x y" "good x"
  shows "good y"
  using assms by induction (auto intro: step_keeps)

text \<open>A consequence of the invariant holds wherever a run from a good state leads.\<close>

lemma always:
  assumes "good x" "\<And>y. good y \<Longrightarrow> P y" "runs step x y"
  shows "P y"
  using assms runs_keep by blast

end

text \<open>Every step of the detailed machine is a step of the abstract one, or changes nothing abstract.\<close>

locale simulation =
  fixes step :: "'s \<Rightarrow> 's \<Rightarrow> bool" and view :: "'s \<Rightarrow> 'a" and abstract_step :: "'a \<Rightarrow> 'a \<Rightarrow> bool"
  assumes step_simulates: "step x y \<Longrightarrow> view y = view x \<or> abstract_step (view x) (view y)"
begin

lemma runs_simulate: "runs step x y \<Longrightarrow> runs abstract_step (view x) (view y)"
proof (induction rule: runs.induct)
  case (step y z)
  from step_simulates [OF step(2)] show ?case
    using step.IH by (auto intro: runs.step)
qed (rule runs.start)

lemma abstract_invariant:
  assumes "preserved abstract_step good" "runs step x y" "good (view x)"
  shows "good (view y)"
  using preserved.runs_keep [OF assms(1) runs_simulate [OF assms(2)] assms(3)] .

end

end
