(* ===== verification/System.thy ===== *)
theory System
  imports SenderTx Runs
begin

text \<open>
  One sender, any number of receivers and a network that may lose, duplicate, reorder and delay
  frames for ever, and inject frames whose checksum does not match. Every step is one call of the
  library's public functions, with any buffers the caller may pass. Ghost state records the operations ever
  enqueued (\<open>y_stream\<close>) and, per receiver, the operations its application accepted.
\<close>

subsection \<open>States\<close>

text \<open>
  The application's callback, instrumented: next to the application's own state it keeps the list of
  the calls that succeeded.
\<close>

definition logged :: "'u apply_fn \<Rightarrow> ('u \<times> (u8 \<times> u32) list) apply_fn" where
  "logged f = (\<lambda>(u, done_ops) t v. case f u t v of
     (ok, u') \<Rightarrow> (ok, (u', if ok then done_ops @ [(t, v)] else done_ops)))"

record 'u peer =
  p_rx :: num8lora_receiver
  p_app :: "'u \<times> (u8 \<times> u32) list"

record 'u system =
  y_tx :: num8lora_sender
  y_stream :: "(u8 \<times> u32) list"
  y_peers :: "u16 \<Rightarrow> 'u peer option"
  y_net :: "u8 list set"

text \<open>A buffer that holds a frame some step has sent.\<close>

definition delivered :: "u8 list set \<Rightarrow> u8 list \<Rightarrow> u32 \<Rightarrow> bool" where
  "delivered net b n \<longleftrightarrow> unat n \<le> length b \<and> take (unat n) b \<in> net"

definition send :: "u8 list option \<Rightarrow> u8 list set \<Rightarrow> u8 list set" where
  "send f net = (case f of None \<Rightarrow> net | Some x \<Rightarrow> insert x net)"

text \<open>The caller's duty when it tells the sender a receiver's progress: not to exceed the truth.\<close>

definition truthful :: "'u system \<Rightarrow> u16 \<Rightarrow> u32 \<Rightarrow> bool" where
  "truthful y rid acked \<longleftrightarrow> (case y_peers y rid of
     None \<Rightarrow> True | Some p \<Rightarrow> acked \<le> r_last_applied_op_id (p_rx p))"

subsection \<open>Steps\<close>

inductive sys_step :: "(u16 \<Rightarrow> 'u apply_fn) \<Rightarrow> 'u system \<Rightarrow> 'u system \<Rightarrow> bool" for f where
  enqueue_add:
    "s_latest_op_id (y_tx y) < 0xFFFFFFFF \<Longrightarrow>
     num8lora_sender_enqueue_add (Some (y_tx y)) v out = (ok, Some s, out') \<Longrightarrow>
     sys_step f y (y\<lparr>y_tx := s, y_stream := y_stream y @ (if ok then [(NUM8LORA_OP_ADD, v)] else [])\<rparr>)"
| enqueue_remove:
    "s_latest_op_id (y_tx y) < 0xFFFFFFFF \<Longrightarrow>
     num8lora_sender_enqueue_remove (Some (y_tx y)) v out = (ok, Some s, out') \<Longrightarrow>
     sys_step f y (y\<lparr>y_tx := s, y_stream := y_stream y @ (if ok then [(NUM8LORA_OP_REMOVE, v)] else [])\<rparr>)"
| enqueue_lists:
    "length rs = unat m \<Longrightarrow> length as = unat n \<Longrightarrow>
     num8lora_sender_enqueue_lists (Some (y_tx y)) (Some rs) m (Some as) n (Some f0) (Some l0)
       = (ok, Some s, f1, l1) \<Longrightarrow>
     sys_step f y (y\<lparr>y_tx := s, y_stream := y_stream y @ (if ok
       then map (Pair NUM8LORA_OP_REMOVE) rs @ map (Pair NUM8LORA_OP_ADD) as else [])\<rparr>)"
| register:
    "truthful y rid acked \<Longrightarrow>
     num8lora_sender_register_receiver (Some (y_tx y)) rid acked = (ok, Some s) \<Longrightarrow>
     sys_step f y (y\<lparr>y_tx := s\<rparr>)"
| set_progress:
    "truthful y rid acked \<Longrightarrow>
     num8lora_sender_set_receiver_progress (Some (y_tx y)) rid acked = (ok, Some s) \<Longrightarrow>
     sys_step f y (y\<lparr>y_tx := s\<rparr>)"
| unregister:
    "num8lora_sender_unregister_receiver (Some (y_tx y)) rid = (ok, Some s) \<Longrightarrow>
     sys_step f y (y\<lparr>y_tx := s\<rparr>)"
| poll:
    "unat cap \<le> length ob \<Longrightarrow>
     num8lora_sender_poll_tx (Some (y_tx y)) now (Some ob) cap (Some l) (Some t)
       = (ok, Some s, b, n, t') \<Longrightarrow>
     sys_step f y (y\<lparr>y_tx := s, y_net := send (emitted ok b n) (y_net y)\<rparr>)"
| beacon:
    "unat cap \<le> length ob \<Longrightarrow>
     num8lora_sender_build_beacon (Some (y_tx y)) (Some ob) cap (Some l) = (ok, b, n) \<Longrightarrow>
     sys_step f y (y\<lparr>y_net := send (emitted ok b n) (y_net y)\<rparr>)"
| answer_request:
    "delivered (y_net y) ib k \<Longrightarrow> unat cap \<le> length ob \<Longrightarrow>
     num8lora_sender_handle_request (Some (y_tx y)) (Some ib) k (Some ob) cap (Some l)
       = (ok, Some s, b, n) \<Longrightarrow>
     sys_step f y (y\<lparr>y_tx := s, y_net := send (emitted ok b n) (y_net y)\<rparr>)"
| sender_rx:
    "delivered (y_net y) ib k \<Longrightarrow>
     num8lora_sender_handle_rx (Some (y_tx y)) now (Some ib) k = (ok, Some s) \<Longrightarrow>
     sys_step f y (y\<lparr>y_tx := s\<rparr>)"
| peer_beacon:
    "delivered (y_net y) ib k \<Longrightarrow> unat cap \<le> length ob \<Longrightarrow> y_peers y rid = Some p \<Longrightarrow>
     num8lora_receiver_handle_beacon (Some (p_rx p)) (Some ib) k (Some ob) cap (Some l)
       = (ok, Some r, b, n) \<Longrightarrow>
     sys_step f y (y\<lparr>y_peers := (y_peers y)(rid \<mapsto> p\<lparr>p_rx := r\<rparr>),
       y_net := send (emitted ok b n) (y_net y)\<rparr>)"
| peer_data:
    "delivered (y_net y) ib k \<Longrightarrow> unat cap \<le> length ob \<Longrightarrow> y_peers y rid = Some p \<Longrightarrow>
     num8lora_receiver_handle_data (Some (p_rx p)) (Some ib) k (Some (logged (f rid))) (p_app p)
       (Some ob) cap (Some l) = (ok, Some r, u, b, n) \<Longrightarrow>
     sys_step f y (y\<lparr>y_peers := (y_peers y)(rid \<mapsto> \<lparr>p_rx = r, p_app = u\<rparr>),
       y_net := send (emitted ok b n) (y_net y)\<rparr>)"
| noise:
    "(\<And>bs. x \<noteq> seal bs) \<Longrightarrow> sys_step f y (y\<lparr>y_net := insert x (y_net y)\<rparr>)"

abbreviation sys_reach :: "(u16 \<Rightarrow> 'u apply_fn) \<Rightarrow> 'u system \<Rightarrow> 'u system \<Rightarrow> bool" where
  "sys_reach f \<equiv> runs (sys_step f)"

text \<open>
  A freshly initialised sender, receivers that have applied nothing, and no frame in flight.
\<close>

definition fresh_peer :: "u16 \<Rightarrow> 'u peer \<Rightarrow> bool" where
  "fresh_peer rid p \<longleftrightarrow> r_receiver_id (p_rx p) = rid \<and> r_last_applied_op_id (p_rx p) = 0
    \<and> snd (p_app p) = []"

definition sys_start :: "'u system \<Rightarrow> bool" where
  "sys_start y \<longleftrightarrow>
    (\<exists>s sid stream timeout retries xs m ys n. length xs = unat m \<and> length ys = unat n
      \<and> unat m \<le> 2 ^ 31 \<and> unat n < 2 ^ 27
      \<and> num8lora_sender_init (Some s) sid stream timeout retries (Some xs) m (Some ys) n = Some (y_tx y))
    \<and> y_stream y = [] \<and> y_net y = {}
    \<and> (\<forall>rid p. y_peers y rid = Some p \<longrightarrow> fresh_peer rid p)"

subsection \<open>The system invariant\<close>

text \<open>Every DATA frame under way says the truth about the stream.\<close>

definition data_truth :: "(u8 \<times> u32) list \<Rightarrow> u8 list \<Rightarrow> bool" where
  "data_truth xs x \<longleftrightarrow> (\<forall>a d. op_data_valid a d \<longrightarrow> x = op_data_wire a d \<longrightarrow>
    unat (dp_op_id d) \<le> length xs \<and> xs ! (unat (dp_op_id d) - 1) = (dp_op_type d, dp_value d))"

text \<open>Every ACK under way is for operations its receiver has applied.\<close>

definition ack_truth :: "(u16 \<Rightarrow> 'u peer option) \<Rightarrow> u8 list \<Rightarrow> bool" where
  "ack_truth ps x \<longleftrightarrow> (\<forall>a k. op_ack_valid a k \<longrightarrow> x = op_ack_wire a k \<longrightarrow>
    (\<exists>p. ps (fst a) = Some p \<and> ap_ack_op_id k \<le> r_last_applied_op_id (p_rx p)))"

definition peer_ok :: "(u8 \<times> u32) list \<Rightarrow> u16 \<Rightarrow> 'u peer \<Rightarrow> bool" where
  "peer_ok xs rid p \<longleftrightarrow> r_receiver_id (p_rx p) = rid
    \<and> unat (r_last_applied_op_id (p_rx p)) \<le> length xs
    \<and> snd (p_app p) = take (unat (r_last_applied_op_id (p_rx p))) xs"

definition slots_truth :: "num8lora_sender_receiver_slot list \<Rightarrow> (u16 \<Rightarrow> 'u peer option) \<Rightarrow> bool" where
  "slots_truth xs ps \<longleftrightarrow> (\<forall>x \<in> set xs. \<forall>p. sl_active x \<noteq> 0 \<longrightarrow> ps (sl_receiver_id x) = Some p
    \<longrightarrow> sl_last_acked_op_id x \<le> r_last_applied_op_id (p_rx p))"

definition sys_inv :: "'u system \<Rightarrow> bool" where
  "sys_inv y \<longleftrightarrow> sender_inv (y_tx y) \<and> log_represents (y_tx y) (y_stream y)
    \<and> (\<forall>x \<in> y_net y. data_truth (y_stream y) x \<and> ack_truth (y_peers y) x)
    \<and> (\<forall>rid p. y_peers y rid = Some p \<longrightarrow> peer_ok (y_stream y) rid p)
    \<and> slots_truth (slots (y_tx y)) (y_peers y)"

lemma sys_inv_start:
  assumes "sys_start y"
  shows "sys_inv y"
proof -
  obtain s sid stream timeout retries xs m ys n where len: "length xs = unat m" "length ys = unat n"
      "unat m \<le> 2 ^ 31" "unat n < 2 ^ 27"
    and init: "num8lora_sender_init (Some s) sid stream timeout retries (Some xs) m (Some ys) n
      = Some (y_tx y)"
    using assms unfolding sys_start_def by blast
  have "s_latest_op_id (y_tx y) = 0" "slots (y_tx y) = zero_slots ys (ucast ((ucast n :: u64) * 32))"
    by (rule init_fields [OF len(1,2) init])+
  then show ?thesis
    using assms init_inv [OF len init] init_slots_inactive [OF len(2,4)]
    by (auto simp: sys_start_def sys_inv_def slots_truth_def peer_ok_def fresh_peer_def
      log_represents_def sender_inv_log)
qed

subsection \<open>Truth is monotone\<close>

lemma data_truth_append:
  assumes "data_truth xs x"
  shows "data_truth (xs @ zs) x"
  unfolding data_truth_def
proof (intro allI impI)
  fix a d assume v: "op_data_valid a d" "x = op_data_wire a d"
  then have "unat (dp_op_id d) \<le> length xs" "xs ! (unat (dp_op_id d) - 1) = (dp_op_type d, dp_value d)"
    using assms unfolding data_truth_def by blast+
  moreover have "0 < unat (dp_op_id d)"
    using v(1) by (simp add: op_data_valid_def op_data_ok_def word_neq_0_unat)
  moreover from calculation have "unat (dp_op_id d) - 1 < length xs" by linarith
  ultimately show "unat (dp_op_id d) \<le> length (xs @ zs)
      \<and> (xs @ zs) ! (unat (dp_op_id d) - 1) = (dp_op_type d, dp_value d)"
    by (simp add: nth_append)
qed

lemma data_truthD:
  assumes "data_truth xs x" "op_data_valid a d" "x = op_data_wire a d"
  shows "unat (dp_op_id d) \<le> length xs" "xs ! (unat (dp_op_id d) - 1) = (dp_op_type d, dp_value d)"
  using assms unfolding data_truth_def by blast+

lemma peer_ok_append: "peer_ok xs rid p \<Longrightarrow> peer_ok (xs @ zs) rid p"
  by (auto simp: peer_ok_def)

lemma truth_other_type:
  "x ! Suc 0 \<noteq> NUM8LORA_OP_MSG_DATA \<Longrightarrow> data_truth xs x"
  "x ! Suc 0 \<noteq> NUM8LORA_OP_MSG_ACK \<Longrightarrow> ack_truth ps x"
  by (auto simp: data_truth_def ack_truth_def op_wire_types)

lemma truth_noise:
  assumes "\<And>bs. x \<noteq> seal bs"
  shows "data_truth xs x" "ack_truth ps x"
proof -
  have "x \<noteq> op_data_wire a d" "x \<noteq> op_ack_wire a k" for a d k
    using assms op_unicast_frame_sealed unfolding op_data_wire_def op_ack_wire_def by metis+
  then show "data_truth xs x" "ack_truth ps x"
    by (simp_all add: data_truth_def ack_truth_def)
qed

lemma ack_truth_advance:
  assumes "ack_truth ps x" "ps rid = Some p"
    and "r_last_applied_op_id (p_rx p) \<le> r_last_applied_op_id (p_rx q)"
  shows "ack_truth (ps(rid \<mapsto> q)) x"
  using assms unfolding ack_truth_def by (metis fun_upd_apply option.inject order_trans)

lemma slots_truth_advance:
  assumes "slots_truth xs ps" "ps rid = Some p"
    and "r_last_applied_op_id (p_rx p) \<le> r_last_applied_op_id (p_rx q)"
  shows "slots_truth xs (ps(rid \<mapsto> q))"
  using assms unfolding slots_truth_def by (metis fun_upd_apply option.inject order_trans)

lemma slots_truth_update:
  assumes "slots_truth xs ps" "\<And>p. sl_active x \<noteq> 0 \<Longrightarrow> ps (sl_receiver_id x) = Some p
    \<Longrightarrow> sl_last_acked_op_id x \<le> r_last_applied_op_id (p_rx p)"
  shows "slots_truth (xs[i := x]) ps"
  using assms set_update_subset_insert [of xs i x] unfolding slots_truth_def by blast

lemma slots_truth_progress:
  assumes "same_progress s s'" "slots_truth (slots s) ps"
  shows "slots_truth (slots s') ps"
proof -
  have "(sl_active x, sl_receiver_id x, sl_last_acked_op_id x)
      \<in> set (map (\<lambda>x. (sl_active x, sl_receiver_id x, sl_last_acked_op_id x)) (slots s))"
    if "x \<in> set (slots s')" for x
    using assms(1) that unfolding same_progress_def by (metis (no_types, lifting) image_eqI set_map)
  then show ?thesis
    using assms(2) unfolding slots_truth_def by fastforce
qed

lemma send_truth:
  assumes "\<forall>x \<in> net. P x" "\<And>x. f = Some x \<Longrightarrow> P x"
  shows "\<forall>x \<in> send f net. P x"
  using assms by (auto simp: send_def split: option.splits)

lemma log_represents_slots [simp]:
  "log_represents (update_slot i f s) xs = log_represents s xs"
  "log_represents (s\<lparr>s_seq := q\<rparr>) xs = log_represents s xs"
  by (simp_all add: log_represents_def)

lemma log_represents_same_log:
  "log_represents s xs \<Longrightarrow> same_log s s' \<Longrightarrow> log_inv s' \<Longrightarrow> log_represents s' xs"
  by (simp add: log_represents_def same_log_def)

text \<open>A DATA frame built from the ring tells the truth.\<close>

lemma data_payload_truth:
  assumes "log_represents s xs" "s_oldest_retained_op_id s \<le> k" "k \<le> s_latest_op_id s"
    and "op_data_valid a (data_payload s k)"
  shows "data_truth xs (op_data_wire a (data_payload s k))"
proof -
  have inv: "log_inv s" using assms(1) by (simp add: log_represents_def)
  obtain x where x: "find_op s k = Some x" "so_op_id x = k" and pay: "data_payload s k =
      \<lparr>dp_stream_id = s_stream_id s, dp_op_id = k, dp_op_type = so_op_type x, dp_reserved0 = 0,
       dp_reserved1 = 0, dp_value = so_value x\<rparr>"
    by (rule find_op_payload [OF inv assms(2,3)])
  have "log_lookup s (unat k) = Some (xs ! (unat k - 1))" and len: "unat k \<le> length xs"
    using assms(1-3) sender_log.lookup_represents [OF assms(1), of "unat k"]
    by (simp_all add: log_first_def log_represents_def word_le_nat_alt)
  then have entry: "xs ! (unat k - 1) = (so_op_type x, so_value x)"
    using x by (simp add: log_lookup_def op_entry_def)
  show ?thesis
    unfolding data_truth_def
  proof (intro allI impI)
    fix a' d assume v: "op_data_valid a' d" and e: "op_data_wire a (data_payload s k) = op_data_wire a' d"
    have "d = data_payload s k"
      using data.wire_inject [OF assms(4) v e] by simp
    then show "unat (dp_op_id d) \<le> length xs \<and> xs ! (unat (dp_op_id d) - 1) = (dp_op_type d, dp_value d)"
      using len entry by (simp add: pay)
  qed
qed


subsection \<open>Every step keeps the invariant\<close>

text \<open>Steps of the sender: the peers stay, the stream grows by \<open>zs\<close>, at most one frame is sent.\<close>

lemma sys_inv_sender_step:
  assumes "sys_inv y" "sender_inv s" "log_represents s (y_stream y @ zs)"
    and "slots_truth (slots s) (y_peers y)"
    and "\<And>x. fr = Some x \<Longrightarrow> data_truth (y_stream y @ zs) x \<and> ack_truth (y_peers y) x"
  shows "sys_inv (y\<lparr>y_tx := s, y_stream := y_stream y @ zs, y_net := send fr (y_net y)\<rparr>)"
proof -
  have "\<forall>x \<in> send fr (y_net y). data_truth (y_stream y @ zs) x \<and> ack_truth (y_peers y) x"
    using assms(1,5) by (intro send_truth) (auto simp: sys_inv_def data_truth_append)
  then show ?thesis
    using assms by (auto simp: sys_inv_def peer_ok_append)
qed

lemma sys_inv_enqueue:
  assumes "sys_inv y" "s_latest_op_id (y_tx y) < 0xFFFFFFFF"
    and "type = NUM8LORA_OP_ADD \<or> type = NUM8LORA_OP_REMOVE"
    and "enqueue_op (Some (y_tx y)) type v out = (ok, Some s, out')"
  shows "sys_inv (y\<lparr>y_tx := s, y_stream := y_stream y @ (if ok then [(type, v)] else [])\<rparr>)"
proof -
  have inv: "sender_inv (y_tx y)" and rep: "log_represents (y_tx y) (y_stream y)"
    using assms(1) by (simp_all add: sys_inv_def)
  have "slots s = slots (y_tx y)
      \<and> (\<not> ok \<longrightarrow> s = y_tx y \<or> s = sender_reclaim_history (y_tx y))"
    using sender_inv_log [OF inv] assms(2,3)
    by (cases rule: enqueue_op_cases [where v = v and out = out])
      (use assms(4) in \<open>auto simp: same_config_def\<close>)
  moreover have "log_represents s (y_stream y @ (if ok then [(type, v)] else []))"
    using calculation rep log_represents_reclaim [OF rep]
      log_represents_enqueue(1) [OF rep assms(2,3)] assms(4) by (cases ok) auto
  moreover have "sender_inv s"
    by (rule enqueue_op_inv [OF inv assms(2-4)])
  ultimately show ?thesis
    using sys_inv_sender_step [OF assms(1), of s "if ok then [(type, v)] else []" None] assms(1)
    by (simp add: send_def sys_inv_def)
qed

lemma sys_inv_enqueue_lists:
  assumes "sys_inv y" "length rs = unat m" "length as = unat n"
    and "num8lora_sender_enqueue_lists (Some (y_tx y)) (Some rs) m (Some as) n (Some f0) (Some l0)
      = (ok, Some s, f1, l1)"
  shows "sys_inv (y\<lparr>y_tx := s, y_stream := y_stream y @ (if ok
       then map (Pair NUM8LORA_OP_REMOVE) rs @ map (Pair NUM8LORA_OP_ADD) as else [])\<rparr>)"
proof -
  have inv: "sender_inv (y_tx y)" and rep: "log_represents (y_tx y) (y_stream y)"
    using assms(1) by (simp_all add: sys_inv_def)
  note log = enqueue_lists_represents [OF rep assms(2-4)]
  have "sender_inv s" by (rule enqueue_lists_inv [OF inv assms(2-4)])
  then show ?thesis
    using sys_inv_sender_step [OF assms(1), of s "if ok then map (Pair NUM8LORA_OP_REMOVE) rs
      @ map (Pair NUM8LORA_OP_ADD) as else []" None] assms(1) log
    by (simp add: send_def sys_inv_def)
qed

lemma sys_inv_quiet:
  assumes "sys_inv y" "sender_inv s" "log_represents s (y_stream y)" "slots_truth (slots s) (y_peers y)"
  shows "sys_inv (y\<lparr>y_tx := s\<rparr>)"
  using sys_inv_sender_step [OF assms(1,2), of "[]" None] assms(3,4) by (simp add: send_def)

lemma sys_inv_register:
  assumes "sys_inv y" "truthful y rid acked"
    and "num8lora_sender_register_receiver (Some (y_tx y)) rid acked = (ok, Some s)"
  shows "sys_inv (y\<lparr>y_tx := s\<rparr>)"
proof (rule sys_inv_quiet [OF assms(1)])
  have inv: "sender_inv (y_tx y)" and rep: "log_represents (y_tx y) (y_stream y)"
    and st: "slots_truth (slots (y_tx y)) (y_peers y)"
    using assms(1) by (simp_all add: sys_inv_def)
  show "sender_inv s" by (rule register_inv [OF inv assms(3)])
  show "log_represents s (y_stream y)"
    using assms(3) by (cases rule: register_cases) (simp_all add: rep log_represents_reclaim)
  show "slots_truth (slots s) (y_peers y)"
    using assms(3)
  proof (cases rule: register_cases)
    case (added i)
    then show ?thesis
      using st assms(2) by (auto intro!: slots_truth_update simp: truthful_def)
  qed (use st in simp_all)
qed

lemma sys_inv_progress:
  assumes "sys_inv y" "truthful y rid acked"
    and "num8lora_sender_set_receiver_progress (Some (y_tx y)) rid acked = (ok, Some s)"
  shows "sys_inv (y\<lparr>y_tx := s\<rparr>)"
proof (rule sys_inv_quiet [OF assms(1)])
  have inv: "sender_inv (y_tx y)" and rep: "log_represents (y_tx y) (y_stream y)"
    and st: "slots_truth (slots (y_tx y)) (y_peers y)"
    using assms(1) by (simp_all add: sys_inv_def)
  show "sender_inv s" by (rule progress_inv [OF inv assms(3)])
  show "log_represents s (y_stream y)"
    using assms(3) by (cases rule: progress_cases) (simp_all add: rep log_represents_reclaim)
  show "slots_truth (slots s) (y_peers y)"
    using assms(3)
  proof (cases rule: progress_cases)
    case (known i)
    then show ?thesis
      using st assms(2) find_slot_Some [OF known(2)]
      by (auto intro!: slots_truth_update simp: truthful_def)
  qed (use st in simp)
qed

lemma sys_inv_unregister:
  assumes "sys_inv y" "num8lora_sender_unregister_receiver (Some (y_tx y)) rid = (ok, Some s)"
  shows "sys_inv (y\<lparr>y_tx := s\<rparr>)"
proof (rule sys_inv_quiet [OF assms(1)])
  have inv: "sender_inv (y_tx y)" and rep: "log_represents (y_tx y) (y_stream y)"
    and st: "slots_truth (slots (y_tx y)) (y_peers y)"
    using assms(1) by (simp_all add: sys_inv_def)
  show "sender_inv s" by (rule unregister_inv [OF inv assms(2)])
  show "log_represents s (y_stream y)"
    using assms(2) by (cases rule: unregister_cases) (simp_all add: rep log_represents_reclaim)
  show "slots_truth (slots s) (y_peers y)"
    using assms(2) st by (cases rule: unregister_cases) (auto intro!: slots_truth_update)
qed

lemma sys_inv_poll:
  assumes "sys_inv y" "unat cap \<le> length ob"
    and "num8lora_sender_poll_tx (Some (y_tx y)) now (Some ob) cap (Some l) (Some t)
       = (ok, Some s, b, n, t')"
  shows "sys_inv (y\<lparr>y_tx := s, y_net := send (emitted ok b n) (y_net y)\<rparr>)"
proof -
  let ?r = "sender_reclaim_history (y_tx y)"
  have inv: "sender_inv (y_tx y)" and rep: "log_represents ?r (y_stream y)"
    and st: "slots_truth (slots ?r) (y_peers y)"
    using assms(1) by (simp_all add: sys_inv_def log_represents_reclaim)
  have p: "polled now ?r (ok, s, b, n, t')"
    using poll_tx_polled [OF inv assms(2), of now l t] assms(3) by auto
  then have s: "sender_inv s" "same_log ?r s" "same_progress ?r s" by (simp_all add: polled_def)
  have "log_represents s (y_stream y @ [])"
    using log_represents_same_log [OF rep s(2)] sender_inv_log [OF s(1)] by simp
  moreover have "slots_truth (slots s) (y_peers y)"
    by (rule slots_truth_progress [OF s(3) st])
  moreover have "data_truth (y_stream y @ []) x \<and> ack_truth (y_peers y) x"
    if x: "emitted ok b n = Some x" for x
  proof -
    have ok using x by (cases ok) simp_all
    then obtain j where "transmitted now ?r s j x"
      using p x by (auto simp: polled_def)
    then show ?thesis
      using data_payload_truth [OF rep]
      by (auto simp: transmitted_def Let_def truth_other_type op_wire_types)
  qed
  ultimately show ?thesis
    using sys_inv_sender_step [OF assms(1) s(1), of "[]" "emitted ok b n"] by simp
qed


lemma sys_inv_frame:
  assumes "sys_inv y" "\<And>x. fr = Some x \<Longrightarrow> data_truth (y_stream y) x \<and> ack_truth (y_peers y) x"
  shows "sys_inv (y\<lparr>y_net := send fr (y_net y)\<rparr>)"
  using sys_inv_sender_step [OF assms(1), of "y_tx y" "[]" fr] assms by (simp add: sys_inv_def)

lemma sys_inv_beacon:
  assumes "sys_inv y" "unat cap \<le> length ob"
    and "num8lora_sender_build_beacon (Some (y_tx y)) (Some ob) cap (Some l) = (ok, b, n)"
  shows "sys_inv (y\<lparr>y_net := send (emitted ok b n) (y_net y)\<rparr>)"
  using build_beacon_emits [OF assms(3,2)] op_beacon_wire_type
  by (intro sys_inv_frame [OF assms(1)]) (auto intro!: truth_other_type)

lemma sys_inv_answer_request:
  assumes "sys_inv y" "unat cap \<le> length ob"
    and "num8lora_sender_handle_request (Some (y_tx y)) (Some ib) k (Some ob) cap (Some l)
       = (ok, Some s, b, n)"
  shows "sys_inv (y\<lparr>y_tx := s, y_net := send (emitted ok b n) (y_net y)\<rparr>)"
proof -
  obtain q where s: "s = (y_tx y)\<lparr>s_seq := q\<rparr>"
    using handle_request_step(1) [OF assms(3,2)] by auto
  have "data_truth (y_stream y) x \<and> ack_truth (y_peers y) x" if x: "emitted ok b n = Some x" for x
    using handle_request_step(2) [OF assms(3,2) x] by (auto intro!: truth_other_type simp: op_wire_types)
  then show ?thesis
    using sys_inv_sender_step [OF assms(1), of s "[]" "emitted ok b n"] assms(1)
    by (simp add: sys_inv_def s)
qed

text \<open>An accepted ACK moves the sender's view of a receiver, but never past the receiver.\<close>

lemma sys_inv_sender_rx:
  assumes "sys_inv y" "delivered (y_net y) ib k"
    and "num8lora_sender_handle_rx (Some (y_tx y)) now (Some ib) k = (ok, Some s)"
  shows "sys_inv (y\<lparr>y_tx := s\<rparr>)"
proof (rule sys_inv_quiet [OF assms(1)])
  have inv: "sender_inv (y_tx y)" and rep: "log_represents (y_tx y) (y_stream y)"
    and st: "slots_truth (slots (y_tx y)) (y_peers y)"
    using assms(1) by (simp_all add: sys_inv_def)
  have len: "unat k \<le> length ib" and net: "take (unat k) ib \<in> y_net y"
    using assms(2) by (simp_all add: delivered_def)
  have same: "slots_truth ((slots (y_tx y))[i := x]) (y_peers y)"
    if "i < length (slots (y_tx y))" "sl_active x = sl_active (slots (y_tx y) ! i)"
      "sl_receiver_id x = sl_receiver_id (slots (y_tx y) ! i)"
      "sl_last_acked_op_id x = sl_last_acked_op_id (slots (y_tx y) ! i)" for i x
    using st that by (intro slots_truth_update) (auto simp: slots_truth_def)
  show "sender_inv s" by (rule handle_rx_inv [OF inv assms(3) len])
  show "log_represents s (y_stream y)"
    using assms(3) len by (cases rule: handle_rx_cases) (simp_all add: rep log_represents_reclaim)
  show "slots_truth (slots s) (y_peers y)"
    using assms(3) len
  proof (cases rule: handle_rx_cases)
    case ignored
    then show ?thesis using st by simp
  next
    case (request i a p)
    then have "i < length (slots (y_tx y))"
      using find_slot_Some [of "y_tx y" "fst a" i] by (simp add: addressed_def sender_inv_length [OF inv])
    then show ?thesis using request(8) by (simp add: same)
  next
    case (nack i a p)
    then have "i < length (slots (y_tx y))"
      using find_slot_Some [of "y_tx y" "fst a" i] by (simp add: addressed_def sender_inv_length [OF inv])
    then show ?thesis using nack(8) by (simp add: same)
  next
    case (ack i a p)
    then have i: "sl_receiver_id (slots (y_tx y) ! i) = fst a"
      using find_slot_Some [of "y_tx y" "fst a" i] by (simp add: addressed_def)
    have "ack_truth (y_peers y) (op_ack_wire a p)"
      using assms(1) net ack(3) by (auto simp: sys_inv_def)
    then obtain q where "y_peers y (fst a) = Some q" "ap_ack_op_id p \<le> r_last_applied_op_id (p_rx q)"
      using ack(2) unfolding ack_truth_def by blast
    then show ?thesis
      using ack(8) st i by (auto intro!: slots_truth_update)
  qed
qed

text \<open>Steps of a receiver: its progress grows, the log of its application with it.\<close>

lemma sys_inv_peer_step:
  assumes "sys_inv y" "y_peers y rid = Some p" "peer_ok (y_stream y) rid q"
    and "r_last_applied_op_id (p_rx p) \<le> r_last_applied_op_id (p_rx q)"
    and "\<And>x. fr = Some x \<Longrightarrow> data_truth (y_stream y) x \<and> ack_truth ((y_peers y)(rid \<mapsto> q)) x"
  shows "sys_inv (y\<lparr>y_peers := (y_peers y)(rid \<mapsto> q), y_net := send fr (y_net y)\<rparr>)"
proof -
  have "\<forall>x \<in> send fr (y_net y). data_truth (y_stream y) x \<and> ack_truth ((y_peers y)(rid \<mapsto> q)) x"
    using assms(1,5) ack_truth_advance [where ps = "y_peers y" and rid = rid and p = p and q = q]
      assms(2,4) by (intro send_truth) (auto simp: sys_inv_def simp del: fun_upd_apply)
  then show ?thesis
    using assms slots_truth_advance [where ps = "y_peers y" and rid = rid and p = p and q = q]
    by (simp add: sys_inv_def)
qed

lemma sys_inv_peer_beacon:
  assumes "sys_inv y" "unat cap \<le> length ob" "y_peers y rid = Some p"
    and "num8lora_receiver_handle_beacon (Some (p_rx p)) (Some ib) k (Some ob) cap (Some l)
       = (ok, Some r, b, n)"
  shows "sys_inv (y\<lparr>y_peers := (y_peers y)(rid \<mapsto> p\<lparr>p_rx := r\<rparr>),
       y_net := send (emitted ok b n) (y_net y)\<rparr>)"
proof -
  note step = handle_beacon_step [OF assms(4,2)]
  have "peer_ok (y_stream y) rid p" using assms(1,3) by (simp add: sys_inv_def)
  then show ?thesis
    using step by (intro sys_inv_peer_step [OF assms(1,3)])
      (auto simp: peer_ok_def same_identity_def op_wire_types intro!: truth_other_type)
qed

lemma sys_inv_peer_data:
  assumes "sys_inv y" "delivered (y_net y) ib k" "unat cap \<le> length ob" "y_peers y rid = Some p"
    and "num8lora_receiver_handle_data (Some (p_rx p)) (Some ib) k (Some (logged f)) (p_app p)
       (Some ob) cap (Some l) = (ok, Some r, u, b, n)"
  shows "sys_inv (y\<lparr>y_peers := (y_peers y)(rid \<mapsto> \<lparr>p_rx = r, p_app = u\<rparr>),
       y_net := send (emitted ok b n) (y_net y)\<rparr>)"
proof -
  let ?q = "\<lparr>p_rx = r, p_app = u\<rparr>"
  have len: "unat k \<le> length ib" and net: "data_truth (y_stream y) (take (unat k) ib)"
    using assms(1,2) by (auto simp: delivered_def sys_inv_def)
  have ok: "peer_ok (y_stream y) rid p" using assms(1,4) by (simp add: sys_inv_def)
  have "peer_ok (y_stream y) rid ?q \<and> r_last_applied_op_id (p_rx p) \<le> r_last_applied_op_id r"
    using assms(5) len
  proof (cases rule: handle_data_step)
    case (idle rr')
    then show ?thesis using ok by (simp add: peer_ok_def same_identity_def)
  next
    case (called rr' a d)
    have truth: "unat (dp_op_id d) \<le> length (y_stream y)"
      "y_stream y ! (unat (dp_op_id d) - 1) = (dp_op_type d, dp_value d)"
      by (rule data_truthD [OF net called(3,4)])+
    show ?thesis
      using called(5)
    proof
      assume "receiver_refusal (p_rx p) (p_app p) (Some (logged f)) a d rr' u"
      then have "snd u = snd (p_app p)" "r_last_applied_op_id rr' = r_last_applied_op_id (p_rx p)"
        by (auto simp: receiver_refusal_def call_apply_def logged_def split: prod.splits)
      then show ?thesis using ok called(1,2) by (simp add: peer_ok_def same_identity_def)
    next
      assume adv: "receiver_advance (p_rx p) (p_app p) (Some (logged f)) a d rr' u"
      then have new: "r_last_applied_op_id rr' = dp_op_id d"
        "snd u = snd (p_app p) @ [(dp_op_type d, dp_value d)]"
        by (auto simp: receiver_advance_def call_apply_def logged_def split: prod.splits)
      have suc: "unat (dp_op_id d) = Suc (unat (r_last_applied_op_id (p_rx p)))"
        "r_last_applied_op_id (p_rx p) < dp_op_id d"
        using adv data_verdict_Next unfolding receiver_advance_def by blast+
      then have "snd u = take (unat (dp_op_id d)) (y_stream y)"
        using ok new truth by (simp add: peer_ok_def take_Suc_conv_app_nth)
      then show ?thesis
        using ok called(1,2) new truth suc by (simp add: peer_ok_def same_identity_def)
    qed
  qed
  moreover have "data_truth (y_stream y) x \<and> ack_truth ((y_peers y)(rid \<mapsto> ?q)) x"
    if x: "emitted ok b n = Some x" for x
  proof -
    have rid: "r_receiver_id (p_rx p) = rid" using ok by (simp add: peer_ok_def)
    from handle_data_emits [OF assms(5) x assms(3) len] show ?thesis
    proof (elim exE disjE)
      fix sid assume e: "x = op_ack_wire (r_receiver_id (p_rx p), sid, r_seq (p_rx p))
          \<lparr>ap_stream_id = r_stream_id (p_rx p), ap_ack_op_id = r_last_applied_op_id r\<rparr>" (is "_ = op_ack_wire ?a ?k")
      have "ack_truth ((y_peers y)(rid \<mapsto> ?q)) x"
        unfolding ack_truth_def e op_ack_wire_inject by (auto simp: rid)
      then show ?thesis by (simp add: e truth_other_type op_wire_types)
    next
      fix sid c assume "x = op_nack_wire (r_receiver_id (p_rx p), sid, r_seq (p_rx p))
        \<lparr>np_stream_id = r_stream_id (p_rx p), np_error_code = c, np_detail = 0,
         np_expected_next_op_id = r_last_applied_op_id (p_rx p) + 1\<rparr>"
      then show ?thesis by (simp add: truth_other_type op_wire_types)
    qed
  qed
  ultimately show ?thesis
    by (intro sys_inv_peer_step [OF assms(1,4)]) simp_all
qed


lemma sys_inv_step:
  assumes "sys_step f y z" "sys_inv y"
  shows "sys_inv z"
  using assms
proof (cases rule: sys_step.cases)
  case (enqueue_add v out ok s out')
  then show ?thesis
    using sys_inv_enqueue [OF assms(2) enqueue_add(2), of NUM8LORA_OP_ADD v out ok s out']
    by (simp add: num8lora_sender_enqueue_add_def)
next
  case (enqueue_remove v out ok s out')
  then show ?thesis
    using sys_inv_enqueue [OF assms(2) enqueue_remove(2), of NUM8LORA_OP_REMOVE v out ok s out']
    by (simp add: num8lora_sender_enqueue_remove_def)
next
  case enqueue_lists
  then show ?thesis using sys_inv_enqueue_lists [OF assms(2)] by blast
next
  case register
  then show ?thesis using sys_inv_register [OF assms(2)] by blast
next
  case set_progress
  then show ?thesis using sys_inv_progress [OF assms(2)] by blast
next
  case unregister
  then show ?thesis using sys_inv_unregister [OF assms(2)] by blast
next
  case poll
  then show ?thesis using sys_inv_poll [OF assms(2)] by blast
next
  case beacon
  then show ?thesis using sys_inv_beacon [OF assms(2)] by blast
next
  case answer_request
  then show ?thesis using sys_inv_answer_request [OF assms(2)] by blast
next
  case sender_rx
  then show ?thesis using sys_inv_sender_rx [OF assms(2)] by blast
next
  case peer_beacon
  then show ?thesis using sys_inv_peer_beacon [OF assms(2)] by blast
next
  case peer_data
  then show ?thesis using sys_inv_peer_data [OF assms(2)] by blast
next
  case (noise x)
  have "data_truth (y_stream y) x" "ack_truth (y_peers y) x"
    by (rule truth_noise [OF noise(2)])+
  then show ?thesis
    using sys_inv_frame [OF assms(2), of "Some x"] noise(1) by (simp add: send_def)
qed

interpretation sys: preserved "sys_step f" sys_inv for f
  by unfold_locales (rule sys_inv_step)

lemmas sys_reach_inv = sys.runs_keep

end
