(* ===== verification/Progress.thy ===== *)
theory Progress
  imports System
begin

text \<open>
  Progress of the async protocol: when frames get through, one poll, one DATA, one ACK move a sole
  receiver one operation forward, and repeating this brings it to the end of the stream. The rounds
  are runs of the system of \<open>System.thy\<close>, so everything proved there holds in between.
\<close>

lemma handle_rx_ack_accepts:
  assumes "op_ack_valid a p" "take (unat n) b = op_ack_wire a p" "unat n \<le> length b"
    and "addressed s a i" "ap_stream_id p = s_stream_id s" "sl_active (slots s ! i) \<noteq> 0"
    and "sl_waiting_ack (slots s ! i) \<noteq> 0" "ap_ack_op_id p = sl_inflight_op_id (slots s ! i)"
  shows "num8lora_sender_handle_rx (Some s) now (Some b) n = (True, Some (sender_reclaim_history
    (update_slot i (\<lambda>x. x\<lparr>sl_last_acked_op_id := ap_ack_op_id p, sl_waiting_ack := 0,
      sl_inflight_op_id := 0, sl_retries := 0, sl_exhausted := 0\<rparr>) s)))"
proof -
  have n: "unat n = 18"
    using arg_cong [OF assms(2), of length] assms(3) by simp
  then have ty: "b ! Suc 0 = NUM8LORA_OP_MSG_ACK"
    using op_wire_types(3) [of a p] unfolding assms(2) [symmetric] by simp
  obtain sid rid sq where a: "a = (sid, rid, sq)" by (cases a)
  have "ap_ack_op_id p \<noteq> 0" using assms(1) by (simp add: op_ack_valid_def op_ack_ok_def)
  then show ?thesis
    using ack.decode_wire [OF assms(1-3), of local_header local_ack] assms(4-8) ty n
    by (simp add: num8lora_sender_handle_rx_def a addressed_def Let_def word_less_nat_alt)
qed

text \<open>
  One receiver, served by slot \<open>i\<close>, is caught up with what the sender knows, and nothing is in flight
  for it; the other slots are free.
\<close>

definition in_step :: "'u system \<Rightarrow> u16 \<Rightarrow> nat \<Rightarrow> 'u peer \<Rightarrow> bool" where
  "in_step y rid i p \<longleftrightarrow> (let s = y_tx y; x = slots s ! i; r = p_rx p in
     sys_inv y \<and> s_sender_id s \<noteq> 0 \<and> s_stream_id s \<noteq> 0 \<and> s_latest_op_id s < 0xFFFFFFFF
     \<and> unat (s_receiver_capacity s) \<le> 2 ^ 31 \<and> i < unat (s_receiver_capacity s)
     \<and> sl_active x \<noteq> 0 \<and> sl_receiver_id x = rid \<and> sl_waiting_ack x = 0 \<and> sl_exhausted x = 0
     \<and> (\<forall>j < unat (s_receiver_capacity s). j \<noteq> i \<longrightarrow> sl_active (slots s ! j) = 0)
     \<and> sl_last_acked_op_id x = r_last_applied_op_id r
     \<and> s_oldest_retained_op_id s \<le> sl_last_acked_op_id x + 1
     \<and> y_peers y rid = Some p \<and> r_stream_id r = s_stream_id s
     \<and> (r_expected_sender_id r = 0 \<or> r_expected_sender_id r = s_sender_id s))"

lemma delivered_self: "x \<in> net \<Longrightarrow> unat n = length x \<Longrightarrow> delivered net x n"
  by (simp add: delivered_def)

lemma in_step_poll:
  assumes "in_step y rid i p" "s_seq (y_tx y) \<noteq> 0xFFFF"
    and "r_last_applied_op_id (p_rx p) < s_latest_op_id (y_tx y)"
  shows "\<exists>s d x. sys_step f y (y\<lparr>y_tx := s, y_net := insert x (y_net y)\<rparr>)
    \<and> sender_inv s \<and> same_log (sender_reclaim_history (y_tx y)) s \<and> same_progress (y_tx y) s
    \<and> sl_waiting_ack (slots s ! i) \<noteq> 0 \<and> sl_inflight_op_id (slots s ! i) = dp_op_id d
    \<and> s_seq s = s_seq (y_tx y) + 1
    \<and> x = op_data_wire (s_sender_id s, rid, s_seq (y_tx y)) d
    \<and> op_data_valid (s_sender_id s, rid, s_seq (y_tx y)) d
    \<and> dp_stream_id d = s_stream_id s \<and> dp_op_id d = r_last_applied_op_id (p_rx p) + 1"
proof -
  let ?s = "y_tx y" and ?r = "sender_reclaim_history (y_tx y)"
  let ?x = "slots ?s ! i" and ?nxt = "r_last_applied_op_id (p_rx p) + 1"
  have inv: "sender_inv ?s" and i: "i < unat (s_receiver_capacity ?s)" "sl_active ?x \<noteq> 0"
    and free: "\<And>j. j < unat (s_receiver_capacity ?s) \<Longrightarrow> j \<noteq> i \<Longrightarrow> sl_active (slots ?s ! j) = 0"
    and st: "sl_receiver_id ?x = rid" "sl_waiting_ack ?x = 0" "sl_exhausted ?x = 0"
      "sl_last_acked_op_id ?x = r_last_applied_op_id (p_rx p)"
      "s_oldest_retained_op_id ?s \<le> ?nxt" "unat (s_receiver_capacity ?s) \<le> 2 ^ 31"
      "can_transmit ?s"
    using assms(1,2) by (auto simp: in_step_def Let_def sys_inv_def can_transmit_def)
  have nxt: "?nxt \<le> s_latest_op_id ?s" using assms(3) by (rule inc_le)
  have "s_oldest_retained_op_id ?r \<le> ?nxt"
    using reclaimed_to_needed [OF i] st(4,5) reclaim_log(1) [OF sender_inv_log [OF inv]] by simp
  then have serve: "servable now ?r ?x" for now
    using i st nxt by (simp add: servable_def)
  obtain ok s b n t where e: "num8lora_sender_poll_tx (Some ?s) 0 (Some (replicate 26 0)) 26 (Some 0) (Some 0)
      = (ok, Some s, b, n, t)" and p: "polled 0 ?r (ok, s, b, n, t)"
    using poll_tx_polled [OF inv, of 26 "replicate 26 0" 0 0 0] by auto
  have ok using poll_tx_serves [OF inv, of 26 "replicate 26 0" i 0 0 0] st(6,7) i(1) serve e by simp
  with p obtain j x where tr: "transmitted 0 ?r s j x" and x: "emitted ok b n = Some x"
    and s: "sender_inv s" "same_log ?r s" "same_progress ?r s"
    by (auto simp: polled_def)
  have j: "j = i"
    using tr free [of j] by (auto simp: transmitted_def Let_def)
  have step: "sys_step f y (y\<lparr>y_tx := s, y_net := insert x (y_net y)\<rparr>)"
    using sys_step.poll [OF _ e, of f] x by (simp add: send_def)
  have "same_progress ?s s" using s(3) by (simp add: same_progress_def)
  then show ?thesis
    using step s tr st(4) st(1)
    by (intro exI [of _ s] exI [of _ "data_payload ?r ?nxt"] exI [of _ x])
      (simp add: transmitted_def Let_def j data_payload_def same_log_def)
qed

text \<open>The DATA frame reaches a receiver whose application agrees: it applies and acknowledges.\<close>

lemma peer_applies:
  assumes "op_data_valid (sid, rid, sq) d" "x = op_data_wire (sid, rid, sq) d" "x \<in> y_net y"
    and "y_peers y rid = Some p" "r_receiver_id (p_rx p) = rid"
    and "r_expected_sender_id (p_rx p) = 0 \<or> r_expected_sender_id (p_rx p) = sid"
    and "dp_stream_id d = r_stream_id (p_rx p)" "dp_op_id d = r_last_applied_op_id (p_rx p) + 1"
    and "f rid (fst (p_app p)) (dp_op_type d) (dp_value d) = (True, u)"
  defines "r' \<equiv> (p_rx p)\<lparr>r_last_applied_op_id := dp_op_id d, r_seq := r_seq (p_rx p) + 1\<rparr>"
    and "ack_frame \<equiv> op_ack_wire (rid, sid, r_seq (p_rx p))
      \<lparr>ap_stream_id = r_stream_id (p_rx p), ap_ack_op_id = dp_op_id d\<rparr>"
  shows "sys_step f y (y\<lparr>y_peers := (y_peers y)(rid \<mapsto>
      \<lparr>p_rx = r', p_app = (u, snd (p_app p) @ [(dp_op_type d, dp_value d)])\<rparr>),
      y_net := insert ack_frame (y_net y)\<rparr>)"
    and "op_ack_valid (rid, sid, r_seq (p_rx p))
      \<lparr>ap_stream_id = r_stream_id (p_rx p), ap_ack_op_id = dp_op_id d\<rparr>"
proof -
  let ?r = "p_rx p" and ?app = "(u, snd (p_app p) @ [(dp_op_type d, dp_value d)])"
  have ids: "sid \<noteq> 0" "rid \<noteq> 0" "r_stream_id ?r \<noteq> 0" "dp_op_id d \<noteq> 0"
    using assms(1,7) by (auto simp: op_data_valid_def op_data_ok_def)
  then have "r_last_applied_op_id ?r + 1 \<noteq> 0" using assms(8) by simp
  then have lt: "r_last_applied_op_id ?r < r_last_applied_op_id ?r + 1"
    by (simp add: word_less_nat_alt unat_Suc_neq_0_u32)
  have verdict: "data_verdict ?r sid rid d = Next"
    using assms(5-8) lt by (auto simp: data_verdict_def not_le [symmetric])
  have call: "call_apply (Some (logged (f rid))) (p_app p) d = (True, ?app)"
    using assms(9) by (cases "p_app p") (simp add: call_apply_def logged_def)
  show valid: "op_ack_valid (rid, sid, r_seq ?r)
      \<lparr>ap_stream_id = r_stream_id ?r, ap_ack_op_id = dp_op_id d\<rparr>"
    using ids by (simp add: op_ack_valid_def op_ack_ok_def)
  have "num8lora_receiver_handle_data (Some ?r) (Some x) 26 (Some (logged (f rid))) (p_app p)
      (Some (replicate 22 0)) 22 (Some 0)
    = receiver_reply_ack (?r\<lparr>r_last_applied_op_id := dp_op_id d\<rparr>) sid ?app (Some (replicate 22 0)) 22 (Some 0)"
    using handle_data_accept [OF assms(1), of 26 x 22 ?r "Some (logged (f rid))" "p_app p"
      "replicate 22 0" 0] assms(2) verdict call by simp
  also have "\<dots> = (True, Some r', ?app, Some (overlay (replicate 22 0) 0 ack_frame), Some 18)"
    using reply_ack_accepts [of "?r\<lparr>r_last_applied_op_id := dp_op_id d\<rparr>" sid 22 "replicate 22 0"
      ?app 0] ids assms(5) by (simp add: r'_def ack_frame_def)
  finally have e: "num8lora_receiver_handle_data (Some ?r) (Some x) 26 (Some (logged (f rid))) (p_app p)
      (Some (replicate 22 0)) 22 (Some 0)
    = (True, Some r', ?app, Some (overlay (replicate 22 0) 0 ack_frame), Some 18)" .
  have "emitted True (Some (overlay (replicate 22 0) 0 ack_frame)) (Some 18) = Some ack_frame"
    by (simp add: overlay_0 ack_frame_def)
  moreover have "delivered (y_net y) x 26"
    using assms(2,3) by (intro delivered_self) simp_all
  ultimately show "sys_step f y (y\<lparr>y_peers := (y_peers y)(rid \<mapsto> \<lparr>p_rx = r', p_app = ?app\<rparr>),
      y_net := insert ack_frame (y_net y)\<rparr>)"
    using sys_step.peer_data [where f = f and y = y and rid = rid and p = p, OF _ _ assms(4) e] by (simp add: send_def)
qed

text \<open>One round.\<close>

lemma in_step_round:
  assumes "in_step y rid i p" "s_seq (y_tx y) \<noteq> 0xFFFF"
    and "r_last_applied_op_id (p_rx p) < s_latest_op_id (y_tx y)"
    and "\<And>u t v. fst (f rid u t v)"
  shows "\<exists>z q. sys_reach f y z \<and> in_step z rid i q \<and> y_stream z = y_stream y
    \<and> r_last_applied_op_id (p_rx q) = r_last_applied_op_id (p_rx p) + 1
    \<and> s_latest_op_id (y_tx z) = s_latest_op_id (y_tx y) \<and> s_seq (y_tx z) = s_seq (y_tx y) + 1"
proof -
  let ?nxt = "r_last_applied_op_id (p_rx p) + 1"
  note start = assms(1) [unfolded in_step_def Let_def]
  obtain s d x where poll: "sys_step f y (y\<lparr>y_tx := s, y_net := insert x (y_net y)\<rparr>)"
    and s: "sender_inv s" "same_log (sender_reclaim_history (y_tx y)) s" "same_progress (y_tx y) s"
      "sl_waiting_ack (slots s ! i) \<noteq> 0" "sl_inflight_op_id (slots s ! i) = dp_op_id d"
      "s_seq s = s_seq (y_tx y) + 1"
    and x: "x = op_data_wire (s_sender_id s, rid, s_seq (y_tx y)) d"
      "op_data_valid (s_sender_id s, rid, s_seq (y_tx y)) d"
    and d: "dp_stream_id d = s_stream_id s" "dp_op_id d = ?nxt"
    using in_step_poll [OF assms(1-3), of f] by blast
  have same: "s_sender_id s = s_sender_id (y_tx y)" "s_stream_id s = s_stream_id (y_tx y)"
    "s_latest_op_id s = s_latest_op_id (y_tx y)" "s_receiver_capacity s = s_receiver_capacity (y_tx y)"
    using s(2) by (simp_all add: same_log_def)
  have len: "length (slots (y_tx y)) = unat (s_receiver_capacity (y_tx y))"
    "length (slots s) = unat (s_receiver_capacity (y_tx y))"
    using start sender_inv_length [OF s(1)] same by (simp_all add: sys_inv_def sender_inv_length)
  define y1 where "y1 = y\<lparr>y_tx := s, y_net := insert x (y_net y)\<rparr>"
  obtain u where u: "f rid (fst (p_app p)) (dp_op_type d) (dp_value d) = (True, u)"
    using assms(4) by (metis prod.collapse)
  have rid: "r_receiver_id (p_rx p) = rid"
    using start by (auto simp: sys_inv_def peer_ok_def)
  define q where "q = \<lparr>p_rx = (p_rx p)\<lparr>r_last_applied_op_id := dp_op_id d, r_seq := r_seq (p_rx p) + 1\<rparr>,
    p_app = (u, snd (p_app p) @ [(dp_op_type d, dp_value d)])\<rparr>"
  let ?k = "\<lparr>ap_stream_id = r_stream_id (p_rx p), ap_ack_op_id = dp_op_id d\<rparr>"
  define c where "c = op_ack_wire (rid, s_sender_id s, r_seq (p_rx p)) ?k"
  define y2 where "y2 = y1\<lparr>y_peers := (y_peers y1)(rid \<mapsto> q), y_net := insert c (y_net y1)\<rparr>"
  have data: "sys_step f y1 y2"
    and kv: "op_ack_valid (rid, s_sender_id s, r_seq (p_rx p)) ?k"
    using peer_applies [OF x(2,1), of y1 p f u] start d rid u same
    unfolding y2_def q_def c_def by (simp_all add: y1_def)
  have act: "sl_active (slots s ! i) \<noteq> 0" "sl_receiver_id (slots s ! i) = rid"
    and free: "\<And>j. j < unat (s_receiver_capacity s) \<Longrightarrow> j \<noteq> i \<Longrightarrow> sl_active (slots s ! j) = 0"
    using same_progress_nth [OF s(3)] start len same by auto
  have addr: "addressed s (rid, s_sender_id s, r_seq (p_rx p)) i"
    using find_slot_iff [OF s(1)] act start same by (simp add: addressed_def)
  define t where "t = update_slot i (\<lambda>x. x\<lparr>sl_last_acked_op_id := dp_op_id d, sl_waiting_ack := 0,
    sl_inflight_op_id := 0, sl_retries := 0, sl_exhausted := 0\<rparr>) s"
  have "num8lora_sender_handle_rx (Some s) 0 (Some c) 18 = (True, Some (sender_reclaim_history t))"
    using handle_rx_ack_accepts [OF kv, of 18 c s i 0] addr act s(4,5) start same
    by (simp add: c_def t_def)
  moreover have "delivered (y_net y2) c 18"
    by (intro delivered_self) (simp_all add: y2_def c_def)
  moreover have "y_tx y2 = s" by (simp add: y2_def y1_def)
  ultimately have ack: "sys_step f y2 (y2\<lparr>y_tx := sender_reclaim_history t\<rparr>)"
    using sys_step.sender_rx [of y2 c 18 0 True "sender_reclaim_history t" f] by simp
  define z where "z = y2\<lparr>y_tx := sender_reclaim_history t\<rparr>"
  have reach: "sys_reach f y z"
    using poll data ack unfolding y1_def [symmetric] z_def [symmetric]
    by (meson runs.start runs.step)
  have ti: "slots t ! i = (slots s ! i)\<lparr>sl_last_acked_op_id := dp_op_id d, sl_waiting_ack := 0,
      sl_inflight_op_id := 0, sl_retries := 0, sl_exhausted := 0\<rparr>"
    "\<And>j. j \<noteq> i \<Longrightarrow> slots t ! j = slots s ! j"
    using start len by (simp_all add: t_def)
  have inf: "s_oldest_retained_op_id s \<le> dp_op_id d" "dp_op_id d \<le> s_latest_op_id s"
    using sender_inv_slot [OF s(1), of i] start same s(4,5) by (simp_all add: slot_ok_def)
  have "s_latest_op_id s < 0xFFFFFFFF" using start same by simp
  with inf(2) have "dp_op_id d < 0xFFFFFFFF" by (rule le_less_trans)
  then have "dp_op_id d \<le> dp_op_id d + 1"
    by (simp add: word_le_nat_alt unat_Suc_less_u32)
  then have "s_oldest_retained_op_id t \<le> sl_last_acked_op_id (slots t ! i) + 1"
    using inf(1) ti(1) by (simp add: t_def)
  then have "reclaimed_to t \<le> dp_op_id d + 1"
    using reclaimed_to_needed [of i t] start same act ti(1) by (simp add: t_def)
  then have old: "s_oldest_retained_op_id (sender_reclaim_history t) \<le> dp_op_id d + 1"
    using reclaim_log(1) [of t] sender_inv_log [OF s(1)] by (simp add: t_def)
  have tf: "s_sender_id t = s_sender_id s" "s_stream_id t = s_stream_id s"
    "s_latest_op_id t = s_latest_op_id s" "s_receiver_capacity t = s_receiver_capacity s"
    by (simp_all add: t_def)
  have "sys_inv z" using sys_reach_inv [OF reach] start by blast
  moreover have "y_tx z = sender_reclaim_history t" "y_peers z rid = Some q"
    by (simp_all add: z_def y2_def)
  ultimately have "in_step z rid i q"
    using start same ti tf act free old by (simp add: in_step_def Let_def q_def)
  then show ?thesis
    using reach d same s(6) by (intro exI [of _ z] exI [of _ q])
      (simp add: z_def y2_def y1_def q_def t_def)
qed


text \<open>Rounds add up: with sequence numbers to spare the receiver reaches the end of the stream.\<close>

lemma catch_up:
  assumes "in_step y rid i p" "\<And>u t v. fst (f rid u t v)"
    and "unat (s_latest_op_id (y_tx y)) - unat (r_last_applied_op_id (p_rx p)) = k"
    and "unat (s_seq (y_tx y)) + k \<le> 0xFFFF"
  shows "\<exists>z q. sys_reach f y z \<and> in_step z rid i q \<and> y_stream z = y_stream y
    \<and> snd (p_app q) = y_stream y"
  using assms(1,3,4)
proof (induction k arbitrary: y p)
  case 0
  have "peer_ok (y_stream y) rid p" "length (y_stream y) = unat (s_latest_op_id (y_tx y))"
    using 0(1) by (auto simp: in_step_def Let_def sys_inv_def log_represents_def)
  then have "snd (p_app p) = y_stream y"
    using 0(2) by (simp add: peer_ok_def)
  then show ?case
    using 0(1) by (intro exI [of _ y] exI [of _ p]) (simp add: runs.start)
next
  case (Suc k)
  have seq: "s_seq (y_tx y) \<noteq> 0xFFFF"
    using Suc.prems(3) by auto
  have lt: "r_last_applied_op_id (p_rx p) < s_latest_op_id (y_tx y)"
    using Suc.prems(2) by (simp add: word_less_nat_alt)
  obtain z q where z: "sys_reach f y z" "in_step z rid i q" "y_stream z = y_stream y"
      "r_last_applied_op_id (p_rx q) = r_last_applied_op_id (p_rx p) + 1"
      "s_latest_op_id (y_tx z) = s_latest_op_id (y_tx y)" "s_seq (y_tx z) = s_seq (y_tx y) + 1"
    using in_step_round [where f = f, OF Suc.prems(1) seq lt assms(2)] by blast
  have "unat (s_seq (y_tx z)) = unat (s_seq (y_tx y)) + 1"
    using Suc.prems(3) z(6) by (simp add: unat_Suc_word)
  moreover have "unat (r_last_applied_op_id (p_rx q)) = unat (r_last_applied_op_id (p_rx p)) + 1"
    using z(4) lt by (simp add: unat_Suc_less_u32)
  ultimately have "unat (s_latest_op_id (y_tx z)) - unat (r_last_applied_op_id (p_rx q)) = k"
      "unat (s_seq (y_tx z)) + k \<le> 0xFFFF"
    using Suc.prems(2,3) z(5) by simp_all
  then obtain z' q' where "sys_reach f z z'" "in_step z' rid i q'" "y_stream z' = y_stream z"
      "snd (p_app q') = y_stream z"
    using Suc.IH [OF z(2)] by blast
  then show ?case
    using z(3) runs_trans [OF z(1)] by (intro exI [of _ z'] exI [of _ q']) simp
qed

end
