(* ===== verification/Samples.thy ===== *)
theory Samples
  imports Progress
begin

text \<open>
  Concrete states used as witnesses: a sender with a ring of two operations and one receiver slot, a
  receiver, and a run of the system from initialisation to the delivery of one operation. They are
  evaluated with the definitions of the model.
\<close>

definition demo_tx0 :: num8lora_sender where
  "demo_tx0 = \<lparr>s_sender_id = 1, s_seq = 1, s_stream_id = 9, s_latest_op_id = 0,
    s_oldest_retained_op_id = 1, s_op_head = 0, s_poll_cursor = 0, s_ack_timeout_ms = 100,
    s_max_retries = 2, s_ops = Some (replicate 2 \<lparr>so_op_id = 0, so_op_type = 0, so_value = 0\<rparr>),
    s_op_capacity = 2, s_op_count = 0,
    s_receivers = Some [\<lparr>sl_receiver_id = 0, sl_last_acked_op_id = 0, sl_inflight_op_id = 0,
      sl_due_at_ms = 0, sl_waiting_ack = 0, sl_retries = 0, sl_active = 0, sl_exhausted = 0\<rparr>],
    s_receiver_capacity = 1\<rparr>"

definition demo_slot :: num8lora_sender_receiver_slot where
  "demo_slot = \<lparr>sl_receiver_id = 7, sl_last_acked_op_id = 0, sl_inflight_op_id = 0,
    sl_due_at_ms = 0, sl_waiting_ack = 0, sl_retries = 0, sl_active = 1, sl_exhausted = 0\<rparr>"

definition demo_tx1 :: num8lora_sender where
  "demo_tx1 = demo_tx0\<lparr>s_receivers := Some [demo_slot]\<rparr>"

definition demo_tx :: num8lora_sender where
  "demo_tx = demo_tx1\<lparr>s_latest_op_id := 1, s_op_count := 1, s_ops := Some
    [\<lparr>so_op_id = 1, so_op_type = 1, so_value = 5\<rparr>, \<lparr>so_op_id = 0, so_op_type = 0, so_value = 0\<rparr>]\<rparr>"

text \<open>The same sender while it waits for the acknowledgement of operation 1.\<close>

definition demo_tx_waiting :: num8lora_sender where
  "demo_tx_waiting = demo_tx\<lparr>s_seq := 2, s_receivers := Some [demo_slot\<lparr>sl_inflight_op_id := 1,
    sl_waiting_ack := 1, sl_due_at_ms := 100\<rparr>]\<rparr>"

definition demo_rx :: num8lora_receiver where
  "demo_rx = \<lparr>r_receiver_id = 7, r_expected_sender_id = 1, r_seq = 1, r_stream_id = 9,
    r_last_applied_op_id = 0\<rparr>"

definition demo_data :: num8lora_op_data_payload where
  "demo_data = \<lparr>dp_stream_id = 9, dp_op_id = 1, dp_op_type = 1, dp_reserved0 = 0, dp_reserved1 = 0,
    dp_value = 5\<rparr>"

definition demo_ack :: num8lora_op_ack_payload where
  "demo_ack = \<lparr>ap_stream_id = 9, ap_ack_op_id = 1\<rparr>"

text \<open>An application that accepts every operation and counts the calls.\<close>

definition count_calls :: "u16 \<Rightarrow> nat apply_fn" where
  "count_calls rid u t v = (True, u + 1)"

definition demo_start :: "nat system" where
  "demo_start = \<lparr>y_tx = demo_tx0, y_stream = [], y_peers = [7 \<mapsto> \<lparr>p_rx = demo_rx, p_app = (0, [])\<rparr>],
    y_net = {}\<rparr>"

definition demo_sys :: "nat system" where
  "demo_sys = demo_start\<lparr>y_tx := demo_tx, y_stream := [(1, 5)]\<rparr>"

lemmas demo_defs = demo_tx0_def demo_slot_def demo_tx1_def demo_tx_def demo_tx_waiting_def demo_rx_def
  demo_data_def demo_ack_def

lemma demo_init: "num8lora_sender_init (Some zero_sender) 1 9 100 2
    (Some (replicate 2 \<lparr>so_op_id = 3, so_op_type = 4, so_value = 5\<rparr>)) 2 (Some [demo_slot]) 1
  = Some demo_tx0"
  by code_simp

lemma demo_register: "num8lora_sender_register_receiver (Some demo_tx0) 7 0 = (True, Some demo_tx1)"
  by code_simp

lemma demo_enqueue: "num8lora_sender_enqueue_add (Some demo_tx1) 5 (Some 0) = (True, Some demo_tx, Some 1)"
  by code_simp

lemma demo_start: "sys_start demo_start"
  unfolding sys_start_def
proof (intro conjI)
  show "\<exists>s sid stream timeout retries xs m ys n. length xs = unat m \<and> length ys = unat n
      \<and> unat m \<le> 2 ^ 31 \<and> unat n < 2 ^ 27
      \<and> num8lora_sender_init (Some s) sid stream timeout retries (Some xs) m (Some ys) n
        = Some (y_tx demo_start)"
    using demo_init by (intro exI conjI) (auto simp: demo_start_def)
qed (simp_all add: demo_start_def fresh_peer_def demo_rx_def)

lemma demo_reach: "sys_reach count_calls demo_start demo_sys"
proof -
  have "sys_step count_calls demo_start (demo_start\<lparr>y_tx := demo_tx1\<rparr>)"
    using demo_register by (intro sys_step.register [of _ 7 0 True])
      (simp_all add: demo_start_def truthful_def demo_rx_def)
  moreover have "sys_step count_calls (demo_start\<lparr>y_tx := demo_tx1\<rparr>) demo_sys"
    using sys_step.enqueue_add [of "demo_start\<lparr>y_tx := demo_tx1\<rparr>" 5 "Some 0" True demo_tx "Some 1"
      count_calls] demo_enqueue
    by (simp add: demo_sys_def demo_start_def demo_tx1_def demo_tx0_def)
  ultimately show ?thesis by (meson runs.start runs.step)
qed

lemma demo_in_step: "in_step demo_sys 7 0 \<lparr>p_rx = demo_rx, p_app = (0, [])\<rparr>"
proof -
  have "sys_inv demo_sys"
    by (rule sys_reach_inv [OF demo_reach sys_inv_start [OF demo_start]])
  then show ?thesis
    by (simp add: in_step_def Let_def) (simp add: demo_sys_def demo_start_def demo_defs deref_def)
qed

lemma demo_delivered:
  "\<exists>z p. sys_reach count_calls demo_start z \<and> in_step z 7 0 p \<and> y_stream z = [(1, 5)]
    \<and> snd (p_app p) = [(1, 5)]"
proof -
  have "\<exists>z q. sys_reach count_calls demo_sys z \<and> in_step z 7 0 q \<and> y_stream z = y_stream demo_sys
      \<and> snd (p_app q) = y_stream demo_sys"
    by (rule catch_up [OF demo_in_step, where k = 1])
      (simp_all add: count_calls_def demo_sys_def demo_start_def demo_defs)
  then show ?thesis
    using runs_trans [OF demo_reach] by (auto simp: demo_sys_def)
qed

lemma demo_tx_inv: "sender_inv demo_tx" "sender_inv demo_tx_waiting"
  by (simp_all add: sender_inv_def log_inv_def history_def ring_def demo_defs deref_def slot_ok_def
    distinct_ids_def op_legal_def)

lemma demo_rep: "log_represents demo_tx [(1, 5)]"
  using demo_tx_inv(1) by (simp add: log_represents_def sender_inv_log)
    (simp add: history_def ring_def demo_defs deref_def op_entry_def)

lemma demo_rep1: "log_represents demo_tx1 []"
  by (simp add: log_represents_def log_inv_def history_def ring_def demo_defs deref_def)

lemma demo_slots:
  "slots demo_tx = [demo_slot]"
  "slots demo_tx_waiting = [demo_slot\<lparr>sl_inflight_op_id := 1, sl_waiting_ack := 1, sl_due_at_ms := 100\<rparr>]"
  by (simp_all add: demo_tx_def demo_tx1_def demo_tx_waiting_def deref_def)

lemma demo_data_bytes:
  "\<exists>ys c0 c1. op_data_wire (1, 7, 4) demo_data =
    header_bytes 1 NUM8LORA_OP_MSG_DATA 1 7 4 @ [9, 0] @ ys @ [c0, c1]"
  by (simp add: op_data_wire_def frame_def seal_def op_data_bytes_def demo_data_def le32_def le16_def)

end
