(* ===== verification/LegacyFrame.thy ===== *)
theory LegacyFrame
  imports Wire
begin

text \<open>
  \<open>src/src/num8lora.c\<close> and the structs of \<open>src/include/num8lora.h\<close>: the frames of the legacy protocol,
  which ships whole updates (numbers to remove and numbers to add) instead of single operations. Four
  frames have a payload of fixed size and meet the contract of \<open>sealed_message\<close>; the UPDATE_DATA
  frame grows with its two lists of numbers.

  Names that the async protocol uses too keep the C name here, because the prefixes differ.
\<close>

record num8lora_common_header =
  c_protocol_version :: u8
  c_msg_type :: u8
  c_sender_id :: u16
  c_receiver_id :: u16
  c_seq :: u16

record num8lora_beacon_payload =
  b_current_update_id :: u32
  b_dataset_version_from :: u32
  b_dataset_version_to :: u32
  b_remove_count :: u8
  b_add_count :: u8
  b_update_payload_size :: u16
  b_update_payload_crc16 :: u16

record num8lora_update_request_payload =
  q_requested_update_id :: u32
  q_receiver_dataset_ver :: u32

record num8lora_update_header =
  u_update_id :: u32
  u_dataset_version_from :: u32
  u_dataset_version_to :: u32
  u_remove_count :: u8
  u_add_count :: u8
  u_reserved0 :: u16

record num8lora_ack_payload =
  a_ack_update_id :: u32
  a_receiver_dataset_ver :: u32

record num8lora_nack_payload =
  n_nack_update_id :: u32
  n_error_code :: u16
  n_detail :: u16

abbreviation NUM8LORA_PROTOCOL_VERSION :: u8 where "NUM8LORA_PROTOCOL_VERSION \<equiv> 1"
abbreviation NUM8LORA_MSG_BEACON :: u8 where "NUM8LORA_MSG_BEACON \<equiv> 1"
abbreviation NUM8LORA_MSG_UPDATE_REQUEST :: u8 where "NUM8LORA_MSG_UPDATE_REQUEST \<equiv> 2"
abbreviation NUM8LORA_MSG_UPDATE_DATA :: u8 where "NUM8LORA_MSG_UPDATE_DATA \<equiv> 3"
abbreviation NUM8LORA_MSG_ACK :: u8 where "NUM8LORA_MSG_ACK \<equiv> 4"
abbreviation NUM8LORA_MSG_NACK :: u8 where "NUM8LORA_MSG_NACK \<equiv> 5"
abbreviation NUM8LORA_ANY_RECEIVER_ID :: u16 where "NUM8LORA_ANY_RECEIVER_ID \<equiv> 0xFFFF"

abbreviation NUM8LORA_ERR_NONE :: u16 where "NUM8LORA_ERR_NONE \<equiv> 0"
abbreviation NUM8LORA_ERR_CRC_FAIL :: u16 where "NUM8LORA_ERR_CRC_FAIL \<equiv> 1"
abbreviation NUM8LORA_ERR_PROTOCOL_VERSION_UNSUPPORTED :: u16 where
  "NUM8LORA_ERR_PROTOCOL_VERSION_UNSUPPORTED \<equiv> 2"
abbreviation NUM8LORA_ERR_INVALID_MESSAGE_TYPE :: u16 where "NUM8LORA_ERR_INVALID_MESSAGE_TYPE \<equiv> 3"
abbreviation NUM8LORA_ERR_INVALID_RECEIVER_ID :: u16 where "NUM8LORA_ERR_INVALID_RECEIVER_ID \<equiv> 4"
abbreviation NUM8LORA_ERR_UPDATE_ID_UNKNOWN :: u16 where "NUM8LORA_ERR_UPDATE_ID_UNKNOWN \<equiv> 5"
abbreviation NUM8LORA_ERR_DATASET_VERSION_MISMATCH :: u16 where
  "NUM8LORA_ERR_DATASET_VERSION_MISMATCH \<equiv> 6"
abbreviation NUM8LORA_ERR_INVALID_NUMBER :: u16 where "NUM8LORA_ERR_INVALID_NUMBER \<equiv> 7"
abbreviation NUM8LORA_ERR_DUPLICATE_IN_BATCH :: u16 where "NUM8LORA_ERR_DUPLICATE_IN_BATCH \<equiv> 8"
abbreviation NUM8LORA_ERR_NUMBER_IN_BOTH :: u16 where "NUM8LORA_ERR_NUMBER_IN_BOTH \<equiv> 9"
abbreviation NUM8LORA_ERR_APPLY_FAILED :: u16 where "NUM8LORA_ERR_APPLY_FAILED \<equiv> 10"
abbreviation NUM8LORA_ERR_BUSY :: u16 where "NUM8LORA_ERR_BUSY \<equiv> 11"
abbreviation NUM8LORA_ERR_INTERNAL :: u16 where "NUM8LORA_ERR_INTERNAL \<equiv> 12"
abbreviation NUM8LORA_ERR_OUTPUT_TOO_SMALL :: u16 where "NUM8LORA_ERR_OUTPUT_TOO_SMALL \<equiv> 13"

abbreviation NUM8LORA_COMMON_HDR_SIZE :: u32 where "NUM8LORA_COMMON_HDR_SIZE \<equiv> 8"
abbreviation NUM8LORA_CRC_SIZE :: u32 where "NUM8LORA_CRC_SIZE \<equiv> 2"
abbreviation NUM8LORA_BEACON_PAYLOAD_SIZE :: u32 where "NUM8LORA_BEACON_PAYLOAD_SIZE \<equiv> 18"
abbreviation NUM8LORA_REQ_PAYLOAD_SIZE :: u32 where "NUM8LORA_REQ_PAYLOAD_SIZE \<equiv> 8"
abbreviation NUM8LORA_ACK_PAYLOAD_SIZE :: u32 where "NUM8LORA_ACK_PAYLOAD_SIZE \<equiv> 8"
abbreviation NUM8LORA_NACK_PAYLOAD_SIZE :: u32 where "NUM8LORA_NACK_PAYLOAD_SIZE \<equiv> 8"
abbreviation NUM8LORA_UPDATE_FIXED_PAYLOAD_SIZE :: u32 where
  "NUM8LORA_UPDATE_FIXED_PAYLOAD_SIZE \<equiv> 16"
abbreviation NUM8LORA_MAX_VALUE :: u32 where "NUM8LORA_MAX_VALUE \<equiv> 99999999"

abbreviation "st16 \<equiv> num8lora_codec_write_u16_le"
abbreviation "st32 \<equiv> num8lora_codec_write_u32_le"
abbreviation "ld16 \<equiv> num8lora_codec_read_u16_le"
abbreviation "ld32 \<equiv> num8lora_codec_read_u32_le"

subsection \<open>Static helpers\<close>

definition add_len_u32 :: "u32 \<Rightarrow> u32 \<Rightarrow> u32 ptr \<Rightarrow> bool \<times> u32 ptr" where
  "add_len_u32 a b out = num8lora_codec_add_u32 a b out"

definition frame_len_u32 :: "u32 \<Rightarrow> u32 ptr \<Rightarrow> bool \<times> u32 ptr" where
  "frame_len_u32 payload out =
    (case add_len_u32 NUM8LORA_COMMON_HDR_SIZE payload (Some 0) of (ok, len) \<Rightarrow>
       if \<not> ok then (False, out) else add_len_u32 (the len) NUM8LORA_CRC_SIZE out)"

definition crc16_update_byte :: "u16 \<Rightarrow> u8 \<Rightarrow> u16" where
  "crc16_update_byte crc byte =
    ((\<lambda>crc. if crc AND 0x8000 \<noteq> 0
       then ucast (push_bit 1 (ucast crc :: u32) XOR 0x1021)
       else ucast (push_bit 1 (ucast crc :: u32))) ^^ 8) (crc XOR push_bit 8 (ucast byte))"

definition crc16_update_u16 :: "u16 \<Rightarrow> u16 \<Rightarrow> u16" where
  "crc16_update_u16 crc v =
    (let crc = crc16_update_byte crc (ucast (v AND 0xFF))
     in crc16_update_byte crc (ucast (drop_bit 8 v AND 0xFF)))"

definition crc16_update_u32 :: "u16 \<Rightarrow> u32 \<Rightarrow> u16" where
  "crc16_update_u32 crc v =
    (let crc = crc16_update_byte crc (ucast (v AND 0xFF));
         crc = crc16_update_byte crc (ucast (drop_bit 8 v AND 0xFF));
         crc = crc16_update_byte crc (ucast (drop_bit 16 v AND 0xFF))
     in crc16_update_byte crc (ucast (drop_bit 24 v AND 0xFF)))"

definition valid_number :: "u32 \<Rightarrow> bool" where
  "valid_number v \<longleftrightarrow> v \<le> NUM8LORA_MAX_VALUE"

definition encode_common :: "u8 list \<Rightarrow> u8 \<Rightarrow> u16 \<Rightarrow> u16 \<Rightarrow> u16 \<Rightarrow> u8 list" where
  "encode_common out msg_type sender_id receiver_id seq =
    (let out = out[0 := NUM8LORA_PROTOCOL_VERSION];
         out = out[1 := msg_type];
         out = st16 out 2 sender_id;
         out = st16 out 4 receiver_id
     in st16 out 6 seq)"

definition finalize_crc :: "u8 list \<Rightarrow> u32 \<Rightarrow> u8 list" where
  "finalize_crc out total_len =
    (let crc = num8lora_codec_crc16_ccitt_false (Some out) (total_len - 2)
     in st16 out (unat (total_len - 2)) crc)"

definition num8lora_crc16_ccitt_false :: "u8 list ptr \<Rightarrow> u32 \<Rightarrow> u16" where
  "num8lora_crc16_ccitt_false data len = num8lora_codec_crc16_ccitt_false data len"

subsection \<open>Encoders\<close>

definition num8lora_encode_beacon ::
  "u8 list ptr \<Rightarrow> u32 \<Rightarrow> u16 \<Rightarrow> u16 \<Rightarrow> num8lora_beacon_payload ptr \<Rightarrow> u32 ptr
    \<Rightarrow> bool \<times> u8 list ptr \<times> u32 ptr" where
  "num8lora_encode_beacon out_buf out_cap sender_id seq payload out_len =
    (let out_len = store 0 out_len;
         stop = (False, out_buf, out_len) in
     case (out_buf, payload, out_len) of
       (Some b, Some p, Some _) \<Rightarrow>
         if sender_id = 0 then stop
         else if b_current_update_id p = 0 \<or> b_dataset_version_to p \<le> b_dataset_version_from p then stop
         else (case add_len_u32 16 (4 * ucast (b_remove_count p)) (Some 0) of (ok, expected_size) \<Rightarrow>
           if \<not> ok then stop
           else (case add_len_u32 (the expected_size) (4 * ucast (b_add_count p)) expected_size of
             (ok, expected_size) \<Rightarrow>
               if \<not> ok then stop
               else if ucast (b_update_payload_size p) \<noteq> the expected_size then stop
               else (case frame_len_u32 NUM8LORA_BEACON_PAYLOAD_SIZE (Some 0) of (ok, len) \<Rightarrow>
                 if \<not> ok \<or> out_cap < the len then stop
                 else
                   let b = encode_common b NUM8LORA_MSG_BEACON sender_id 0 seq;
                       b = st32 b 8 (b_current_update_id p);
                       b = st32 b 12 (b_dataset_version_from p);
                       b = st32 b 16 (b_dataset_version_to p);
                       b = b[20 := b_remove_count p];
                       b = b[21 := b_add_count p];
                       b = st16 b 22 (b_update_payload_size p);
                       b = st16 b 24 (b_update_payload_crc16 p);
                       b = finalize_crc b (the len)
                   in (True, Some b, len))))
     | _ \<Rightarrow> stop)"

definition num8lora_encode_update_request ::
  "u8 list ptr \<Rightarrow> u32 \<Rightarrow> u16 \<Rightarrow> u16 \<Rightarrow> u16 \<Rightarrow> num8lora_update_request_payload ptr \<Rightarrow> u32 ptr
    \<Rightarrow> bool \<times> u8 list ptr \<times> u32 ptr" where
  "num8lora_encode_update_request out_buf out_cap sender_id receiver_id seq payload out_len =
    (let out_len = store 0 out_len;
         stop = (False, out_buf, out_len) in
     case (out_buf, payload, out_len) of
       (Some b, Some p, Some _) \<Rightarrow>
         if sender_id = 0 \<or> receiver_id = 0 then stop
         else if q_requested_update_id p = 0 then stop
         else (case frame_len_u32 NUM8LORA_REQ_PAYLOAD_SIZE (Some 0) of (ok, len) \<Rightarrow>
           if \<not> ok \<or> out_cap < the len then stop
           else
             let b = encode_common b NUM8LORA_MSG_UPDATE_REQUEST sender_id receiver_id seq;
                 b = st32 b 8 (q_requested_update_id p);
                 b = st32 b 12 (q_receiver_dataset_ver p);
                 b = finalize_crc b (the len)
             in (True, Some b, len))
     | _ \<Rightarrow> stop)"

text \<open>One of the two loops of \<open>num8lora_encode_update_data\<close>, over the numbers still to come.\<close>

fun store_numbers :: "u32 list \<Rightarrow> u8 list \<Rightarrow> u32 \<Rightarrow> u8 list \<times> u32" where
  "store_numbers [] out_buf off = (out_buf, off)"
| "store_numbers (v # vs) out_buf off = store_numbers vs (st32 out_buf (unat off) v) (off + 4)"

definition num8lora_encode_update_data ::
  "u8 list ptr \<Rightarrow> u32 \<Rightarrow> u16 \<Rightarrow> u16 \<Rightarrow> u16 \<Rightarrow> num8lora_update_header ptr \<Rightarrow> u32 list ptr \<Rightarrow> u32 list ptr
    \<Rightarrow> u32 ptr \<Rightarrow> bool \<times> u8 list ptr \<times> u32 ptr" where
  "num8lora_encode_update_data out_buf out_cap sender_id receiver_id seq hdr remove_numbers add_numbers
     out_len =
    (let out_len = store 0 out_len;
         stop = (False, out_buf, out_len) in
     case (out_buf, hdr, out_len) of
       (Some b, Some h, Some _) \<Rightarrow>
         if sender_id = 0 \<or> receiver_id = 0 then stop
         else
           let rc = ucast (u_remove_count h) :: u32;
               ac = ucast (u_add_count h) :: u32 in
           if u_update_id h = 0 \<or> u_dataset_version_to h \<le> u_dataset_version_from h
              \<or> u_reserved0 h \<noteq> 0 then stop
           else (case num8lora_codec_mul_u32 rc 4 (Some 0) of (ok, payload_len) \<Rightarrow>
             if \<not> ok then stop
             else (case num8lora_codec_add_u32 NUM8LORA_UPDATE_FIXED_PAYLOAD_SIZE (the payload_len)
                     payload_len of (ok, payload_len) \<Rightarrow>
               if \<not> ok then stop
               else (case num8lora_codec_mul_u32 ac 4 (Some 0) of (ok, len) \<Rightarrow>
                 if \<not> ok then stop
                 else (case num8lora_codec_add_u32 (the payload_len) (the len) payload_len of
                   (ok, payload_len) \<Rightarrow>
                     if \<not> ok then stop
                     else (case frame_len_u32 (the payload_len) len of (ok, len) \<Rightarrow>
                       if \<not> ok \<or> out_cap < the len then stop
                       else if (rc > 0 \<and> remove_numbers = None) \<or> (ac > 0 \<and> add_numbers = None)
                       then stop
                       else
                         let b = encode_common b NUM8LORA_MSG_UPDATE_DATA sender_id receiver_id seq;
                             b = st32 b 8 (u_update_id h);
                             b = st32 b 12 (u_dataset_version_from h);
                             b = st32 b 16 (u_dataset_version_to h);
                             b = b[20 := u_remove_count h];
                             b = b[21 := u_add_count h];
                             b = st16 b 22 0;
                             (b, off) = store_numbers (take (unat rc) (deref remove_numbers)) b 24;
                             (b, off) = store_numbers (take (unat ac) (deref add_numbers)) b off;
                             b = finalize_crc b (the len)
                         in (True, Some b, len))))))
     | _ \<Rightarrow> stop)"

definition num8lora_encode_ack ::
  "u8 list ptr \<Rightarrow> u32 \<Rightarrow> u16 \<Rightarrow> u16 \<Rightarrow> u16 \<Rightarrow> num8lora_ack_payload ptr \<Rightarrow> u32 ptr
    \<Rightarrow> bool \<times> u8 list ptr \<times> u32 ptr" where
  "num8lora_encode_ack out_buf out_cap sender_id receiver_id seq payload out_len =
    (let out_len = store 0 out_len;
         stop = (False, out_buf, out_len) in
     case (out_buf, payload, out_len) of
       (Some b, Some p, Some _) \<Rightarrow>
         if sender_id = 0 \<or> receiver_id = 0 then stop
         else if a_ack_update_id p = 0 \<or> a_receiver_dataset_ver p = 0 then stop
         else (case frame_len_u32 NUM8LORA_ACK_PAYLOAD_SIZE (Some 0) of (ok, len) \<Rightarrow>
           if \<not> ok \<or> out_cap < the len then stop
           else
             let b = encode_common b NUM8LORA_MSG_ACK sender_id receiver_id seq;
                 b = st32 b 8 (a_ack_update_id p);
                 b = st32 b 12 (a_receiver_dataset_ver p);
                 b = finalize_crc b (the len)
             in (True, Some b, len))
     | _ \<Rightarrow> stop)"

definition num8lora_encode_nack ::
  "u8 list ptr \<Rightarrow> u32 \<Rightarrow> u16 \<Rightarrow> u16 \<Rightarrow> u16 \<Rightarrow> num8lora_nack_payload ptr \<Rightarrow> u32 ptr
    \<Rightarrow> bool \<times> u8 list ptr \<times> u32 ptr" where
  "num8lora_encode_nack out_buf out_cap sender_id receiver_id seq payload out_len =
    (let out_len = store 0 out_len;
         stop = (False, out_buf, out_len) in
     case (out_buf, payload, out_len) of
       (Some b, Some p, Some _) \<Rightarrow>
         if sender_id = 0 \<or> receiver_id = 0 then stop
         else if n_nack_update_id p = 0 then stop
         else (case frame_len_u32 NUM8LORA_NACK_PAYLOAD_SIZE (Some 0) of (ok, len) \<Rightarrow>
           if \<not> ok \<or> out_cap < the len then stop
           else
             let b = encode_common b NUM8LORA_MSG_NACK sender_id receiver_id seq;
                 b = st32 b 8 (n_nack_update_id p);
                 b = st16 b 12 (n_error_code p);
                 b = st16 b 14 (n_detail p);
                 b = finalize_crc b (the len)
             in (True, Some b, len))
     | _ \<Rightarrow> stop)"

subsection \<open>Decoders\<close>

definition zero_common_header :: num8lora_common_header where
  "zero_common_header = \<lparr>c_protocol_version = 0, c_msg_type = 0, c_sender_id = 0, c_receiver_id = 0,
    c_seq = 0\<rparr>"

definition num8lora_decode_common_header ::
  "u8 list ptr \<Rightarrow> u32 \<Rightarrow> num8lora_common_header ptr \<Rightarrow> bool \<times> num8lora_common_header ptr" where
  "num8lora_decode_common_header buf len out_hdr =
    (let out_hdr = store zero_common_header out_hdr in
     case (buf, out_hdr) of
       (Some b, Some _) \<Rightarrow>
         if len < NUM8LORA_COMMON_HDR_SIZE then (False, out_hdr)
         else (True, Some \<lparr>c_protocol_version = b ! 0, c_msg_type = b ! 1, c_sender_id = ld16 b 2,
           c_receiver_id = ld16 b 4, c_seq = ld16 b 6\<rparr>)
     | _ \<Rightarrow> (False, out_hdr))"

definition num8lora_validate_frame_crc :: "u8 list ptr \<Rightarrow> u32 \<Rightarrow> bool" where
  "num8lora_validate_frame_crc buf len =
    (case buf of
       None \<Rightarrow> False
     | Some b \<Rightarrow>
         if len < NUM8LORA_COMMON_HDR_SIZE + NUM8LORA_CRC_SIZE then False
         else ld16 b (unat (len - 2)) = num8lora_crc16_ccitt_false (Some b) (len - 2))"

definition decode_header_and_crc ::
  "u8 list ptr \<Rightarrow> u32 \<Rightarrow> u8 \<Rightarrow> num8lora_common_header ptr \<Rightarrow> bool \<times> num8lora_common_header ptr" where
  "decode_header_and_crc buf len kind out_hdr =
    (if \<not> num8lora_validate_frame_crc buf len then (False, out_hdr)
     else case num8lora_decode_common_header buf len out_hdr of
       (True, Some h) \<Rightarrow>
         (if c_protocol_version h \<noteq> NUM8LORA_PROTOCOL_VERSION \<or> c_msg_type h \<noteq> kind
          then (False, Some h) else (True, Some h))
     | (_, out_hdr) \<Rightarrow> (False, out_hdr))"

definition zero_beacon_payload :: num8lora_beacon_payload where
  "zero_beacon_payload = \<lparr>b_current_update_id = 0, b_dataset_version_from = 0, b_dataset_version_to = 0,
    b_remove_count = 0, b_add_count = 0, b_update_payload_size = 0, b_update_payload_crc16 = 0\<rparr>"

definition num8lora_decode_beacon ::
  "u8 list ptr \<Rightarrow> u32 \<Rightarrow> num8lora_common_header ptr \<Rightarrow> num8lora_beacon_payload ptr
    \<Rightarrow> bool \<times> num8lora_common_header ptr \<times> num8lora_beacon_payload ptr" where
  "num8lora_decode_beacon buf len out_hdr out_payload =
    (let out_payload = store zero_beacon_payload out_payload in
     case (buf, out_hdr, out_payload) of
       (Some b, Some _, Some _) \<Rightarrow>
         if len \<noteq> 28 then (False, out_hdr, out_payload)
         else (case decode_header_and_crc buf len NUM8LORA_MSG_BEACON out_hdr of (ok, out_hdr) \<Rightarrow>
           if \<not> ok then (False, out_hdr, out_payload)
           else
             let h = the out_hdr;
                 p = \<lparr>b_current_update_id = ld32 b 8, b_dataset_version_from = ld32 b 12,
                   b_dataset_version_to = ld32 b 16, b_remove_count = b ! 20, b_add_count = b ! 21,
                   b_update_payload_size = ld16 b 22, b_update_payload_crc16 = ld16 b 24\<rparr>
             in if c_sender_id h = 0 \<or> c_receiver_id h \<noteq> 0 \<or> b_current_update_id p = 0
                   \<or> b_dataset_version_to p \<le> b_dataset_version_from p
                then (False, out_hdr, Some p)
                else if (ucast (b_update_payload_size p) :: u32)
                  \<noteq> 16 + 4 * ucast (b_remove_count p) + 4 * ucast (b_add_count p)
                then (False, out_hdr, Some p)
                else (True, out_hdr, Some p))
     | _ \<Rightarrow> (False, out_hdr, out_payload))"

definition num8lora_decode_update_request ::
  "u8 list ptr \<Rightarrow> u32 \<Rightarrow> num8lora_common_header ptr \<Rightarrow> num8lora_update_request_payload ptr
    \<Rightarrow> bool \<times> num8lora_common_header ptr \<times> num8lora_update_request_payload ptr" where
  "num8lora_decode_update_request buf len out_hdr out_payload =
    (let out_payload = store \<lparr>q_requested_update_id = 0, q_receiver_dataset_ver = 0\<rparr> out_payload in
     case (buf, out_hdr, out_payload) of
       (Some b, Some _, Some _) \<Rightarrow>
         if len \<noteq> 18 then (False, out_hdr, out_payload)
         else (case decode_header_and_crc buf len NUM8LORA_MSG_UPDATE_REQUEST out_hdr of (ok, out_hdr) \<Rightarrow>
           if \<not> ok then (False, out_hdr, out_payload)
           else
             let h = the out_hdr;
                 p = \<lparr>q_requested_update_id = ld32 b 8, q_receiver_dataset_ver = ld32 b 12\<rparr>
             in (c_sender_id h \<noteq> 0 \<and> c_receiver_id h \<noteq> 0 \<and> q_requested_update_id p \<noteq> 0, out_hdr, Some p))
     | _ \<Rightarrow> (False, out_hdr, out_payload))"

definition zero_update_header :: num8lora_update_header where
  "zero_update_header = \<lparr>u_update_id = 0, u_dataset_version_from = 0, u_dataset_version_to = 0,
    u_remove_count = 0, u_add_count = 0, u_reserved0 = 0\<rparr>"

text \<open>A pointer into the frame is an offset; the two cells for pointers may themselves be NULL.\<close>

definition num8lora_decode_update_data_header ::
  "u8 list ptr \<Rightarrow> u32 \<Rightarrow> num8lora_common_header ptr \<Rightarrow> num8lora_update_header ptr
    \<Rightarrow> nat ptr ptr \<Rightarrow> nat ptr ptr
    \<Rightarrow> bool \<times> num8lora_common_header ptr \<times> num8lora_update_header ptr \<times> nat ptr ptr \<times> nat ptr ptr" where
  "num8lora_decode_update_data_header buf len out_hdr out_upd_hdr out_remove_ptr out_add_ptr =
    (let out_upd_hdr = store zero_update_header out_upd_hdr;
         out_remove_ptr = store None out_remove_ptr;
         out_add_ptr = store None out_add_ptr in
     case (buf, out_hdr, out_upd_hdr, out_remove_ptr, out_add_ptr) of
       (Some b, Some _, Some _, Some _, Some _) \<Rightarrow>
         (case decode_header_and_crc buf len NUM8LORA_MSG_UPDATE_DATA out_hdr of (ok, out_hdr) \<Rightarrow>
           if \<not> ok then (False, out_hdr, out_upd_hdr, out_remove_ptr, out_add_ptr)
           else if len < 26 then (False, out_hdr, out_upd_hdr, out_remove_ptr, out_add_ptr)
           else
             let h = the out_hdr;
                 u = \<lparr>u_update_id = ld32 b 8, u_dataset_version_from = ld32 b 12,
                   u_dataset_version_to = ld32 b 16, u_remove_count = b ! 20, u_add_count = b ! 21,
                   u_reserved0 = ld16 b 22\<rparr>;
                 rc = ucast (u_remove_count u) :: u32;
                 ac = ucast (u_add_count u) :: u32;
                 expected = 26 + 4 * rc + 4 * ac
             in if len \<noteq> expected \<or> u_reserved0 u \<noteq> 0 \<or> c_sender_id h = 0 \<or> c_receiver_id h = 0
                   \<or> u_update_id u = 0 \<or> u_dataset_version_to u \<le> u_dataset_version_from u
                then (False, out_hdr, Some u, out_remove_ptr, out_add_ptr)
                else (True, out_hdr, Some u, Some (Some 24), Some (Some (unat (24 + 4 * rc)))))
     | _ \<Rightarrow> (False, out_hdr, out_upd_hdr, out_remove_ptr, out_add_ptr))"

definition num8lora_decode_ack ::
  "u8 list ptr \<Rightarrow> u32 \<Rightarrow> num8lora_common_header ptr \<Rightarrow> num8lora_ack_payload ptr
    \<Rightarrow> bool \<times> num8lora_common_header ptr \<times> num8lora_ack_payload ptr" where
  "num8lora_decode_ack buf len out_hdr out_payload =
    (let out_payload = store \<lparr>a_ack_update_id = 0, a_receiver_dataset_ver = 0\<rparr> out_payload in
     case (buf, out_hdr, out_payload) of
       (Some b, Some _, Some _) \<Rightarrow>
         if len \<noteq> 18 then (False, out_hdr, out_payload)
         else (case decode_header_and_crc buf len NUM8LORA_MSG_ACK out_hdr of (ok, out_hdr) \<Rightarrow>
           if \<not> ok then (False, out_hdr, out_payload)
           else
             let h = the out_hdr;
                 p = \<lparr>a_ack_update_id = ld32 b 8, a_receiver_dataset_ver = ld32 b 12\<rparr>
             in (c_sender_id h \<noteq> 0 \<and> c_receiver_id h \<noteq> 0 \<and> a_ack_update_id p \<noteq> 0
                \<and> a_receiver_dataset_ver p \<noteq> 0, out_hdr, Some p))
     | _ \<Rightarrow> (False, out_hdr, out_payload))"

definition num8lora_decode_nack ::
  "u8 list ptr \<Rightarrow> u32 \<Rightarrow> num8lora_common_header ptr \<Rightarrow> num8lora_nack_payload ptr
    \<Rightarrow> bool \<times> num8lora_common_header ptr \<times> num8lora_nack_payload ptr" where
  "num8lora_decode_nack buf len out_hdr out_payload =
    (let out_payload = store \<lparr>n_nack_update_id = 0, n_error_code = 0, n_detail = 0\<rparr> out_payload in
     case (buf, out_hdr, out_payload) of
       (Some b, Some _, Some _) \<Rightarrow>
         if len \<noteq> 18 then (False, out_hdr, out_payload)
         else (case decode_header_and_crc buf len NUM8LORA_MSG_NACK out_hdr of (ok, out_hdr) \<Rightarrow>
           if \<not> ok then (False, out_hdr, out_payload)
           else
             let h = the out_hdr;
                 p = \<lparr>n_nack_update_id = ld32 b 8, n_error_code = ld16 b 12, n_detail = ld16 b 14\<rparr>
             in (c_sender_id h \<noteq> 0 \<and> c_receiver_id h \<noteq> 0 \<and> n_nack_update_id p \<noteq> 0, out_hdr, Some p))
     | _ \<Rightarrow> (False, out_hdr, out_payload))"

end
