(* ===== verification/LegacyWire.thy ===== *)
theory LegacyWire
  imports LegacyFrame
begin

text \<open>
  The four legacy frames of fixed size meet the contract of \<open>sealed_message\<close>: BEACON, UPDATE_REQUEST,
  ACK and NACK. Their payload formats and validity conditions are stated first, then the common steps
  of the encoders and decoders, then one interpretation per message.
\<close>

subsection \<open>Headers and payloads as bytes\<close>

definition legacy_header :: "u8 \<Rightarrow> u16 \<Rightarrow> u16 \<Rightarrow> u16 \<Rightarrow> num8lora_common_header" where
  "legacy_header kind sid rid sq = \<lparr>c_protocol_version = 1, c_msg_type = kind, c_sender_id = sid,
    c_receiver_id = rid, c_seq = sq\<rparr>"

fun legacy_broadcast_header :: "u16 \<times> u16 \<Rightarrow> num8lora_common_header" where
  "legacy_broadcast_header (sid, sq) = legacy_header NUM8LORA_MSG_BEACON sid 0 sq"

fun legacy_unicast_header :: "u8 \<Rightarrow> u16 \<times> u16 \<times> u16 \<Rightarrow> num8lora_common_header" where
  "legacy_unicast_header kind (sid, rid, sq) = legacy_header kind sid rid sq"

definition legacy_legal :: "u8 \<Rightarrow> u16 \<Rightarrow> u16 \<Rightarrow> bool" where
  "legacy_legal kind sid rid \<longleftrightarrow> sid \<noteq> 0 \<and> (rid = 0 \<longleftrightarrow> kind = NUM8LORA_MSG_BEACON)"

text \<open>The size of the UPDATE_DATA payload that a beacon announces.\<close>

definition announced_size :: "u8 \<Rightarrow> u8 \<Rightarrow> u32" where
  "announced_size rc ac = 16 + 4 * ucast rc + 4 * ucast ac"

definition legacy_beacon_bytes :: "num8lora_beacon_payload \<Rightarrow> u8 list" where
  "legacy_beacon_bytes p = le32 (b_current_update_id p) @ le32 (b_dataset_version_from p)
    @ le32 (b_dataset_version_to p) @ [b_remove_count p, b_add_count p]
    @ le16 (b_update_payload_size p) @ le16 (b_update_payload_crc16 p)"

definition legacy_beacon_parse :: "u8 list \<Rightarrow> num8lora_beacon_payload" where
  "legacy_beacon_parse b = \<lparr>b_current_update_id = ld32 b 0, b_dataset_version_from = ld32 b 4,
    b_dataset_version_to = ld32 b 8, b_remove_count = b ! 12, b_add_count = b ! 13,
    b_update_payload_size = ld16 b 14, b_update_payload_crc16 = ld16 b 16\<rparr>"

definition legacy_beacon_ok :: "num8lora_beacon_payload \<Rightarrow> bool" where
  "legacy_beacon_ok p \<longleftrightarrow> b_current_update_id p \<noteq> 0 \<and> b_dataset_version_from p < b_dataset_version_to p
    \<and> ucast (b_update_payload_size p) = announced_size (b_remove_count p) (b_add_count p)"

definition legacy_request_bytes :: "num8lora_update_request_payload \<Rightarrow> u8 list" where
  "legacy_request_bytes p = le32 (q_requested_update_id p) @ le32 (q_receiver_dataset_ver p)"

definition legacy_request_parse :: "u8 list \<Rightarrow> num8lora_update_request_payload" where
  "legacy_request_parse b = \<lparr>q_requested_update_id = ld32 b 0, q_receiver_dataset_ver = ld32 b 4\<rparr>"

definition legacy_request_ok :: "num8lora_update_request_payload \<Rightarrow> bool" where
  "legacy_request_ok p \<longleftrightarrow> q_requested_update_id p \<noteq> 0"

definition legacy_ack_bytes :: "num8lora_ack_payload \<Rightarrow> u8 list" where
  "legacy_ack_bytes p = le32 (a_ack_update_id p) @ le32 (a_receiver_dataset_ver p)"

definition legacy_ack_parse :: "u8 list \<Rightarrow> num8lora_ack_payload" where
  "legacy_ack_parse b = \<lparr>a_ack_update_id = ld32 b 0, a_receiver_dataset_ver = ld32 b 4\<rparr>"

definition legacy_ack_ok :: "num8lora_ack_payload \<Rightarrow> bool" where
  "legacy_ack_ok p \<longleftrightarrow> a_ack_update_id p \<noteq> 0 \<and> a_receiver_dataset_ver p \<noteq> 0"

definition legacy_nack_bytes :: "num8lora_nack_payload \<Rightarrow> u8 list" where
  "legacy_nack_bytes p = le32 (n_nack_update_id p) @ le16 (n_error_code p) @ le16 (n_detail p)"

definition legacy_nack_parse :: "u8 list \<Rightarrow> num8lora_nack_payload" where
  "legacy_nack_parse b = \<lparr>n_nack_update_id = ld32 b 0, n_error_code = ld16 b 4, n_detail = ld16 b 6\<rparr>"

definition legacy_nack_ok :: "num8lora_nack_payload \<Rightarrow> bool" where
  "legacy_nack_ok p \<longleftrightarrow> n_nack_update_id p \<noteq> 0"

fun legacy_beacon_wire :: "u16 \<times> u16 \<Rightarrow> num8lora_beacon_payload \<Rightarrow> u8 list" where
  "legacy_beacon_wire (sid, sq) p = frame NUM8LORA_MSG_BEACON sid 0 sq (legacy_beacon_bytes p)"

fun legacy_beacon_valid :: "u16 \<times> u16 \<Rightarrow> num8lora_beacon_payload \<Rightarrow> bool" where
  "legacy_beacon_valid (sid, sq) p \<longleftrightarrow> sid \<noteq> 0 \<and> legacy_beacon_ok p"

fun legacy_frame :: "u8 \<Rightarrow> u16 \<times> u16 \<times> u16 \<Rightarrow> u8 list \<Rightarrow> u8 list" where
  "legacy_frame kind (sid, rid, sq) pay = frame kind sid rid sq pay"

fun legacy_addresses :: "u16 \<times> u16 \<times> u16 \<Rightarrow> bool" where
  "legacy_addresses (sid, rid, sq) \<longleftrightarrow> sid \<noteq> 0 \<and> rid \<noteq> 0"

definition legacy_request_wire :: "u16 \<times> u16 \<times> u16 \<Rightarrow> num8lora_update_request_payload \<Rightarrow> u8 list" where
  "legacy_request_wire a p = legacy_frame NUM8LORA_MSG_UPDATE_REQUEST a (legacy_request_bytes p)"

definition legacy_request_valid :: "u16 \<times> u16 \<times> u16 \<Rightarrow> num8lora_update_request_payload \<Rightarrow> bool" where
  "legacy_request_valid a p \<longleftrightarrow> legacy_addresses a \<and> legacy_request_ok p"

definition legacy_ack_wire :: "u16 \<times> u16 \<times> u16 \<Rightarrow> num8lora_ack_payload \<Rightarrow> u8 list" where
  "legacy_ack_wire a p = legacy_frame NUM8LORA_MSG_ACK a (legacy_ack_bytes p)"

definition legacy_ack_valid :: "u16 \<times> u16 \<times> u16 \<Rightarrow> num8lora_ack_payload \<Rightarrow> bool" where
  "legacy_ack_valid a p \<longleftrightarrow> legacy_addresses a \<and> legacy_ack_ok p"

definition legacy_nack_wire :: "u16 \<times> u16 \<times> u16 \<Rightarrow> num8lora_nack_payload \<Rightarrow> u8 list" where
  "legacy_nack_wire a p = legacy_frame NUM8LORA_MSG_NACK a (legacy_nack_bytes p)"

definition legacy_nack_valid :: "u16 \<times> u16 \<times> u16 \<Rightarrow> num8lora_nack_payload \<Rightarrow> bool" where
  "legacy_nack_valid a p \<longleftrightarrow> legacy_addresses a \<and> legacy_nack_ok p"

interpretation legacy_beacon_payload: payload_format legacy_beacon_bytes legacy_beacon_parse 18
proof
  fix p :: num8lora_beacon_payload and rest bs :: "u8 list"
  show "length (legacy_beacon_bytes p) = 18"
    by (simp add: legacy_beacon_bytes_def)
  show "legacy_beacon_parse (legacy_beacon_bytes p @ rest) = p"
    by (simp add: legacy_beacon_bytes_def legacy_beacon_parse_def layout nth_append)
  show "legacy_beacon_bytes (legacy_beacon_parse bs) = bs" if len: "length bs = 18"
  proof -
    obtain x0 x1 x2 x3 x4 x5 x6 x7 x8 x9 x10 x11 x12 x13 x14 x15 x16 x17 where
      "bs = [x0, x1, x2, x3, x4, x5, x6, x7, x8, x9, x10, x11, x12, x13, x14, x15, x16, x17]"
      using len by (auto simp: numeral_eq_Suc length_Suc_conv)
    then show ?thesis
      by (simp add: legacy_beacon_bytes_def legacy_beacon_parse_def layout)
  qed
qed

interpretation legacy_request_payload: payload_format legacy_request_bytes legacy_request_parse 8
proof
  fix p :: num8lora_update_request_payload and rest bs :: "u8 list"
  show "length (legacy_request_bytes p) = 8"
    by (simp add: legacy_request_bytes_def)
  show "legacy_request_parse (legacy_request_bytes p @ rest) = p"
    by (simp add: legacy_request_bytes_def legacy_request_parse_def layout nth_append)
  show "legacy_request_bytes (legacy_request_parse bs) = bs" if len: "length bs = 8"
  proof -
    obtain x0 x1 x2 x3 x4 x5 x6 x7 where
      "bs = [x0, x1, x2, x3, x4, x5, x6, x7]"
      using len by (auto simp: numeral_eq_Suc length_Suc_conv)
    then show ?thesis
      by (simp add: legacy_request_bytes_def legacy_request_parse_def layout)
  qed
qed

interpretation legacy_ack_payload: payload_format legacy_ack_bytes legacy_ack_parse 8
proof
  fix p :: num8lora_ack_payload and rest bs :: "u8 list"
  show "length (legacy_ack_bytes p) = 8"
    by (simp add: legacy_ack_bytes_def)
  show "legacy_ack_parse (legacy_ack_bytes p @ rest) = p"
    by (simp add: legacy_ack_bytes_def legacy_ack_parse_def layout nth_append)
  show "legacy_ack_bytes (legacy_ack_parse bs) = bs" if len: "length bs = 8"
  proof -
    obtain x0 x1 x2 x3 x4 x5 x6 x7 where
      "bs = [x0, x1, x2, x3, x4, x5, x6, x7]"
      using len by (auto simp: numeral_eq_Suc length_Suc_conv)
    then show ?thesis
      by (simp add: legacy_ack_bytes_def legacy_ack_parse_def layout)
  qed
qed

interpretation legacy_nack_payload: payload_format legacy_nack_bytes legacy_nack_parse 8
proof
  fix p :: num8lora_nack_payload and rest bs :: "u8 list"
  show "length (legacy_nack_bytes p) = 8"
    by (simp add: legacy_nack_bytes_def)
  show "legacy_nack_parse (legacy_nack_bytes p @ rest) = p"
    by (simp add: legacy_nack_bytes_def legacy_nack_parse_def layout nth_append)
  show "legacy_nack_bytes (legacy_nack_parse bs) = bs" if len: "length bs = 8"
  proof -
    obtain x0 x1 x2 x3 x4 x5 x6 x7 where
      "bs = [x0, x1, x2, x3, x4, x5, x6, x7]"
      using len by (auto simp: numeral_eq_Suc length_Suc_conv)
    then show ?thesis
      by (simp add: legacy_nack_bytes_def legacy_nack_parse_def layout)
  qed
qed

lemmas legacy_payload_lengths [simp, width] =
  legacy_beacon_payload.length_print legacy_request_payload.length_print
  legacy_ack_payload.length_print legacy_nack_payload.length_print

subsection \<open>Shared steps\<close>

lemma frame_len_u32_exact:
  "frame_len_u32 n (Some x) = (if unat n + 10 < 2 ^ 32 then (True, Some (n + 10))
    else (False, Some x))"
proof (cases "unat n + 8 < 2 ^ 32")
  case True
  then have "unat (8 + n) = unat n + 8"
    by (simp add: unat_word_ariths)
  with True show ?thesis
    by (simp add: frame_len_u32_def add_len_u32_def add_u32_exact)
qed (simp add: frame_len_u32_def add_len_u32_def add_u32_exact)

lemma encode_common_overlay:
  assumes "8 \<le> length b"
  shows "encode_common b kind sid rid sq = overlay b 0 (header_bytes 1 kind sid rid sq)"
proof -
  have "0 < length b" using assms by linarith
  with assms show ?thesis
    by (simp add: encode_common_def Let_def update_overlay write_u16_overlay overlay_overlay
      header_bytes_def)
qed

lemma finalize_crc_overlay:
  assumes "unat n = length bs + 2" "length bs + 2 \<le> length b"
  shows "finalize_crc (overlay b 0 bs) n = overlay b 0 (seal bs)"
proof -
  have m: "unat (n - 2) = length bs"
    using assms(1) by (simp add: unat_sub word_le_nat_alt)
  have "num8lora_codec_crc16_ccitt_false (Some (overlay b 0 bs)) (n - 2) = crc_of bs"
    using assms by (simp add: crc16_is_crc_of m take_overlay_0)
  then show ?thesis
    using assms by (simp add: finalize_crc_def m write_u16_overlay overlay_overlay seal_def)
qed

lemma legacy_crc_iff:
  assumes "unat n \<le> length b"
  shows "num8lora_validate_frame_crc (Some b) n \<longleftrightarrow>
    10 \<le> unat n \<and> take (unat n) b = seal (take (unat n - 2) b)"
proof (cases "10 \<le> unat n")
  case True
  then have m: "unat (n - 2) = unat n - 2"
    by (simp add: unat_sub word_le_nat_alt)
  have "num8lora_validate_frame_crc (Some b) n \<longleftrightarrow>
     ld16 (take (unat n) b) (unat n - 2) = crc_of (take (unat n - 2) (take (unat n) b))"
    using True assms by (simp add: num8lora_validate_frame_crc_def word_less_nat_alt m
      read_u16_take num8lora_crc16_ccitt_false_def crc16_is_crc_of)
  also have "\<dots> \<longleftrightarrow> take (unat n) b = seal (take (unat n - 2) (take (unat n) b))"
    using True assms by (intro seal_iff) simp_all
  finally show ?thesis using True by simp
qed (simp add: num8lora_validate_frame_crc_def word_less_nat_alt)

lemma decode_header_iff:
  assumes "unat n \<le> length b"
  shows "decode_header_and_crc (Some b) n kind (Some h0) = (True, Some h) \<longleftrightarrow>
    (\<exists>sid rid sq pay. h = legacy_header kind sid rid sq \<and> take (unat n) b = frame kind sid rid sq pay)"
proof (cases "10 \<le> unat n")
  case True
  have "decode_header_and_crc (Some b) n kind (Some h0) = (True, Some h) \<longleftrightarrow>
    (\<exists>sid rid sq. h = legacy_header kind sid rid sq \<and> take (unat n) b = seal (take (unat n - 2) b)
      \<and> b ! 0 = 1 \<and> b ! 1 = kind \<and> ld16 b 2 = sid \<and> ld16 b 4 = rid \<and> ld16 b 6 = sq)"
    using True assms
    by (auto simp: decode_header_and_crc_def legacy_crc_iff num8lora_decode_common_header_def Let_def
      word_less_nat_alt legacy_header_def)
  then show ?thesis
    unfolding frame_iff_reads [OF assms True] by blast
next
  case False
  have "take (unat n) b \<noteq> frame kind sid rid sq pay" for sid rid sq pay
    using frame_prefix(2) [OF _ assms, of kind sid rid sq pay] False by auto
  then show ?thesis
    using False by (simp add: decode_header_and_crc_def legacy_crc_iff [OF assms])
qed

lemma decode_header_writes:
  "\<exists>ok h. decode_header_and_crc (Some b) n kind (Some h0) = (ok, Some h)"
  by (auto simp: decode_header_and_crc_def num8lora_decode_common_header_def Let_def)

lemma legacy_header_simps [simp]:
  "c_protocol_version (legacy_header kind sid rid sq) = 1" "c_msg_type (legacy_header kind sid rid sq) = kind"
  "c_sender_id (legacy_header kind sid rid sq) = sid" "c_receiver_id (legacy_header kind sid rid sq) = rid"
  "c_seq (legacy_header kind sid rid sq) = sq"
  by (simp_all add: legacy_header_def)

lemma legacy_frame_lens [simp]:
  "frame_len_u32 8 (Some x) = (True, Some 18)" "frame_len_u32 18 (Some x) = (True, Some 28)"
  by (simp_all add: frame_len_u32_exact)

lemma unat_u8_in_u32 [simp]: "unat (ucast (a :: u8) :: u32) = unat a"
  using unat_less_u8 [of a]
  by (simp add: unsigned_ucast_eq take_bit_nat_eq_self_iff del: unat_less_u8)

lemma unat_quad [simp]: "unat (4 * ucast (a :: u8) :: u32) = 4 * unat a"
  using unat_less_u8 [of a] by (simp add: unat_word_ariths del: unat_less_u8)

lemma unat_quad_16: "unat (16 + 4 * ucast (a :: u8) :: u32) = 16 + 4 * unat a"
  using unat_less_u8 [of a] by (simp add: unat_word_ariths(1) del: unat_less_u8)

lemma announced_size_exact: "unat (announced_size rc ac) = 16 + 4 * unat rc + 4 * unat ac"
  using unat_less_u8 [of rc] unat_less_u8 [of ac]
  by (simp add: announced_size_def unat_word_ariths(1) unat_quad_16 del: unat_less_u8)

lemma add_len_announced:
  "add_len_u32 16 (4 * ucast (rc :: u8)) (Some x) = (True, Some (16 + 4 * ucast rc))"
  "add_len_u32 (16 + 4 * ucast rc) (4 * ucast (ac :: u8)) (Some y) = (True, Some (announced_size rc ac))"
  using unat_less_u8 [of rc] unat_less_u8 [of ac]
  by (simp_all add: add_len_u32_def add_u32_exact announced_size_def unat_quad_16 del: unat_less_u8)

lemmas legacy_encode_defs = Let_def encode_common_overlay update_overlay write_u16_overlay
  write_u32_overlay overlay_overlay finalize_crc_overlay frame_def word_less_nat_alt word_le_nat_alt

subsection \<open>Encoders and decoders meet the codec contract\<close>

lemma decode_legacy_beacon_iff:
  assumes "unat n \<le> length b"
  shows "num8lora_decode_beacon (Some b) n (Some h0) (Some p0) = (True, Some h, Some p) \<longleftrightarrow>
    unat n = 18 + 10 \<and> legacy_beacon_ok p
    \<and> (\<exists>sid rid sq pay. h = legacy_header NUM8LORA_MSG_BEACON sid rid sq
      \<and> legacy_legal NUM8LORA_MSG_BEACON sid rid
      \<and> take (unat n) b = frame NUM8LORA_MSG_BEACON sid rid sq pay)
    \<and> p = legacy_beacon_parse (drop 8 b)"
proof (cases "n = 28")
  case True
  with assms have len: "28 \<le> length b" by simp
  show ?thesis
    using decode_header_iff [OF assms, of NUM8LORA_MSG_BEACON h0 h] len unfolding True
    by (cases "decode_header_and_crc (Some b) 28 NUM8LORA_MSG_BEACON (Some h0)")
      (auto simp: num8lora_decode_beacon_def Let_def legacy_beacon_ok_def legacy_beacon_parse_def
        legacy_legal_def read_drop add_len_announced announced_size_def not_le)
qed (auto simp: num8lora_decode_beacon_def Let_def word_unat_eq_iff)

interpretation legacy_beacon: sealed_message legacy_beacon_bytes legacy_beacon_parse 18 NUM8LORA_MSG_BEACON
  legacy_beacon_ok "legacy_legal NUM8LORA_MSG_BEACON" "legacy_header NUM8LORA_MSG_BEACON"
  "pack_broadcast num8lora_encode_beacon" num8lora_decode_beacon "legacy_broadcast_header" legacy_beacon_wire legacy_beacon_valid
proof unfold_locales
  fix a p cap b l n h0 p0 h f
  obtain sid sq :: u16 where a: "a = (sid, sq)" by (cases a)
  show "pack_broadcast num8lora_encode_beacon (Some b) cap a (Some p) (Some l)
      = (True, Some (overlay b 0 (legacy_beacon_wire a p)), Some (of_nat (length (legacy_beacon_wire a p))))"
    if "legacy_beacon_valid a p" "length (legacy_beacon_wire a p) \<le> unat cap" "unat cap \<le> length b"
  proof -
    have "28 \<le> unat cap" "28 \<le> length b"
      using that by (auto simp: a)
    then show ?thesis
      using that(1) by (simp add: a pack_broadcast_def num8lora_encode_beacon_def
        legacy_beacon_ok_def legacy_beacon_bytes_def legacy_encode_defs add_len_announced announced_size_def not_le)
  qed
  show "pack_broadcast num8lora_encode_beacon (Some b) cap a (Some p) (Some l) = (False, Some b, Some 0)"
    if "\<not> (legacy_beacon_valid a p \<and> length (legacy_beacon_wire a p) \<le> unat cap)"
    using that by (auto simp: a pack_broadcast_def num8lora_encode_beacon_def
      legacy_beacon_ok_def Let_def word_less_nat_alt not_le add_len_announced)
  show "num8lora_decode_beacon (Some b) n (Some h0) (Some p0) = (True, Some h, Some p) \<longleftrightarrow>
      unat n = 18 + 10 \<and> legacy_beacon_ok p
      \<and> (\<exists>sid rid sq pay. h = legacy_header NUM8LORA_MSG_BEACON sid rid sq
        \<and> legacy_legal NUM8LORA_MSG_BEACON sid rid
        \<and> take (unat n) b = frame NUM8LORA_MSG_BEACON sid rid sq pay)
      \<and> p = legacy_beacon_parse (drop 8 b)" if len: "unat n \<le> length b"
    by (rule decode_legacy_beacon_iff [OF len])
  show "\<exists>done h p. num8lora_decode_beacon (Some b) n (Some h0) (Some p0) = (done, Some h, Some p)"
    using decode_header_writes [of b n NUM8LORA_MSG_BEACON h0]
    by (auto simp: num8lora_decode_beacon_def Let_def)
  show "(\<exists>a. h = legacy_broadcast_header a \<and> legacy_beacon_valid a p \<and> f = legacy_beacon_wire a p) \<longleftrightarrow>
      legacy_beacon_ok p \<and> (\<exists>sid rid sq. h = legacy_header NUM8LORA_MSG_BEACON sid rid sq
        \<and> legacy_legal NUM8LORA_MSG_BEACON sid rid
        \<and> f = frame NUM8LORA_MSG_BEACON sid rid sq (legacy_beacon_bytes p))"
    by (auto simp: legacy_legal_def)
qed

lemma decode_legacy_request_iff:
  assumes "unat n \<le> length b"
  shows "num8lora_decode_update_request (Some b) n (Some h0) (Some p0) = (True, Some h, Some p) \<longleftrightarrow>
    unat n = 8 + 10 \<and> legacy_request_ok p
    \<and> (\<exists>sid rid sq pay. h = legacy_header NUM8LORA_MSG_UPDATE_REQUEST sid rid sq
      \<and> legacy_legal NUM8LORA_MSG_UPDATE_REQUEST sid rid
      \<and> take (unat n) b = frame NUM8LORA_MSG_UPDATE_REQUEST sid rid sq pay)
    \<and> p = legacy_request_parse (drop 8 b)"
proof (cases "n = 18")
  case True
  with assms have len: "18 \<le> length b" by simp
  show ?thesis
    using decode_header_iff [OF assms, of NUM8LORA_MSG_UPDATE_REQUEST h0 h] len unfolding True
    by (cases "decode_header_and_crc (Some b) 18 NUM8LORA_MSG_UPDATE_REQUEST (Some h0)")
      (auto simp: num8lora_decode_update_request_def Let_def legacy_request_ok_def legacy_request_parse_def
        legacy_legal_def read_drop)
qed (auto simp: num8lora_decode_update_request_def Let_def word_unat_eq_iff)

interpretation legacy_request: sealed_message legacy_request_bytes legacy_request_parse 8 NUM8LORA_MSG_UPDATE_REQUEST
  legacy_request_ok "legacy_legal NUM8LORA_MSG_UPDATE_REQUEST" "legacy_header NUM8LORA_MSG_UPDATE_REQUEST"
  "pack_unicast num8lora_encode_update_request" num8lora_decode_update_request "legacy_unicast_header NUM8LORA_MSG_UPDATE_REQUEST" legacy_request_wire legacy_request_valid
proof unfold_locales
  fix a p cap b l n h0 p0 h f
  obtain sid rid sq :: u16 where a: "a = (sid, rid, sq)" by (cases a)
  show "pack_unicast num8lora_encode_update_request (Some b) cap a (Some p) (Some l)
      = (True, Some (overlay b 0 (legacy_request_wire a p)), Some (of_nat (length (legacy_request_wire a p))))"
    if "legacy_request_valid a p" "length (legacy_request_wire a p) \<le> unat cap" "unat cap \<le> length b"
  proof -
    have "18 \<le> unat cap" "18 \<le> length b"
      using that by (auto simp: a legacy_request_wire_def legacy_request_valid_def)
    then show ?thesis
      using that(1) by (simp add: a legacy_request_wire_def legacy_request_valid_def pack_unicast_def num8lora_encode_update_request_def
        legacy_request_ok_def legacy_request_bytes_def legacy_encode_defs)
  qed
  show "pack_unicast num8lora_encode_update_request (Some b) cap a (Some p) (Some l) = (False, Some b, Some 0)"
    if "\<not> (legacy_request_valid a p \<and> length (legacy_request_wire a p) \<le> unat cap)"
    using that by (auto simp: a legacy_request_wire_def legacy_request_valid_def pack_unicast_def num8lora_encode_update_request_def
      legacy_request_ok_def Let_def word_less_nat_alt not_le)
  show "num8lora_decode_update_request (Some b) n (Some h0) (Some p0) = (True, Some h, Some p) \<longleftrightarrow>
      unat n = 8 + 10 \<and> legacy_request_ok p
      \<and> (\<exists>sid rid sq pay. h = legacy_header NUM8LORA_MSG_UPDATE_REQUEST sid rid sq
        \<and> legacy_legal NUM8LORA_MSG_UPDATE_REQUEST sid rid
        \<and> take (unat n) b = frame NUM8LORA_MSG_UPDATE_REQUEST sid rid sq pay)
      \<and> p = legacy_request_parse (drop 8 b)" if len: "unat n \<le> length b"
    by (rule decode_legacy_request_iff [OF len])
  show "\<exists>done h p. num8lora_decode_update_request (Some b) n (Some h0) (Some p0) = (done, Some h, Some p)"
    using decode_header_writes [of b n NUM8LORA_MSG_UPDATE_REQUEST h0]
    by (auto simp: num8lora_decode_update_request_def Let_def)
  show "(\<exists>a. h = legacy_unicast_header NUM8LORA_MSG_UPDATE_REQUEST a \<and> legacy_request_valid a p \<and> f = legacy_request_wire a p) \<longleftrightarrow>
      legacy_request_ok p \<and> (\<exists>sid rid sq. h = legacy_header NUM8LORA_MSG_UPDATE_REQUEST sid rid sq
        \<and> legacy_legal NUM8LORA_MSG_UPDATE_REQUEST sid rid
        \<and> f = frame NUM8LORA_MSG_UPDATE_REQUEST sid rid sq (legacy_request_bytes p))"
    by (auto simp: legacy_legal_def legacy_request_wire_def legacy_request_valid_def)
qed

lemma decode_legacy_ack_iff:
  assumes "unat n \<le> length b"
  shows "num8lora_decode_ack (Some b) n (Some h0) (Some p0) = (True, Some h, Some p) \<longleftrightarrow>
    unat n = 8 + 10 \<and> legacy_ack_ok p
    \<and> (\<exists>sid rid sq pay. h = legacy_header NUM8LORA_MSG_ACK sid rid sq
      \<and> legacy_legal NUM8LORA_MSG_ACK sid rid
      \<and> take (unat n) b = frame NUM8LORA_MSG_ACK sid rid sq pay)
    \<and> p = legacy_ack_parse (drop 8 b)"
proof (cases "n = 18")
  case True
  with assms have len: "18 \<le> length b" by simp
  show ?thesis
    using decode_header_iff [OF assms, of NUM8LORA_MSG_ACK h0 h] len unfolding True
    by (cases "decode_header_and_crc (Some b) 18 NUM8LORA_MSG_ACK (Some h0)")
      (auto simp: num8lora_decode_ack_def Let_def legacy_ack_ok_def legacy_ack_parse_def
        legacy_legal_def read_drop)
qed (auto simp: num8lora_decode_ack_def Let_def word_unat_eq_iff)

interpretation legacy_ack: sealed_message legacy_ack_bytes legacy_ack_parse 8 NUM8LORA_MSG_ACK
  legacy_ack_ok "legacy_legal NUM8LORA_MSG_ACK" "legacy_header NUM8LORA_MSG_ACK"
  "pack_unicast num8lora_encode_ack" num8lora_decode_ack "legacy_unicast_header NUM8LORA_MSG_ACK" legacy_ack_wire legacy_ack_valid
proof unfold_locales
  fix a p cap b l n h0 p0 h f
  obtain sid rid sq :: u16 where a: "a = (sid, rid, sq)" by (cases a)
  show "pack_unicast num8lora_encode_ack (Some b) cap a (Some p) (Some l)
      = (True, Some (overlay b 0 (legacy_ack_wire a p)), Some (of_nat (length (legacy_ack_wire a p))))"
    if "legacy_ack_valid a p" "length (legacy_ack_wire a p) \<le> unat cap" "unat cap \<le> length b"
  proof -
    have "18 \<le> unat cap" "18 \<le> length b"
      using that by (auto simp: a legacy_ack_wire_def legacy_ack_valid_def)
    then show ?thesis
      using that(1) by (simp add: a legacy_ack_wire_def legacy_ack_valid_def pack_unicast_def num8lora_encode_ack_def
        legacy_ack_ok_def legacy_ack_bytes_def legacy_encode_defs)
  qed
  show "pack_unicast num8lora_encode_ack (Some b) cap a (Some p) (Some l) = (False, Some b, Some 0)"
    if "\<not> (legacy_ack_valid a p \<and> length (legacy_ack_wire a p) \<le> unat cap)"
    using that by (auto simp: a legacy_ack_wire_def legacy_ack_valid_def pack_unicast_def num8lora_encode_ack_def
      legacy_ack_ok_def Let_def word_less_nat_alt not_le)
  show "num8lora_decode_ack (Some b) n (Some h0) (Some p0) = (True, Some h, Some p) \<longleftrightarrow>
      unat n = 8 + 10 \<and> legacy_ack_ok p
      \<and> (\<exists>sid rid sq pay. h = legacy_header NUM8LORA_MSG_ACK sid rid sq
        \<and> legacy_legal NUM8LORA_MSG_ACK sid rid
        \<and> take (unat n) b = frame NUM8LORA_MSG_ACK sid rid sq pay)
      \<and> p = legacy_ack_parse (drop 8 b)" if len: "unat n \<le> length b"
    by (rule decode_legacy_ack_iff [OF len])
  show "\<exists>done h p. num8lora_decode_ack (Some b) n (Some h0) (Some p0) = (done, Some h, Some p)"
    using decode_header_writes [of b n NUM8LORA_MSG_ACK h0]
    by (auto simp: num8lora_decode_ack_def Let_def)
  show "(\<exists>a. h = legacy_unicast_header NUM8LORA_MSG_ACK a \<and> legacy_ack_valid a p \<and> f = legacy_ack_wire a p) \<longleftrightarrow>
      legacy_ack_ok p \<and> (\<exists>sid rid sq. h = legacy_header NUM8LORA_MSG_ACK sid rid sq
        \<and> legacy_legal NUM8LORA_MSG_ACK sid rid
        \<and> f = frame NUM8LORA_MSG_ACK sid rid sq (legacy_ack_bytes p))"
    by (auto simp: legacy_legal_def legacy_ack_wire_def legacy_ack_valid_def)
qed

lemma decode_legacy_nack_iff:
  assumes "unat n \<le> length b"
  shows "num8lora_decode_nack (Some b) n (Some h0) (Some p0) = (True, Some h, Some p) \<longleftrightarrow>
    unat n = 8 + 10 \<and> legacy_nack_ok p
    \<and> (\<exists>sid rid sq pay. h = legacy_header NUM8LORA_MSG_NACK sid rid sq
      \<and> legacy_legal NUM8LORA_MSG_NACK sid rid
      \<and> take (unat n) b = frame NUM8LORA_MSG_NACK sid rid sq pay)
    \<and> p = legacy_nack_parse (drop 8 b)"
proof (cases "n = 18")
  case True
  with assms have len: "18 \<le> length b" by simp
  show ?thesis
    using decode_header_iff [OF assms, of NUM8LORA_MSG_NACK h0 h] len unfolding True
    by (cases "decode_header_and_crc (Some b) 18 NUM8LORA_MSG_NACK (Some h0)")
      (auto simp: num8lora_decode_nack_def Let_def legacy_nack_ok_def legacy_nack_parse_def
        legacy_legal_def read_drop)
qed (auto simp: num8lora_decode_nack_def Let_def word_unat_eq_iff)

interpretation legacy_nack: sealed_message legacy_nack_bytes legacy_nack_parse 8 NUM8LORA_MSG_NACK
  legacy_nack_ok "legacy_legal NUM8LORA_MSG_NACK" "legacy_header NUM8LORA_MSG_NACK"
  "pack_unicast num8lora_encode_nack" num8lora_decode_nack "legacy_unicast_header NUM8LORA_MSG_NACK" legacy_nack_wire legacy_nack_valid
proof unfold_locales
  fix a p cap b l n h0 p0 h f
  obtain sid rid sq :: u16 where a: "a = (sid, rid, sq)" by (cases a)
  show "pack_unicast num8lora_encode_nack (Some b) cap a (Some p) (Some l)
      = (True, Some (overlay b 0 (legacy_nack_wire a p)), Some (of_nat (length (legacy_nack_wire a p))))"
    if "legacy_nack_valid a p" "length (legacy_nack_wire a p) \<le> unat cap" "unat cap \<le> length b"
  proof -
    have "18 \<le> unat cap" "18 \<le> length b"
      using that by (auto simp: a legacy_nack_wire_def legacy_nack_valid_def)
    then show ?thesis
      using that(1) by (simp add: a legacy_nack_wire_def legacy_nack_valid_def pack_unicast_def num8lora_encode_nack_def
        legacy_nack_ok_def legacy_nack_bytes_def legacy_encode_defs)
  qed
  show "pack_unicast num8lora_encode_nack (Some b) cap a (Some p) (Some l) = (False, Some b, Some 0)"
    if "\<not> (legacy_nack_valid a p \<and> length (legacy_nack_wire a p) \<le> unat cap)"
    using that by (auto simp: a legacy_nack_wire_def legacy_nack_valid_def pack_unicast_def num8lora_encode_nack_def
      legacy_nack_ok_def Let_def word_less_nat_alt not_le)
  show "num8lora_decode_nack (Some b) n (Some h0) (Some p0) = (True, Some h, Some p) \<longleftrightarrow>
      unat n = 8 + 10 \<and> legacy_nack_ok p
      \<and> (\<exists>sid rid sq pay. h = legacy_header NUM8LORA_MSG_NACK sid rid sq
        \<and> legacy_legal NUM8LORA_MSG_NACK sid rid
        \<and> take (unat n) b = frame NUM8LORA_MSG_NACK sid rid sq pay)
      \<and> p = legacy_nack_parse (drop 8 b)" if len: "unat n \<le> length b"
    by (rule decode_legacy_nack_iff [OF len])
  show "\<exists>done h p. num8lora_decode_nack (Some b) n (Some h0) (Some p0) = (done, Some h, Some p)"
    using decode_header_writes [of b n NUM8LORA_MSG_NACK h0]
    by (auto simp: num8lora_decode_nack_def Let_def)
  show "(\<exists>a. h = legacy_unicast_header NUM8LORA_MSG_NACK a \<and> legacy_nack_valid a p \<and> f = legacy_nack_wire a p) \<longleftrightarrow>
      legacy_nack_ok p \<and> (\<exists>sid rid sq. h = legacy_header NUM8LORA_MSG_NACK sid rid sq
        \<and> legacy_legal NUM8LORA_MSG_NACK sid rid
        \<and> f = frame NUM8LORA_MSG_NACK sid rid sq (legacy_nack_bytes p))"
    by (auto simp: legacy_legal_def legacy_nack_wire_def legacy_nack_valid_def)
qed

end
