(* ===== verification/LegacyUpdate.thy ===== *)
theory LegacyUpdate
  imports LegacyWire
begin

text \<open>
  The rest of \<open>src/src/num8lora.c\<close>: the batch of numbers an update carries (its validation, its checksum,
  its place in the UPDATE_DATA frame) and the classification of received frames.

  A pointer into a received frame is given by the bytes from there on. Arrays of numbers are lists;
  the counts of the header say how many elements the code looks at.
\<close>

subsection \<open>The code\<close>

text \<open>
  The nested loops of \<open>num8lora_validate_update_numbers\<close> over one array: the check of element \<open>i\<close>, its
  comparison with the elements after it, then the next one.
\<close>

fun check_batch :: "u32 list \<Rightarrow> u16" where
  "check_batch [] = NUM8LORA_ERR_NONE"
| "check_batch (v # vs) =
    (if \<not> valid_number v then NUM8LORA_ERR_INVALID_NUMBER
     else if list_ex (\<lambda>w. v = w) vs then NUM8LORA_ERR_DUPLICATE_IN_BATCH
     else check_batch vs)"

definition num8lora_validate_update_numbers ::
  "num8lora_update_header ptr \<Rightarrow> u32 list ptr \<Rightarrow> u32 list ptr \<Rightarrow> u16 ptr \<Rightarrow> bool \<times> u16 ptr" where
  "num8lora_validate_update_numbers hdr remove_numbers add_numbers out_error_code =
    (let out_error_code = store NUM8LORA_ERR_NONE out_error_code;
         fail = (\<lambda>code. (False, store code out_error_code)) in
     case hdr of
       None \<Rightarrow> (False, out_error_code)
     | Some h \<Rightarrow>
         let rc = ucast (u_remove_count h) :: u32;
             ac = ucast (u_add_count h) :: u32 in
         if (rc > 0 \<and> remove_numbers = None) \<or> (ac > 0 \<and> add_numbers = None)
         then fail NUM8LORA_ERR_INTERNAL
         else
           let rs = take (unat rc) (deref remove_numbers);
               as = take (unat ac) (deref add_numbers) in
           if check_batch rs \<noteq> NUM8LORA_ERR_NONE then fail (check_batch rs)
           else if check_batch as \<noteq> NUM8LORA_ERR_NONE then fail (check_batch as)
           else if list_ex (\<lambda>r. list_ex (\<lambda>a. r = a) as) rs then fail NUM8LORA_ERR_NUMBER_IN_BOTH
           else (True, out_error_code))"

text \<open>The loops that clear and that fill an output array.\<close>

definition clear_numbers :: "u32 list ptr \<Rightarrow> u32 \<Rightarrow> u32 list ptr" where
  "clear_numbers out_numbers capacity =
    (if capacity > 0 then map_option (\<lambda>xs. fold (\<lambda>i xs. xs[i := 0]) [0..<unat capacity] xs) out_numbers
     else out_numbers)"

definition load_numbers :: "u8 list \<Rightarrow> u32 \<Rightarrow> u32 list ptr \<Rightarrow> u32 list ptr" where
  "load_numbers p n out_numbers =
    map_option (\<lambda>xs. fold (\<lambda>i xs. xs[i := ld32 p (4 * i)]) [0..<unat n] xs) out_numbers"

definition num8lora_decode_update_numbers ::
  "num8lora_update_header ptr \<Rightarrow> u8 list ptr \<Rightarrow> u32 \<Rightarrow> u8 list ptr \<Rightarrow> u32
    \<Rightarrow> u32 list ptr \<Rightarrow> u32 \<Rightarrow> u32 list ptr \<Rightarrow> u32 \<Rightarrow> u32 ptr \<Rightarrow> u32 ptr
    \<Rightarrow> bool \<times> u32 list ptr \<times> u32 list ptr \<times> u32 ptr \<times> u32 ptr" where
  "num8lora_decode_update_numbers hdr remove_ptr remove_capacity add_ptr add_capacity
     out_remove_numbers out_remove_capacity out_add_numbers out_add_capacity
     out_required_remove_count out_required_add_count =
    (let req_r = store 0 out_required_remove_count;
         req_a = store 0 out_required_add_count;
         out_r = clear_numbers out_remove_numbers out_remove_capacity;
         out_a = clear_numbers out_add_numbers out_add_capacity in
     case (hdr, remove_ptr, add_ptr) of
       (Some h, Some rp, Some ap) \<Rightarrow>
         let rc = ucast (u_remove_count h) :: u32;
             ac = ucast (u_add_count h) :: u32;
             req_r = store rc req_r;
             req_a = store ac req_a;
             stop = (False, out_r, out_a, req_r, req_a) in
         if remove_capacity < rc \<or> add_capacity < ac then stop
         else if (rc > 0 \<and> out_r = None) \<or> (ac > 0 \<and> out_a = None) then stop
         else if out_r \<noteq> None \<and> out_remove_capacity < rc then stop
         else if out_a \<noteq> None \<and> out_add_capacity < ac then stop
         else (True, load_numbers rp rc out_r, load_numbers ap ac out_a, req_r, req_a)
     | _ \<Rightarrow> (False, out_r, out_a, req_r, req_a))"

definition num8lora_compute_update_payload_crc16 ::
  "num8lora_update_header ptr \<Rightarrow> u32 list ptr \<Rightarrow> u32 list ptr \<Rightarrow> u16 ptr \<Rightarrow> bool \<times> u16 ptr" where
  "num8lora_compute_update_payload_crc16 hdr remove_numbers add_numbers out_crc16 =
    (let out_crc16 = store 0 out_crc16 in
     case (hdr, out_crc16) of
       (Some h, Some _) \<Rightarrow>
         if (u_remove_count h > 0 \<and> remove_numbers = None) \<or> (u_add_count h > 0 \<and> add_numbers = None)
         then (False, out_crc16)
         else
           let crc = 0xFFFF;
               crc = crc16_update_u32 crc (u_update_id h);
               crc = crc16_update_u32 crc (u_dataset_version_from h);
               crc = crc16_update_u32 crc (u_dataset_version_to h);
               crc = crc16_update_byte crc (u_remove_count h);
               crc = crc16_update_byte crc (u_add_count h);
               crc = crc16_update_u16 crc 0;
               crc = fold (\<lambda>v crc. crc16_update_u32 crc v)
                 (take (unat (u_remove_count h)) (deref remove_numbers)) crc;
               crc = fold (\<lambda>v crc. crc16_update_u32 crc v)
                 (take (unat (u_add_count h)) (deref add_numbers)) crc
           in (True, Some crc)
     | _ \<Rightarrow> (False, out_crc16))"

definition num8lora_classify_frame ::
  "u8 list ptr \<Rightarrow> u32 \<Rightarrow> u16 \<Rightarrow> u8 \<Rightarrow> num8lora_common_header ptr \<Rightarrow> u16 ptr
    \<Rightarrow> bool \<times> num8lora_common_header ptr \<times> u16 ptr" where
  "num8lora_classify_frame buf len expected_receiver_id expected_msg_type out_hdr out_error_code =
    (let out_error_code = store NUM8LORA_ERR_NONE out_error_code;
         out_hdr = store zero_common_header out_hdr;
         fail = (\<lambda>code. (False, out_hdr, store code out_error_code)) in
     case (buf, out_hdr) of
       (Some _, Some _) \<Rightarrow>
         if \<not> num8lora_validate_frame_crc buf len then fail NUM8LORA_ERR_CRC_FAIL
         else (case num8lora_decode_common_header buf len (Some zero_common_header) of
           (True, Some hdr) \<Rightarrow>
             if c_protocol_version hdr \<noteq> NUM8LORA_PROTOCOL_VERSION
             then fail NUM8LORA_ERR_PROTOCOL_VERSION_UNSUPPORTED
             else if c_msg_type hdr < NUM8LORA_MSG_BEACON \<or> c_msg_type hdr > NUM8LORA_MSG_NACK
             then fail NUM8LORA_ERR_INVALID_MESSAGE_TYPE
             else if expected_msg_type \<noteq> 0 \<and> c_msg_type hdr \<noteq> expected_msg_type
             then fail NUM8LORA_ERR_INVALID_MESSAGE_TYPE
             else if expected_receiver_id \<noteq> NUM8LORA_ANY_RECEIVER_ID
                \<and> (if c_msg_type hdr = NUM8LORA_MSG_BEACON then c_receiver_id hdr \<noteq> 0
                   else c_receiver_id hdr \<noteq> expected_receiver_id)
             then fail NUM8LORA_ERR_INVALID_RECEIVER_ID
             else (True, Some hdr, out_error_code)
         | _ \<Rightarrow> fail NUM8LORA_ERR_INTERNAL)
     | _ \<Rightarrow> fail NUM8LORA_ERR_INTERNAL)"

subsection \<open>A well-formed batch\<close>

text \<open>
  What the pairwise comparisons establish: legal numbers, none twice in a list, none in both. This is
  what makes the order of the operations in an update irrelevant.
\<close>

definition batch_ok :: "u32 list \<Rightarrow> u32 list \<Rightarrow> bool" where
  "batch_ok rs as \<longleftrightarrow> (\<forall>v \<in> set rs \<union> set as. v \<le> NUM8LORA_MAX_VALUE) \<and> distinct rs \<and> distinct as
    \<and> set rs \<inter> set as = {}"

lemma check_batch_none:
  "check_batch vs = NUM8LORA_ERR_NONE \<longleftrightarrow> (\<forall>v \<in> set vs. v \<le> NUM8LORA_MAX_VALUE) \<and> distinct vs"
  by (induction vs) (auto simp: valid_number_def list_ex_iff)

lemma check_batch_codes:
  "check_batch vs = NUM8LORA_ERR_NONE \<or> check_batch vs = NUM8LORA_ERR_INVALID_NUMBER
    \<or> check_batch vs = NUM8LORA_ERR_DUPLICATE_IN_BATCH"
  by (induction vs) auto

lemma list_ex_both: "list_ex (\<lambda>r. list_ex (\<lambda>a. r = a) as) rs \<longleftrightarrow> set rs \<inter> set as \<noteq> {}"
  by (auto simp: list_ex_iff)

definition batch_error :: "u32 list \<Rightarrow> u32 list \<Rightarrow> u16" where
  "batch_error rs as =
    (if check_batch rs \<noteq> NUM8LORA_ERR_NONE then check_batch rs
     else if check_batch as \<noteq> NUM8LORA_ERR_NONE then check_batch as
     else if set rs \<inter> set as \<noteq> {} then NUM8LORA_ERR_NUMBER_IN_BOTH
     else NUM8LORA_ERR_NONE)"

lemma batch_error_none: "batch_error rs as = NUM8LORA_ERR_NONE \<longleftrightarrow> batch_ok rs as"
  by (auto simp: batch_error_def batch_ok_def check_batch_none)

text \<open>An array argument and its elements; NULL stands for the empty array only.\<close>

definition array_at :: "u32 list ptr \<Rightarrow> u32 list \<Rightarrow> bool" where
  "array_at p vs \<longleftrightarrow> p = Some vs \<or> p = None \<and> vs = []"

lemma array_at_Some [simp]: "array_at (Some vs) ws \<longleftrightarrow> vs = ws"
  by (simp add: array_at_def)

lemma array_atD: "array_at p vs \<Longrightarrow> deref p = vs \<and> (p = None \<longrightarrow> vs = [])"
  by (auto simp: array_at_def deref_def)

lemma validate_numbers_exact:
  assumes "array_at rp rs" "array_at ap as"
    and "length rs = unat (u_remove_count h)" "length as = unat (u_add_count h)"
  shows "num8lora_validate_update_numbers (Some h) rp ap e = (batch_ok rs as, store (batch_error rs as) e)"
proof -
  have null: "((ucast (u_remove_count h) > (0 :: u32) \<and> rp = None) \<or> (ucast (u_add_count h) > (0 :: u32) \<and> ap = None)) = False"
    using array_atD [OF assms(1)] array_atD [OF assms(2)] assms(3,4) by (auto simp: word_less_nat_alt)
  show ?thesis
    unfolding batch_error_none [symmetric] num8lora_validate_update_numbers_def Let_def option.case null
    using array_atD [OF assms(1)] array_atD [OF assms(2)]
    by (simp add: list_ex_both batch_error_def assms(3,4) [symmetric])
qed

subsection \<open>Numbers as bytes\<close>

definition numbers_bytes :: "u32 list \<Rightarrow> u8 list" where
  "numbers_bytes vs = concat (map le32 vs)"

definition numbers_parse :: "nat \<Rightarrow> u8 list \<Rightarrow> u32 list" where
  "numbers_parse n p = map (\<lambda>i. ld32 p (4 * i)) [0..<n]"

lemma length_numbers_bytes [simp, width]: "length (numbers_bytes vs) = 4 * length vs"
  by (induction vs) (simp_all add: numbers_bytes_def)

lemma length_numbers_parse [simp]: "length (numbers_parse n p) = n"
  by (simp add: numbers_parse_def)

lemma numbers_bytes_parse:
  "4 * n \<le> length p \<Longrightarrow> numbers_bytes (numbers_parse n p) = take (4 * n) p"
proof (induction n)
  case (Suc n)
  have "take 4 (drop (4 * n) p) = le32 (ld32 p (4 * n))"
    using read_u32_at [of "4 * n" p "ld32 p (4 * n)"] Suc.prems by simp
  then have "take (4 * Suc n) p = take (4 * n) p @ le32 (ld32 p (4 * n))"
    using take_add [of "4 * n" 4 p] by (simp add: add.commute)
  then show ?case
    using Suc by (simp add: numbers_parse_def numbers_bytes_def)
qed (simp add: numbers_parse_def numbers_bytes_def)

lemma numbers_bytes_inject:
  "length vs = length ws \<Longrightarrow> numbers_bytes vs = numbers_bytes ws \<longleftrightarrow> vs = ws"
  by (induction rule: list_induct2) (auto simp: numbers_bytes_def)

lemma numbers_parse_bytes: "numbers_parse (length vs) (numbers_bytes vs @ rest) = vs"
proof -
  have "numbers_bytes (numbers_parse (length vs) (numbers_bytes vs @ rest)) = numbers_bytes vs"
    by (subst numbers_bytes_parse) simp_all
  then show ?thesis
    by (subst (asm) numbers_bytes_inject) simp_all
qed

lemma store_numbers_overlay:
  assumes "unat off = length bs" "length bs + 4 * length vs \<le> length b" "length b < 2 ^ 32"
  shows "store_numbers vs (overlay b 0 bs) off =
    (overlay b 0 (bs @ numbers_bytes vs), off + of_nat (4 * length vs))"
  using assms(1,2)
proof (induction vs arbitrary: bs off)
  case Nil
  then show ?case by (simp add: numbers_bytes_def)
next
  case (Cons v vs)
  have step: "st32 (overlay b 0 bs) (unat off) v = overlay b 0 (bs @ le32 v)"
    using Cons.prems by (simp add: write_u32_overlay overlay_overlay)
  have "unat (off + 4) = length (bs @ le32 v)"
    using Cons.prems assms(3) by (simp add: unat_word_ariths)
  then have "store_numbers vs (overlay b 0 (bs @ le32 v)) (off + 4) =
      (overlay b 0 ((bs @ le32 v) @ numbers_bytes vs), off + 4 + of_nat (4 * length vs))"
    using Cons.prems by (intro Cons.IH) simp_all
  then show ?case
    by (simp add: step numbers_bytes_def algebra_simps)
qed

lemma fold_update_upt:
  "m \<le> length xs \<Longrightarrow> fold (\<lambda>i xs. xs[i := f i]) [0..<m] xs = map f [0..<m] @ drop m xs"
proof (induction m)
  case (Suc m)
  then show ?case
    by (simp add: list_update_append Cons_nth_drop_Suc [symmetric])
qed simp

lemma load_numbers_exact:
  "unat n \<le> length xs \<Longrightarrow> load_numbers p n (Some xs) = Some (numbers_parse (unat n) p @ drop (unat n) xs)"
  by (simp add: load_numbers_def fold_update_upt numbers_parse_def)

lemma clear_numbers_exact:
  "unat n \<le> length xs \<Longrightarrow> clear_numbers (Some xs) n = Some (replicate (unat n) 0 @ drop (unat n) xs)"
  by (auto simp: clear_numbers_def fold_update_upt map_replicate_const word_neq_0_conv [symmetric])

subsection \<open>The payload and its checksum\<close>

definition update_bytes :: "num8lora_update_header \<Rightarrow> u32 list \<Rightarrow> u32 list \<Rightarrow> u8 list" where
  "update_bytes u rs as = le32 (u_update_id u) @ le32 (u_dataset_version_from u)
    @ le32 (u_dataset_version_to u) @ [u_remove_count u, u_add_count u] @ le16 0
    @ numbers_bytes rs @ numbers_bytes as"

lemma length_update_bytes [simp, width]: "length (update_bytes u rs as) = 16 + 4 * length rs + 4 * length as"
  by (simp add: update_bytes_def)

lemma crc16_update_byte_step: "crc16_update_byte crc b = crc16_byte_step b crc"
proof -
  have "crc16_bit_step = (\<lambda>crc. if crc AND 0x8000 \<noteq> 0
       then ucast (push_bit 1 (ucast crc :: u32) XOR 0x1021)
       else ucast (push_bit 1 (ucast crc :: u32)))"
    by (simp add: fun_eq_iff crc16_bit_step_def)
  then show ?thesis
    by (simp add: crc16_update_byte_def crc16_byte_step_def)
qed

lemma crc16_update_fold:
  "crc16_update_u16 crc w = fold crc16_byte_step (le16 w) crc"
  "crc16_update_u32 crc v = fold crc16_byte_step (le32 v) crc"
  by (simp_all add: crc16_update_u16_def crc16_update_u32_def Let_def le16_def le32_def
    crc16_update_byte_step)

lemma crc16_update_numbers:
  "fold (\<lambda>v. fold crc16_byte_step (le32 v)) vs crc = fold crc16_byte_step (numbers_bytes vs) crc"
  by (induction vs arbitrary: crc) (simp_all add: numbers_bytes_def)

text \<open>
  The checksum computed number by number, without the frame, is the checksum of the frame's payload.
\<close>

lemma compute_crc_exact:
  assumes "array_at rp rs" "array_at ap as"
    and "length rs = unat (u_remove_count h)" "length as = unat (u_add_count h)"
  shows "num8lora_compute_update_payload_crc16 (Some h) rp ap (Some c) =
    (True, Some (crc_of (update_bytes h rs as)))"
proof -
  have null: "((u_remove_count h > 0 \<and> rp = None) \<or> (u_add_count h > 0 \<and> ap = None)) = False"
    using array_atD [OF assms(1)] array_atD [OF assms(2)] assms(3,4) by (auto simp: word_less_nat_alt)
  show ?thesis
    unfolding num8lora_compute_update_payload_crc16_def Let_def store_simps option.case prod.case null
    using array_atD [OF assms(1)] array_atD [OF assms(2)]
    by (simp add: assms(3,4) [symmetric]
      crc16_update_fold crc16_update_byte_step crc16_update_numbers crc_of_def update_bytes_def)
qed

subsection \<open>The UPDATE_DATA frame\<close>

definition update_wire ::
  "u16 \<times> u16 \<times> u16 \<Rightarrow> num8lora_update_header \<Rightarrow> u32 list \<Rightarrow> u32 list \<Rightarrow> u8 list" where
  "update_wire a u rs as = legacy_frame NUM8LORA_MSG_UPDATE_DATA a (update_bytes u rs as)"

definition update_header_ok :: "num8lora_update_header \<Rightarrow> bool" where
  "update_header_ok u \<longleftrightarrow> u_update_id u \<noteq> 0 \<and> u_dataset_version_from u < u_dataset_version_to u
    \<and> u_reserved0 u = 0"

definition update_fits :: "num8lora_update_header \<Rightarrow> u32 list \<Rightarrow> u32 list \<Rightarrow> bool" where
  "update_fits u rs as \<longleftrightarrow> length rs = unat (u_remove_count u) \<and> length as = unat (u_add_count u)"

definition update_size :: "num8lora_update_header \<Rightarrow> nat" where
  "update_size u = 26 + 4 * unat (u_remove_count u) + 4 * unat (u_add_count u)"

lemma length_update_wire:
  "update_fits u rs as \<Longrightarrow> length (update_wire a u rs as) = update_size u"
  by (cases a) (simp add: update_wire_def update_fits_def update_size_def)

lemma update_size_less: "update_size u \<le> 2066"
  using unat_less_u8 [of "u_remove_count u"] unat_less_u8 [of "u_add_count u"]
  by (simp add: update_size_def del: unat_less_u8)

text \<open>The length computation of the encoder never overflows and gives the size of the frame.\<close>

lemma update_size_computed:
  fixes u :: num8lora_update_header
  defines "rc \<equiv> ucast (u_remove_count u) :: u32" and "ac \<equiv> ucast (u_add_count u) :: u32"
  shows "num8lora_codec_mul_u32 rc 4 (Some x) = (True, Some (rc * 4))"
    and "num8lora_codec_add_u32 16 (rc * 4) (Some x) = (True, Some (16 + rc * 4))"
    and "num8lora_codec_mul_u32 ac 4 (Some x) = (True, Some (ac * 4))"
    and "num8lora_codec_add_u32 (16 + rc * 4) (ac * 4) (Some x) = (True, Some (16 + rc * 4 + ac * 4))"
    and "frame_len_u32 (16 + rc * 4 + ac * 4) (Some x) = (True, Some (of_nat (update_size u)))"
proof -
  have b: "unat (u_remove_count u) < 256" "unat (u_add_count u) < 256" by (rule unat_less_u8)+
  have r: "unat (rc * 4) = 4 * unat (u_remove_count u)" "unat (ac * 4) = 4 * unat (u_add_count u)"
    unfolding rc_def ac_def mult.commute [of _ "4 :: u32"] by simp_all
  have s: "unat (16 + rc * 4) = 16 + 4 * unat (u_remove_count u)"
    using b by (simp add: unat_word_ariths(1) r del: unat_less_u8)
  have t: "unat (16 + rc * 4 + ac * 4) = 16 + 4 * unat (u_remove_count u) + 4 * unat (u_add_count u)"
    using b by (simp add: unat_word_ariths(1) [of "16 + rc * 4"] r s del: unat_less_u8)
  have v: "unat rc = unat (u_remove_count u)" "unat ac = unat (u_add_count u)"
    by (simp_all add: rc_def ac_def)
  show "num8lora_codec_mul_u32 rc 4 (Some x) = (True, Some (rc * 4))"
    "num8lora_codec_add_u32 16 (rc * 4) (Some x) = (True, Some (16 + rc * 4))"
    "num8lora_codec_mul_u32 ac 4 (Some x) = (True, Some (ac * 4))"
    "num8lora_codec_add_u32 (16 + rc * 4) (ac * 4) (Some x) = (True, Some (16 + rc * 4 + ac * 4))"
    using b by (simp_all add: mul_u32_exact add_u32_exact r s v del: unat_less_u8)
  have ten: "unat (w + 10) = unat w + 10" if "unat w < 4294967286" for w :: u32
    using that by (simp add: unat_word_ariths)
  have "unat (16 + rc * 4 + ac * 4 + 10) = unat (16 + rc * 4 + ac * 4) + 10"
    using b by (intro ten) (simp add: t del: unat_less_u8)
  then have "unat (16 + rc * 4 + ac * 4 + 10) = update_size u"
    unfolding t update_size_def by linarith
  then have "16 + rc * 4 + ac * 4 + 10 = of_nat (update_size u)"
    using update_size_less [of u] by (simp only: word_unat_eq_iff) (simp add: unat_of_nat)
  then show "frame_len_u32 (16 + rc * 4 + ac * 4) (Some x) = (True, Some (of_nat (update_size u)))"
    using b by (simp add: frame_len_u32_exact t del: unat_less_u8)
qed

lemma update_size_word:
  "unat (26 + 4 * ucast (u_remove_count v) + 4 * ucast (u_add_count v) :: u32) = update_size v"
proof -
  let ?w = "announced_size (u_remove_count v) (u_add_count v)"
  have w: "unat ?w + 10 = update_size v"
    by (simp add: announced_size_exact update_size_def)
  have "unat (x + 10) = unat x + 10" if "unat x < 4294967286" for x :: u32
    using that by (simp add: unat_word_ariths)
  then have "unat (?w + 10) = update_size v"
    using w update_size_less [of v] by simp
  moreover have "?w + 10 = 26 + 4 * ucast (u_remove_count v) + 4 * ucast (u_add_count v)"
    by (simp add: announced_size_def)
  ultimately show ?thesis by simp
qed

lemma encode_update_accepts:
  assumes "sid \<noteq> 0" "rid \<noteq> 0" "update_header_ok u" "update_fits u rs as"
    and "update_size u \<le> unat cap" "unat cap \<le> length b" "length b < 2 ^ 32"
    and "array_at rp rs" "array_at ap as"
  shows "num8lora_encode_update_data (Some b) cap sid rid sq (Some u) rp ap (Some l) =
    (True, Some (overlay b 0 (update_wire (sid, rid, sq) u rs as)), Some (of_nat (update_size u)))"
proof -
  let ?h = "header_bytes 1 NUM8LORA_MSG_UPDATE_DATA sid rid sq @ le32 (u_update_id u)
    @ le32 (u_dataset_version_from u) @ le32 (u_dataset_version_to u) @ [u_remove_count u, u_add_count u]
    @ le16 0"
  have len: "update_size u \<le> length b" using assms(5,6) by simp
  then have size: "length rs = unat (u_remove_count u)" "length as = unat (u_add_count u)"
      "24 + 4 * length rs + 4 * length as + 2 \<le> length b" "26 \<le> length b"
    using assms(4) by (simp_all add: update_fits_def update_size_def)
  have n: "unat (of_nat (update_size u) :: u32) = update_size u"
    using update_size_less [of u] by (simp add: unat_of_nat)
  have head: "st16 ((st32 (st32 (st32 (encode_common b NUM8LORA_MSG_UPDATE_DATA sid rid sq)
      8 (u_update_id u)) 12 (u_dataset_version_from u)) 16 (u_dataset_version_to u))
      [20 := u_remove_count u, 21 := u_add_count u]) 22 0 = overlay b 0 ?h"
    using size(4) by (simp add: encode_common_overlay update_overlay write_u16_overlay write_u32_overlay
      overlay_overlay)
  have rs: "store_numbers rs (overlay b 0 ?h) 24 =
      (overlay b 0 (?h @ numbers_bytes rs), 24 + of_nat (4 * length rs))"
    using size(3) assms(7) by (intro store_numbers_overlay) simp_all
  have off: "unat (24 + of_nat (4 * length rs) :: u32) = 24 + 4 * length rs"
    using size(3) assms(7) by (simp add: unat_word_ariths unat_of_nat)
  have as: "store_numbers as (overlay b 0 (?h @ numbers_bytes rs)) (24 + of_nat (4 * length rs)) =
      (overlay b 0 ((?h @ numbers_bytes rs) @ numbers_bytes as),
       24 + of_nat (4 * length rs) + of_nat (4 * length as))"
    using size(3) assms(7) off by (intro store_numbers_overlay) simp_all
  have crc: "finalize_crc (overlay b 0 ((?h @ numbers_bytes rs) @ numbers_bytes as)) (of_nat (update_size u)) =
      overlay b 0 (seal ((?h @ numbers_bytes rs) @ numbers_bytes as))"
    using size n by (intro finalize_crc_overlay) (simp_all add: update_size_def)
  have cap: "\<not> cap < of_nat (update_size u)"
    using assms(5) n by (simp add: word_less_nat_alt)
  have t: "take (unat (u_remove_count u)) (deref rp) = rs" "take (unat (u_add_count u)) (deref ap) = as"
    using size array_atD [OF assms(8)] array_atD [OF assms(9)] by simp_all
  have null: "\<not> ((ucast (u_remove_count u) > (0 :: u32) \<and> rp = None) \<or> (ucast (u_add_count u) > (0 :: u32) \<and> ap = None))"
    using array_atD [OF assms(8)] array_atD [OF assms(9)] size by (auto simp: word_less_nat_alt)
  show ?thesis
    using assms(1-3) cap null
    unfolding num8lora_encode_update_data_def Let_def
    by (simp add: update_header_ok_def update_size_computed t head rs [simplified] as [simplified] crc [simplified]
      update_wire_def update_bytes_def frame_def not_le)
qed

lemma encode_update_rejects:
  assumes "\<not> (sid \<noteq> 0 \<and> rid \<noteq> 0 \<and> update_header_ok u \<and> update_size u \<le> unat cap)"
  shows "num8lora_encode_update_data (Some b) cap sid rid sq (Some u) rs as (Some l) = (False, Some b, Some 0)"
proof -
  have n: "unat (of_nat (update_size u) :: u32) = update_size u"
    using update_size_less [of u] by (simp add: unat_of_nat)
  show ?thesis
    using assms
    by (auto simp: num8lora_encode_update_data_def Let_def update_size_computed update_header_ok_def
      word_less_nat_alt n not_le)
qed

text \<open>The fixed part of the payload.\<close>

definition update_head_bytes :: "num8lora_update_header \<Rightarrow> u8 list" where
  "update_head_bytes u = le32 (u_update_id u) @ le32 (u_dataset_version_from u)
    @ le32 (u_dataset_version_to u) @ [u_remove_count u, u_add_count u] @ le16 (u_reserved0 u)"

definition update_head_parse :: "u8 list \<Rightarrow> num8lora_update_header" where
  "update_head_parse b = \<lparr>u_update_id = ld32 b 0, u_dataset_version_from = ld32 b 4,
    u_dataset_version_to = ld32 b 8, u_remove_count = b ! 12, u_add_count = b ! 13,
    u_reserved0 = ld16 b 14\<rparr>"

interpretation update_head: payload_format update_head_bytes update_head_parse 16
proof
  fix p :: num8lora_update_header and rest bs :: "u8 list"
  show "length (update_head_bytes p) = 16"
    by (simp add: update_head_bytes_def)
  show "update_head_parse (update_head_bytes p @ rest) = p"
    by (simp add: update_head_bytes_def update_head_parse_def layout nth_append)
  show "update_head_bytes (update_head_parse bs) = bs" if len: "length bs = 16"
  proof -
    obtain x0 x1 x2 x3 x4 x5 x6 x7 x8 x9 x10 x11 x12 x13 x14 x15 where
      "bs = [x0, x1, x2, x3, x4, x5, x6, x7, x8, x9, x10, x11, x12, x13, x14, x15]"
      using len by (auto simp: numeral_eq_Suc length_Suc_conv)
    then show ?thesis
      by (simp add: update_head_bytes_def update_head_parse_def layout)
  qed
qed

lemma update_bytes_head:
  "u_reserved0 u = 0 \<Longrightarrow> update_bytes u rs as = update_head_bytes u @ numbers_bytes rs @ numbers_bytes as"
  by (simp add: update_bytes_def update_head_bytes_def)

text \<open>A frame with the right header fields is the UPDATE_DATA frame of the numbers found in it.\<close>

lemma update_frame_parse:
  assumes "take n b = frame kind sid rid sq pay" "n \<le> length b"
    and "u = update_head_parse (drop 8 b)" "n = update_size u" "u_reserved0 u = 0"
  shows "pay = update_bytes u (numbers_parse (unat (u_remove_count u)) (drop 24 b))
    (numbers_parse (unat (u_add_count u)) (drop (24 + 4 * unat (u_remove_count u)) b))"
proof -
  let ?rc = "unat (u_remove_count u)" and ?ac = "unat (u_add_count u)"
  have len: "26 + 4 * ?rc + 4 * ?ac \<le> length b" and n: "n - 10 = 16 + (4 * ?rc + 4 * ?ac)"
    using assms(2,4) by (simp_all add: update_size_def)
  have "update_head_bytes u = take 16 (drop 8 b)"
    using update_head.print_parse [of "take 16 (drop 8 b)"] update_head.parse_prefix [of "drop 8 b"] len
    by (simp add: assms(3))
  moreover have "numbers_bytes (numbers_parse ?rc (drop 24 b)) = take (4 * ?rc) (drop 24 b)"
    using len by (intro numbers_bytes_parse) simp
  moreover have "numbers_bytes (numbers_parse ?ac (drop (24 + 4 * ?rc) b)) = take (4 * ?ac) (drop (24 + 4 * ?rc) b)"
    using len by (intro numbers_bytes_parse) simp
  moreover have "pay = take 16 (drop 8 b) @ take (4 * ?rc) (drop 24 b) @ take (4 * ?ac) (drop (24 + 4 * ?rc) b)"
    unfolding frame_payload [OF assms(1,2)] n take_add by (simp add: add.commute)
  ultimately show ?thesis
    by (simp add: update_bytes_head assms(5))
qed

lemma update_frame_reads:
  assumes "take n b = update_wire a u rs as" "n \<le> length b" "update_fits u rs as" "update_header_ok u"
  shows "n = update_size u" "update_head_parse (drop 8 b) = u"
    "numbers_parse (unat (u_remove_count u)) (drop 24 b) = rs"
    "numbers_parse (unat (u_add_count u)) (drop (24 + 4 * unat (u_remove_count u)) b) = as"
proof -
  obtain sid rid sq where a: "a = (sid, rid, sq)" by (cases a)
  have f: "take n b = frame NUM8LORA_MSG_UPDATE_DATA sid rid sq (update_bytes u rs as)"
    using assms(1) by (simp add: a update_wire_def)
  have r: "u_reserved0 u = 0" using assms(4) by (simp add: update_header_ok_def)
  show n: "n = update_size u"
    using frame_prefix(2) [OF f assms(2)] assms(3) by (simp add: update_fits_def update_size_def)
  have "take (n - 10) (drop 8 b) = update_head_bytes u @ numbers_bytes rs @ numbers_bytes as"
    using frame_payload [OF f assms(2)] update_bytes_head [OF r] by simp
  then obtain t where d: "drop 8 b = update_head_bytes u @ numbers_bytes rs @ numbers_bytes as @ t"
    by (metis append.assoc append_take_drop_id)
  show "update_head_parse (drop 8 b) = u"
    unfolding d by (rule update_head.parse_print)
  have "drop 24 b = drop 16 (drop 8 b)" by simp
  also have "\<dots> = numbers_bytes rs @ numbers_bytes as @ t"
    unfolding d by (simp add: update_head.length_print)
  finally have d24: "drop 24 b = numbers_bytes rs @ numbers_bytes as @ t" .
  show "numbers_parse (unat (u_remove_count u)) (drop 24 b) = rs"
    using assms(3) numbers_parse_bytes [of rs "numbers_bytes as @ t"] unfolding d24 update_fits_def by simp
  have "drop (24 + 4 * unat (u_remove_count u)) b = drop (4 * unat (u_remove_count u)) (drop 24 b)"
    by (simp add: add.commute)
  also have "\<dots> = numbers_bytes as @ t"
    using assms(3) unfolding d24 by (simp add: update_fits_def)
  finally have das: "drop (24 + 4 * unat (u_remove_count u)) b = numbers_bytes as @ t" .
  show "numbers_parse (unat (u_add_count u)) (drop (24 + 4 * unat (u_remove_count u)) b) = as"
    using assms(3) numbers_parse_bytes [of as t] unfolding das update_fits_def by simp
qed

text \<open>What a successful call of the encoder left in the buffer.\<close>

lemma encode_update_emits:
  assumes "num8lora_encode_update_data (Some b) cap sid rid sq (Some u) (Some rs) (Some as) (Some l)
      = (True, Some b', Some n)"
    and "u_reserved0 u = 0" "length rs = unat (u_remove_count u)" "length as = unat (u_add_count u)"
    and "unat cap \<le> length b" "length b < 2 ^ 32"
  shows "sid \<noteq> 0" "rid \<noteq> 0" "take (unat n) b' = update_wire (sid, rid, sq) u rs as" "unat n \<le> length b'"
    "update_fits u rs as" "update_header_ok u"
proof -
  have ok: "sid \<noteq> 0 \<and> rid \<noteq> 0 \<and> update_header_ok u \<and> update_size u \<le> unat cap"
    using assms(1) encode_update_rejects [of sid rid u cap b sq "Some rs" "Some as" l] by auto
  then show "sid \<noteq> 0" "rid \<noteq> 0" "update_header_ok u" by simp_all
  show fits: "update_fits u rs as" using assms(3,4) by (simp add: update_fits_def)
  have "b' = overlay b 0 (update_wire (sid, rid, sq) u rs as)" "n = of_nat (update_size u)"
    using encode_update_accepts [of sid rid u rs as cap b "Some rs" "Some as" sq l] ok fits assms(1,5,6)
    by simp_all
  moreover have "unat (of_nat (update_size u) :: u32) = update_size u"
    using update_size_less [of u] by (simp add: unat_of_nat)
  ultimately show "take (unat n) b' = update_wire (sid, rid, sq) u rs as" "unat n \<le> length b'"
    using length_update_wire [OF fits, of "(sid, rid, sq)"] ok assms(5) by (simp_all add: overlay_0)
qed

lemma encode_update_footprint:
  assumes "num8lora_encode_update_data (Some b) cap sid rid sq (Some u) (Some rs) (Some as) (Some l) = (ok, b', n)"
    and "length rs = unat (u_remove_count u)" "length as = unat (u_add_count u)"
    and "unat cap \<le> length b" "length b < 2 ^ 32"
  shows "\<exists>c m. b' = Some c \<and> n = Some m \<and> length c = length b \<and> unat m \<le> unat cap
    \<and> drop (unat m) c = drop (unat m) b" and "\<not> ok \<longrightarrow> b' = Some b \<and> n = Some 0"
proof -
  have "(\<exists>c m. b' = Some c \<and> n = Some m \<and> length c = length b \<and> unat m \<le> unat cap
      \<and> drop (unat m) c = drop (unat m) b) \<and> (\<not> ok \<longrightarrow> b' = Some b \<and> n = Some 0)"
  proof (cases "sid \<noteq> 0 \<and> rid \<noteq> 0 \<and> update_header_ok u \<and> update_size u \<le> unat cap")
    case True
    have fits: "update_fits u rs as" using assms(2,3) by (simp add: update_fits_def)
    have "ok" "b' = Some (overlay b 0 (update_wire (sid, rid, sq) u rs as))" "n = Some (of_nat (update_size u))"
      using encode_update_accepts [of sid rid u rs as cap b "Some rs" "Some as" sq l] True fits assms(1,4,5)
      by simp_all
    moreover have "unat (of_nat (update_size u) :: u32) = update_size u"
      using update_size_less [of u] by (simp add: unat_of_nat)
    ultimately show ?thesis
      using length_update_wire [OF fits, of "(sid, rid, sq)"] True assms(4) by (simp add: overlay_0)
  next
    case False
    then show ?thesis
      using encode_update_rejects [of sid rid u cap b sq "Some rs" "Some as" l] assms(1) by simp
  qed
  then show "\<exists>c m. b' = Some c \<and> n = Some m \<and> length c = length b \<and> unat m \<le> unat cap
      \<and> drop (unat m) c = drop (unat m) b" "\<not> ok \<longrightarrow> b' = Some b \<and> n = Some 0" by blast+
qed

text \<open>The decoder accepts exactly the frames of legal updates and points at their numbers.\<close>

lemma decode_update_iff:
  assumes "unat n \<le> length b"
  shows "num8lora_decode_update_data_header (Some b) n (Some h0) (Some u0) (Some r0) (Some a0)
      = (True, Some h, Some u, rp, ap) \<longleftrightarrow>
    (\<exists>sid rid sq rs as. sid \<noteq> 0 \<and> rid \<noteq> 0 \<and> update_header_ok u \<and> update_fits u rs as
      \<and> take (unat n) b = update_wire (sid, rid, sq) u rs as
      \<and> h = legacy_header NUM8LORA_MSG_UPDATE_DATA sid rid sq
      \<and> rp = Some (Some 24) \<and> ap = Some (Some (24 + 4 * unat (u_remove_count u))))" (is "?lhs \<longleftrightarrow> ?rhs")
proof -
  have len: "n = 26 + 4 * ucast (u_remove_count v) + 4 * ucast (u_add_count v) \<longleftrightarrow> unat n = update_size v"
    for v
    unfolding word_unat_eq_iff update_size_word by simp
  have ptr: "unat (24 + 4 * ucast (c :: u8) :: u32) = 24 + 4 * unat c" for c
    using unat_less_u8 [of c] by (simp add: unat_word_ariths(1) del: unat_less_u8)
  have head: "update_head_parse (drop 8 b) = \<lparr>u_update_id = ld32 b 8, u_dataset_version_from = ld32 b 12,
      u_dataset_version_to = ld32 b 16, u_remove_count = b ! 20, u_add_count = b ! 21,
      u_reserved0 = ld16 b 22\<rparr>" if "26 \<le> length b"
    using that by (simp add: update_head_parse_def read_drop)
  have "?lhs \<longleftrightarrow> decode_header_and_crc (Some b) n NUM8LORA_MSG_UPDATE_DATA (Some h0) = (True, Some h)
      \<and> 26 \<le> unat n \<and> u = update_head_parse (drop 8 b) \<and> unat n = update_size u \<and> update_header_ok u
      \<and> c_sender_id h \<noteq> 0 \<and> c_receiver_id h \<noteq> 0
      \<and> rp = Some (Some 24) \<and> ap = Some (Some (24 + 4 * unat (u_remove_count u)))"
  proof (cases "26 \<le> unat n")
    case True
    then have long: "\<not> n < 26" "26 \<le> length b"
      using assms by (simp_all add: word_less_nat_alt)
    obtain ok h' where d: "decode_header_and_crc (Some b) n NUM8LORA_MSG_UPDATE_DATA (Some h0) = (ok, Some h')"
      using decode_header_writes by blast
    show ?thesis
      unfolding num8lora_decode_update_data_header_def Let_def store_simps option.case prod.case d
        head [OF long(2), symmetric] len ptr option.sel
      using True long(1) by (auto simp: update_header_ok_def)
  next
    case False
    then have "n < 26" by (simp add: word_less_nat_alt)
    with False show ?thesis
      using decode_header_writes [of b n NUM8LORA_MSG_UPDATE_DATA h0]
      by (auto simp: num8lora_decode_update_data_header_def Let_def split: if_splits)
  qed
  also have "\<dots> \<longleftrightarrow> ?rhs"
    unfolding decode_header_iff [OF assms]
  proof (intro iffI; elim conjE exE)
    fix sid rid sq pay
    assume h: "h = legacy_header NUM8LORA_MSG_UPDATE_DATA sid rid sq"
      and f: "take (unat n) b = frame NUM8LORA_MSG_UPDATE_DATA sid rid sq pay"
      and u: "u = update_head_parse (drop 8 b)" "unat n = update_size u" "update_header_ok u"
        "c_sender_id h \<noteq> 0" "c_receiver_id h \<noteq> 0"
        "rp = Some (Some 24)" "ap = Some (Some (24 + 4 * unat (u_remove_count u)))"
    have "u_reserved0 u = 0" using u(3) by (simp add: update_header_ok_def)
    from update_frame_parse [OF f assms u(1,2) this] f h u show ?rhs
      by (intro exI [of _ sid] exI [of _ rid] exI [of _ sq]
          exI [of _ "numbers_parse (unat (u_remove_count u)) (drop 24 b)"]
          exI [of _ "numbers_parse (unat (u_add_count u)) (drop (24 + 4 * unat (u_remove_count u)) b)"])
        (simp add: update_wire_def update_fits_def)
  next
    fix sid rid sq rs as
    assume u: "sid \<noteq> 0" "rid \<noteq> 0" "update_header_ok u" "update_fits u rs as"
      "take (unat n) b = update_wire (sid, rid, sq) u rs as"
      "h = legacy_header NUM8LORA_MSG_UPDATE_DATA sid rid sq"
      "rp = Some (Some 24)" "ap = Some (Some (24 + 4 * unat (u_remove_count u)))"
    note reads = update_frame_reads [OF u(5) assms u(4,3)]
    show "(\<exists>sid rid sq pay. h = legacy_header NUM8LORA_MSG_UPDATE_DATA sid rid sq
        \<and> take (unat n) b = frame NUM8LORA_MSG_UPDATE_DATA sid rid sq pay)
      \<and> 26 \<le> unat n \<and> u = update_head_parse (drop 8 b) \<and> unat n = update_size u \<and> update_header_ok u
      \<and> c_sender_id h \<noteq> 0 \<and> c_receiver_id h \<noteq> 0
      \<and> rp = Some (Some 24) \<and> ap = Some (Some (24 + 4 * unat (u_remove_count u)))"
      using u reads(1,2) by (auto simp: update_wire_def update_size_def)
  qed
  finally show ?thesis .
qed

subsection \<open>The numbers of a frame\<close>

lemma decode_numbers_exact:
  assumes "unat (u_remove_count u) \<le> unat xcap" "unat (u_add_count u) \<le> unat ycap"
    and "unat xcap \<le> length xs" "unat ycap \<le> length ys"
  shows "num8lora_decode_update_numbers (Some u) (Some rp) (ucast (u_remove_count u)) (Some ap)
      (ucast (u_add_count u)) (Some xs) xcap (Some ys) ycap q1 q2 =
    (True,
     Some (overlay (replicate (unat xcap) 0 @ drop (unat xcap) xs) 0 (numbers_parse (unat (u_remove_count u)) rp)),
     Some (overlay (replicate (unat ycap) 0 @ drop (unat ycap) ys) 0 (numbers_parse (unat (u_add_count u)) ap)),
     store (ucast (u_remove_count u)) q1, store (ucast (u_add_count u)) q2)"
proof -
  have "\<not> xcap < ucast (u_remove_count u)" "\<not> ycap < ucast (u_add_count u)"
    using assms(1,2) by (simp_all add: word_less_nat_alt)
  then show ?thesis
    using assms by (simp add: num8lora_decode_update_numbers_def Let_def clear_numbers_exact
      load_numbers_exact overlay_0)
qed

lemma take_overlay_numbers:
  "length vs \<le> length xs \<Longrightarrow> take (length vs) (overlay xs 0 vs) = vs"
  by (rule take_overlay_0)

subsection \<open>Classification\<close>

text \<open>The frames \<open>num8lora_classify_frame\<close> lets pass, and the header it reports for them.\<close>

definition expected_frame :: "u16 \<Rightarrow> u8 \<Rightarrow> u8 \<Rightarrow> u16 \<Rightarrow> bool" where
  "expected_frame expected_receiver expected_kind kind rid \<longleftrightarrow>
    kind \<noteq> 0 \<and> kind \<le> NUM8LORA_MSG_NACK
    \<and> (expected_kind = 0 \<or> kind = expected_kind)
    \<and> (expected_receiver = NUM8LORA_ANY_RECEIVER_ID
       \<or> rid = (if kind = NUM8LORA_MSG_BEACON then 0 else expected_receiver))"

lemma decode_common_reads:
  assumes "unat n \<le> length b" "10 \<le> unat n"
  shows "num8lora_decode_common_header (Some b) n (Some h0) =
    (True, Some \<lparr>c_protocol_version = b ! 0, c_msg_type = b ! 1, c_sender_id = ld16 b 2,
      c_receiver_id = ld16 b 4, c_seq = ld16 b 6\<rparr>)"
  using assms by (simp add: num8lora_decode_common_header_def word_less_nat_alt)

lemma classify_iff:
  assumes "unat n \<le> length b"
  shows "num8lora_classify_frame (Some b) n er ek (Some h0) e = (True, Some h, e') \<longleftrightarrow>
    e' = store NUM8LORA_ERR_NONE e
    \<and> (\<exists>kind sid rid sq pay. h = legacy_header kind sid rid sq \<and> expected_frame er ek kind rid
      \<and> take (unat n) b = frame kind sid rid sq pay)"
proof (cases "10 \<le> unat n")
  case True
  have "num8lora_classify_frame (Some b) n er ek (Some h0) e = (True, Some h, e') \<longleftrightarrow>
    e' = store NUM8LORA_ERR_NONE e \<and> (\<exists>kind sid rid sq. h = legacy_header kind sid rid sq
      \<and> expected_frame er ek kind rid \<and> take (unat n) b = seal (take (unat n - 2) b)
      \<and> b ! 0 = 1 \<and> b ! 1 = kind \<and> ld16 b 2 = sid \<and> ld16 b 4 = rid \<and> ld16 b 6 = sq)"
    using True assms
    by (auto simp: num8lora_classify_frame_def Let_def legacy_crc_iff decode_common_reads
      expected_frame_def legacy_header_def not_less)
  then show ?thesis
    unfolding frame_iff_reads [OF assms True] by blast
next
  case False
  have "take (unat n) b \<noteq> frame kind sid rid sq pay" for kind sid rid sq pay
    using frame_prefix(2) [OF _ assms, of kind sid rid sq pay] False by auto
  then show ?thesis
    using False by (simp add: num8lora_classify_frame_def Let_def legacy_crc_iff [OF assms])
qed

lemma classify_writes:
  "\<exists>ok h c. num8lora_classify_frame (Some b) n er ek (Some h0) e = (ok, Some h, store c e)
    \<and> (\<not> ok \<longrightarrow> h = zero_common_header \<and> c \<noteq> NUM8LORA_ERR_NONE)"
proof -
  define P where "P r \<longleftrightarrow> (\<exists>ok h c. r = (ok, Some h, store c e)
    \<and> (\<not> ok \<longrightarrow> h = zero_common_header \<and> c \<noteq> NUM8LORA_ERR_NONE))" for r
  have fail: "P (False, Some zero_common_header, store k e)" if "k \<noteq> NUM8LORA_ERR_NONE" for k
    using that unfolding P_def by blast
  have pass: "P (True, Some h, store k e)" for h k
    unfolding P_def by blast
  obtain ok h where d: "num8lora_decode_common_header (Some b) n (Some zero_common_header) = (ok, Some h)"
    by (cases "n < 8") (auto simp: num8lora_decode_common_header_def)
  have "P (num8lora_classify_frame (Some b) n er ek (Some h0) e)"
    unfolding num8lora_classify_frame_def Let_def store_simps store_store option.case prod.case d
    by (cases ok) (simp_all add: fail pass)
  then show ?thesis unfolding P_def .
qed

lemma classify_cases:
  assumes "unat n \<le> length b"
  obtains (pass) kind sid rid sq pay where
      "num8lora_classify_frame (Some b) n er ek (Some h0) e
        = (True, Some (legacy_header kind sid rid sq), store NUM8LORA_ERR_NONE e)"
      "expected_frame er ek kind rid" "take (unat n) b = frame kind sid rid sq pay"
    | (stop) c where
      "num8lora_classify_frame (Some b) n er ek (Some h0) e = (False, Some zero_common_header, store c e)"
      "c \<noteq> NUM8LORA_ERR_NONE" "\<And>kind sid rid sq pay. expected_frame er ek kind rid \<Longrightarrow> take (unat n) b \<noteq> frame kind sid rid sq pay"
proof -
  obtain ok h c where r: "num8lora_classify_frame (Some b) n er ek (Some h0) e = (ok, Some h, store c e)"
    "\<not> ok \<longrightarrow> h = zero_common_header \<and> c \<noteq> NUM8LORA_ERR_NONE"
    using classify_writes by blast
  show ?thesis
  proof (cases ok)
    case True
    then show ?thesis
      using classify_iff [OF assms, of er ek h0 e h "store c e"] r pass by auto
  next
    case False
    show ?thesis
    proof (rule stop)
      show "num8lora_classify_frame (Some b) n er ek (Some h0) e = (False, Some zero_common_header, store c e)"
        using r False by simp
      show "c \<noteq> NUM8LORA_ERR_NONE"
        using r(2) False by simp
      show "take (unat n) b \<noteq> frame kind sid rid sq pay" if "expected_frame er ek kind rid" for kind sid rid sq pay
        using classify_iff [OF assms, of er ek h0 e "legacy_header kind sid rid sq" "store NUM8LORA_ERR_NONE e"]
          that r False by auto
    qed
  qed
qed

end
