(* ===== verification/LegacyRuntime.thy ===== *)
theory LegacyRuntime
  imports LegacyUpdate
begin

text \<open>
  \<open>src/src/num8lora_runtime.c\<close> and the two context structs of \<open>src/include/num8lora.h\<close>: the state machines
  of the legacy protocol. A sender announces one update in a beacon, answers a request with the
  UPDATE_DATA frame and waits for ACK or NACK; a receiver requests an announced update, validates
  the data against the announcement and acknowledges it. Timers are calls of the owner.

  The sender keeps pointers to the caller's two arrays of numbers. The model stores their contents:
  the owner must not change the arrays while an update is set. Functions whose C names the async
  protocol also uses (in another library) have the prefix \<open>legacy_\<close> here.
\<close>

datatype num8lora_sender_state =
  NUM8LORA_SENDER_IDLE | NUM8LORA_SENDER_WAIT_REQUEST | NUM8LORA_SENDER_WAIT_ACK

datatype num8lora_receiver_state =
  NUM8LORA_RECEIVER_SCAN | NUM8LORA_RECEIVER_WAIT_UPDATE

datatype num8lora_sender_ack_result =
  NUM8LORA_ACKRES_NONE | NUM8LORA_ACKRES_APPLIED | NUM8LORA_ACKRES_NACKED

record num8lora_sender_ctx =
  ls_state :: num8lora_sender_state
  ls_sender_id :: u16
  ls_target_receiver_id :: u16
  ls_seq :: u16
  ls_max_retries :: u8
  ls_retries :: u8
  ls_update_hdr :: num8lora_update_header
  ls_remove_numbers :: "u32 list ptr"
  ls_add_numbers :: "u32 list ptr"
  ls_update_payload_crc16 :: u16
  ls_last_nack_error :: u16

record num8lora_receiver_ctx =
  lr_state :: num8lora_receiver_state
  lr_receiver_id :: u16
  lr_expected_sender_id :: u16
  lr_seq :: u16
  lr_max_retries :: u8
  lr_retries :: u8
  lr_local_dataset_version :: u32
  lr_last_applied_update_id :: u32
  lr_last_applied_sender_id :: u16
  lr_last_applied_receiver_id :: u16
  lr_last_applied_dataset_version_from :: u32
  lr_last_applied_dataset_version_to :: u32
  lr_last_applied_remove_count :: u8
  lr_last_applied_add_count :: u8
  lr_last_applied_payload_size :: u16
  lr_last_applied_payload_crc16 :: u16
  lr_pending_update_id :: u32
  lr_pending_dataset_version_from :: u32
  lr_pending_dataset_version_to :: u32
  lr_pending_remove_count :: u8
  lr_pending_add_count :: u8
  lr_pending_payload_size :: u16
  lr_pending_payload_crc16 :: u16

definition update_payload_size :: "u8 \<Rightarrow> u8 \<Rightarrow> u32" where
  "update_payload_size remove_count add_count = 16 + 4 * ucast remove_count + 4 * ucast add_count"

subsection \<open>Sender\<close>

definition legacy_sender_init :: "num8lora_sender_ctx ptr \<Rightarrow> u16 \<Rightarrow> u8 \<Rightarrow> num8lora_sender_ctx ptr" where
  "legacy_sender_init ctx sender_id max_retries =
    (case ctx of
       None \<Rightarrow> None
     | Some _ \<Rightarrow> Some \<lparr>ls_state = NUM8LORA_SENDER_IDLE, ls_sender_id = sender_id,
         ls_target_receiver_id = 0, ls_seq = 1, ls_max_retries = max_retries, ls_retries = 0,
         ls_update_hdr = zero_update_header, ls_remove_numbers = None, ls_add_numbers = None,
         ls_update_payload_crc16 = 0, ls_last_nack_error = 0\<rparr>)"

definition num8lora_sender_set_update ::
  "num8lora_sender_ctx ptr \<Rightarrow> u16 \<Rightarrow> num8lora_update_header ptr \<Rightarrow> u32 list ptr \<Rightarrow> u32 list ptr \<Rightarrow> u16 ptr
    \<Rightarrow> bool \<times> num8lora_sender_ctx ptr \<times> u16 ptr" where
  "num8lora_sender_set_update ctx target_receiver_id hdr remove_numbers add_numbers out_error_code =
    (let out_error_code = store NUM8LORA_ERR_NONE out_error_code;
         fail = (\<lambda>ctx code. (False, ctx, store code out_error_code)) in
     case (ctx, hdr) of
       (Some c, Some h) \<Rightarrow>
         if ls_state c = NUM8LORA_SENDER_WAIT_ACK then fail ctx NUM8LORA_ERR_BUSY
         else if u_dataset_version_to h \<le> u_dataset_version_from h \<or> u_reserved0 h \<noteq> 0
         then fail ctx NUM8LORA_ERR_DATASET_VERSION_MISMATCH
         else (case num8lora_validate_update_numbers hdr remove_numbers add_numbers (Some NUM8LORA_ERR_NONE) of
           (ok, err) \<Rightarrow>
             if \<not> ok then fail ctx (the err)
             else (case num8lora_compute_update_payload_crc16 hdr remove_numbers add_numbers
                     (Some (ls_update_payload_crc16 c)) of
               (ok, crc) \<Rightarrow>
                 let c = c\<lparr>ls_update_payload_crc16 := the crc\<rparr> in
                 if \<not> ok then fail (Some c) NUM8LORA_ERR_INTERNAL
                 else (True, Some (c\<lparr>ls_target_receiver_id := target_receiver_id,
                     ls_update_hdr := h, ls_remove_numbers := remove_numbers,
                     ls_add_numbers := add_numbers, ls_retries := 0,
                     ls_last_nack_error := NUM8LORA_ERR_NONE,
                     ls_state := NUM8LORA_SENDER_WAIT_REQUEST\<rparr>), out_error_code)))
     | _ \<Rightarrow> fail ctx NUM8LORA_ERR_INTERNAL)"

definition legacy_sender_build_beacon ::
  "num8lora_sender_ctx ptr \<Rightarrow> u8 list ptr \<Rightarrow> u32 \<Rightarrow> u32 ptr
    \<Rightarrow> bool \<times> num8lora_sender_ctx ptr \<times> u8 list ptr \<times> u32 ptr" where
  "legacy_sender_build_beacon ctx out_buf out_cap out_len =
    (let out_len = store 0 out_len;
         stop = (False, ctx, out_buf, out_len) in
     case (ctx, out_buf) of
       (Some c, Some _) \<Rightarrow>
         let u = ls_update_hdr c;
             p = \<lparr>b_current_update_id = u_update_id u,
               b_dataset_version_from = u_dataset_version_from u,
               b_dataset_version_to = u_dataset_version_to u,
               b_remove_count = u_remove_count u, b_add_count = u_add_count u,
               b_update_payload_size = ucast (16 + 4 * ucast (u_remove_count u) + 4 * ucast (u_add_count u) :: u32),
               b_update_payload_crc16 = ls_update_payload_crc16 c\<rparr> in
         if out_cap < 28 then stop
         else (case num8lora_encode_beacon out_buf out_cap (ls_sender_id c) (ls_seq c) (Some p) out_len of
           (ok, out_buf, out_len) \<Rightarrow>
             if \<not> ok then (False, ctx, out_buf, out_len)
             else (True, Some (c\<lparr>ls_seq := ls_seq c + 1\<rparr>), out_buf, out_len))
     | _ \<Rightarrow> stop)"

definition sender_emit_update ::
  "num8lora_sender_ctx \<Rightarrow> u16 \<Rightarrow> u16 \<Rightarrow> u8 list ptr \<Rightarrow> u32 \<Rightarrow> u32 ptr \<Rightarrow> bool \<times> u8 list ptr \<times> u32 ptr" where
  "sender_emit_update ctx receiver_id seq out_response_buf out_cap out_len =
    num8lora_encode_update_data out_response_buf out_cap (ls_sender_id ctx) receiver_id seq
      (Some (ls_update_hdr ctx)) (ls_remove_numbers ctx) (ls_add_numbers ctx) out_len"

definition num8lora_sender_handle_update_request ::
  "num8lora_sender_ctx ptr \<Rightarrow> u8 list ptr \<Rightarrow> u32 \<Rightarrow> u8 list ptr \<Rightarrow> u32 \<Rightarrow> u32 ptr
    \<Rightarrow> bool \<times> num8lora_sender_ctx ptr \<times> u8 list ptr \<times> u32 ptr" where
  "num8lora_sender_handle_update_request ctx req_buf req_len out_response_buf out_cap out_len =
    (let out_len = store 0 out_len;
         stop = (\<lambda>ctx. (False, ctx, out_response_buf, out_len)) in
     case (ctx, req_buf, out_response_buf, out_len) of
       (Some c, Some _, Some _, Some _) \<Rightarrow>
         if ls_state c \<noteq> NUM8LORA_SENDER_WAIT_REQUEST \<and> ls_state c \<noteq> NUM8LORA_SENDER_WAIT_ACK
         then stop ctx
         else (case num8lora_classify_frame req_buf req_len (ls_sender_id c) NUM8LORA_MSG_UPDATE_REQUEST
                 (Some zero_common_header) (Some NUM8LORA_ERR_NONE) of
           (ok, hdr, err) \<Rightarrow>
             if \<not> ok then stop ctx
             else (case num8lora_decode_update_request req_buf req_len hdr
                     (Some \<lparr>q_requested_update_id = 0, q_receiver_dataset_ver = 0\<rparr>) of
               (ok, hdr, req) \<Rightarrow>
                 let h = the hdr; r = the req; u = ls_update_hdr c;
                     send_nack =
                       (if \<not> ok then Some \<lparr>n_nack_update_id = u_update_id u,
                          n_error_code = (if the err = NUM8LORA_ERR_NONE then NUM8LORA_ERR_INTERNAL
                            else the err), n_detail = 0\<rparr>
                        else if q_requested_update_id r \<noteq> u_update_id u
                        then Some \<lparr>n_nack_update_id = q_requested_update_id r,
                          n_error_code = NUM8LORA_ERR_UPDATE_ID_UNKNOWN, n_detail = 0\<rparr>
                        else if q_receiver_dataset_ver r \<noteq> u_dataset_version_from u
                        then Some \<lparr>n_nack_update_id = q_requested_update_id r,
                          n_error_code = NUM8LORA_ERR_DATASET_VERSION_MISMATCH, n_detail = 0\<rparr>
                        else None) in
                 (case send_nack of
                   Some nack \<Rightarrow>
                     let c = c\<lparr>ls_last_nack_error := n_error_code nack\<rparr> in
                     if out_cap < 18 then stop (Some c)
                     else (case num8lora_encode_nack out_response_buf out_cap (ls_sender_id c)
                             (c_sender_id h) (ls_seq c) (Some nack) out_len of
                       (ok, out_buf, out_len) \<Rightarrow>
                         if \<not> ok then (False, Some c, out_buf, out_len)
                         else (True, Some (c\<lparr>ls_seq := ls_seq c + 1, ls_state := NUM8LORA_SENDER_IDLE\<rparr>),
                           out_buf, out_len))
                 | None \<Rightarrow>
                     let frame_len = 26 + 4 * ucast (u_remove_count u) + 4 * ucast (u_add_count u) :: u32 in
                     if out_cap < frame_len then stop ctx
                     else (case sender_emit_update c (c_sender_id h) (ls_seq c) out_response_buf out_cap out_len of
                       (ok, out_buf, out_len) \<Rightarrow>
                         if \<not> ok then (False, ctx, out_buf, out_len)
                         else (True, Some (c\<lparr>ls_seq := ls_seq c + 1,
                             ls_target_receiver_id := c_sender_id h,
                             ls_state := NUM8LORA_SENDER_WAIT_ACK, ls_retries := 0\<rparr>), out_buf, out_len)))))
     | _ \<Rightarrow> stop ctx)"

definition num8lora_sender_handle_ack_or_nack ::
  "num8lora_sender_ctx ptr \<Rightarrow> u8 list ptr \<Rightarrow> u32 \<Rightarrow> num8lora_sender_ack_result ptr \<Rightarrow> u16 ptr
    \<Rightarrow> bool \<times> num8lora_sender_ctx ptr \<times> num8lora_sender_ack_result ptr \<times> u16 ptr" where
  "num8lora_sender_handle_ack_or_nack ctx in_buf in_len out_result out_nack_error_code =
    (let out_result = store NUM8LORA_ACKRES_NONE out_result;
         out_nack_error_code = store NUM8LORA_ERR_NONE out_nack_error_code;
         stop = (False, ctx, out_result, out_nack_error_code) in
     case (ctx, in_buf, out_result) of
       (Some c, Some _, Some _) \<Rightarrow>
         if ls_state c \<noteq> NUM8LORA_SENDER_WAIT_ACK then stop
         else (case num8lora_classify_frame in_buf in_len (ls_sender_id c) 0 (Some zero_common_header)
                 (Some NUM8LORA_ERR_NONE) of
           (ok, hdr, err) \<Rightarrow>
             if \<not> ok then stop
             else if c_msg_type (the hdr) = NUM8LORA_MSG_ACK then
               (case num8lora_decode_ack in_buf in_len hdr
                       (Some \<lparr>a_ack_update_id = 0, a_receiver_dataset_ver = 0\<rparr>) of
                 (ok, hdr, ack) \<Rightarrow>
                   if \<not> ok then stop
                   else if a_ack_update_id (the ack) = u_update_id (ls_update_hdr c)
                      \<and> a_receiver_dataset_ver (the ack) = u_dataset_version_to (ls_update_hdr c)
                   then (True, Some (c\<lparr>ls_state := NUM8LORA_SENDER_IDLE, ls_retries := 0\<rparr>),
                     store NUM8LORA_ACKRES_APPLIED out_result, out_nack_error_code)
                   else stop)
             else if c_msg_type (the hdr) = NUM8LORA_MSG_NACK then
               (case num8lora_decode_nack in_buf in_len hdr
                       (Some \<lparr>n_nack_update_id = 0, n_error_code = 0, n_detail = 0\<rparr>) of
                 (ok, hdr, nack) \<Rightarrow>
                   if \<not> ok then stop
                   else (True, Some (c\<lparr>ls_last_nack_error := n_error_code (the nack),
                       ls_state := NUM8LORA_SENDER_IDLE\<rparr>),
                     store NUM8LORA_ACKRES_NACKED out_result,
                     store (n_error_code (the nack)) out_nack_error_code))
             else stop)
     | _ \<Rightarrow> stop)"

definition num8lora_sender_on_ack_timeout ::
  "num8lora_sender_ctx ptr \<Rightarrow> u8 list ptr \<Rightarrow> u32 \<Rightarrow> u32 ptr
    \<Rightarrow> bool \<times> num8lora_sender_ctx ptr \<times> u8 list ptr \<times> u32 ptr" where
  "num8lora_sender_on_ack_timeout ctx out_update_buf out_cap out_len =
    (let out_len = store 0 out_len;
         stop = (\<lambda>ctx. (False, ctx, out_update_buf, out_len)) in
     case (ctx, out_update_buf, out_len) of
       (Some c, Some _, Some _) \<Rightarrow>
         if ls_state c \<noteq> NUM8LORA_SENDER_WAIT_ACK then stop ctx
         else if ls_retries c \<ge> ls_max_retries c
         then stop (Some (c\<lparr>ls_state := NUM8LORA_SENDER_IDLE\<rparr>))
         else
           let c = c\<lparr>ls_retries := ls_retries c + 1\<rparr> in
           (case sender_emit_update c (ls_target_receiver_id c) (ls_seq c) out_update_buf out_cap out_len of
             (ok, out_buf, out_len) \<Rightarrow>
               if \<not> ok then (False, Some c, out_buf, out_len)
               else (True, Some (c\<lparr>ls_seq := ls_seq c + 1\<rparr>), out_buf, out_len))
     | _ \<Rightarrow> stop ctx)"

subsection \<open>Receiver\<close>

definition legacy_receiver_init ::
  "num8lora_receiver_ctx ptr \<Rightarrow> u16 \<Rightarrow> u16 \<Rightarrow> u8 \<Rightarrow> u32 \<Rightarrow> u32 \<Rightarrow> num8lora_receiver_ctx ptr" where
  "legacy_receiver_init ctx receiver_id expected_sender_id max_retries local_dataset_version
     last_applied_update_id =
    (case ctx of
       None \<Rightarrow> None
     | Some _ \<Rightarrow> Some \<lparr>lr_state = NUM8LORA_RECEIVER_SCAN, lr_receiver_id = receiver_id,
         lr_expected_sender_id = expected_sender_id, lr_seq = 1, lr_max_retries = max_retries,
         lr_retries = 0, lr_local_dataset_version = local_dataset_version,
         lr_last_applied_update_id = last_applied_update_id, lr_last_applied_sender_id = 0,
         lr_last_applied_receiver_id = receiver_id, lr_last_applied_dataset_version_from = 0,
         lr_last_applied_dataset_version_to = local_dataset_version,
         lr_last_applied_remove_count = 0, lr_last_applied_add_count = 0,
         lr_last_applied_payload_size = 0, lr_last_applied_payload_crc16 = 0,
         lr_pending_update_id = 0, lr_pending_dataset_version_from = 0,
         lr_pending_dataset_version_to = 0, lr_pending_remove_count = 0, lr_pending_add_count = 0,
         lr_pending_payload_size = 0, lr_pending_payload_crc16 = 0\<rparr>)"

definition legacy_receiver_handle_beacon ::
  "num8lora_receiver_ctx ptr \<Rightarrow> u8 list ptr \<Rightarrow> u32 \<Rightarrow> u8 list ptr \<Rightarrow> u32 \<Rightarrow> u32 ptr
    \<Rightarrow> bool \<times> num8lora_receiver_ctx ptr \<times> u8 list ptr \<times> u32 ptr" where
  "legacy_receiver_handle_beacon ctx beacon_buf beacon_len out_request_buf out_cap out_len =
    (let out_len = store 0 out_len;
         stop = (False, ctx, out_request_buf, out_len) in
     case (ctx, beacon_buf, out_request_buf, out_len) of
       (Some c, Some _, Some _, Some _) \<Rightarrow>
         (case num8lora_classify_frame beacon_buf beacon_len NUM8LORA_ANY_RECEIVER_ID NUM8LORA_MSG_BEACON
                 (Some zero_common_header) (Some NUM8LORA_ERR_NONE) of
           (ok, hdr, err) \<Rightarrow>
             if \<not> ok then stop
             else (case num8lora_decode_beacon beacon_buf beacon_len hdr (Some zero_beacon_payload) of
               (ok, hdr, p) \<Rightarrow>
                 if \<not> ok then stop
                 else
                   let h = the hdr; p = the p in
                   if lr_expected_sender_id c \<noteq> 0 \<and> c_sender_id h \<noteq> lr_expected_sender_id c then stop
                   else if b_dataset_version_to p \<le> lr_local_dataset_version c then stop
                   else
                     let req = \<lparr>q_requested_update_id = b_current_update_id p,
                           q_receiver_dataset_ver = lr_local_dataset_version c\<rparr> in
                     if out_cap < 18 then stop
                     else (case num8lora_encode_update_request out_request_buf out_cap (lr_receiver_id c)
                             (c_sender_id h) (lr_seq c) (Some req) out_len of
                       (ok, out_buf, out_len) \<Rightarrow>
                         if \<not> ok then (False, ctx, out_buf, out_len)
                         else (True, Some (c\<lparr>lr_seq := lr_seq c + 1,
                             lr_pending_update_id := b_current_update_id p,
                             lr_pending_dataset_version_from := b_dataset_version_from p,
                             lr_pending_dataset_version_to := b_dataset_version_to p,
                             lr_pending_remove_count := b_remove_count p,
                             lr_pending_add_count := b_add_count p,
                             lr_pending_payload_size := b_update_payload_size p,
                             lr_pending_payload_crc16 := b_update_payload_crc16 p,
                             lr_state := NUM8LORA_RECEIVER_WAIT_UPDATE, lr_retries := 0\<rparr>),
                           out_buf, out_len))))
     | _ \<Rightarrow> stop)"

definition num8lora_receiver_on_update_timeout ::
  "num8lora_receiver_ctx ptr \<Rightarrow> u8 list ptr \<Rightarrow> u32 \<Rightarrow> u32 ptr
    \<Rightarrow> bool \<times> num8lora_receiver_ctx ptr \<times> u8 list ptr \<times> u32 ptr" where
  "num8lora_receiver_on_update_timeout ctx out_request_buf out_cap out_len =
    (let out_len = store 0 out_len;
         stop = (\<lambda>ctx. (False, ctx, out_request_buf, out_len)) in
     case (ctx, out_request_buf, out_len) of
       (Some c, Some _, Some _) \<Rightarrow>
         if lr_state c \<noteq> NUM8LORA_RECEIVER_WAIT_UPDATE then stop ctx
         else if lr_retries c \<ge> lr_max_retries c
         then stop (Some (c\<lparr>lr_state := NUM8LORA_RECEIVER_SCAN\<rparr>))
         else
           let c = c\<lparr>lr_retries := lr_retries c + 1\<rparr>;
               req = \<lparr>q_requested_update_id = lr_pending_update_id c,
                 q_receiver_dataset_ver = lr_local_dataset_version c\<rparr> in
           if out_cap < 18 then stop (Some c)
           else (case num8lora_encode_update_request out_request_buf out_cap (lr_receiver_id c)
                   (lr_expected_sender_id c) (lr_seq c) (Some req) out_len of
             (ok, out_buf, out_len) \<Rightarrow>
               if \<not> ok then (False, Some c, out_buf, out_len)
               else (True, Some (c\<lparr>lr_seq := lr_seq c + 1\<rparr>), out_buf, out_len))
     | _ \<Rightarrow> stop ctx)"

text \<open>
  The tests of a decoded update \<open>up\<close> against the receiver, the last part of
  \<open>num8lora_receiver_validate_update_data\<close>; the result is the error code.
\<close>

definition check_update ::
  "num8lora_receiver_ctx \<Rightarrow> num8lora_common_header \<Rightarrow> num8lora_update_header \<Rightarrow> u16 \<Rightarrow> u16" where
  "check_update c hdr up payload_crc =
    (if u_update_id up = lr_last_applied_update_id c then
       (if c_sender_id hdr = lr_last_applied_sender_id c
           \<and> c_receiver_id hdr = lr_last_applied_receiver_id c
           \<and> u_dataset_version_from up = lr_last_applied_dataset_version_from c
           \<and> u_dataset_version_to up = lr_last_applied_dataset_version_to c
           \<and> u_remove_count up = lr_last_applied_remove_count c
           \<and> u_add_count up = lr_last_applied_add_count c
           \<and> u_reserved0 up = 0
           \<and> payload_crc = lr_last_applied_payload_crc16 c
        then NUM8LORA_ERR_NONE else NUM8LORA_ERR_UPDATE_ID_UNKNOWN)
     else if lr_state c \<noteq> NUM8LORA_RECEIVER_WAIT_UPDATE then NUM8LORA_ERR_UPDATE_ID_UNKNOWN
     else if u_update_id up \<noteq> lr_pending_update_id c then NUM8LORA_ERR_UPDATE_ID_UNKNOWN
     else if u_dataset_version_from up \<noteq> lr_local_dataset_version c
        \<or> u_dataset_version_from up \<noteq> lr_pending_dataset_version_from c
        \<or> u_dataset_version_to up \<noteq> lr_pending_dataset_version_to c
        \<or> u_dataset_version_to up \<le> u_dataset_version_from up
     then NUM8LORA_ERR_DATASET_VERSION_MISMATCH
     else if u_remove_count up \<noteq> lr_pending_remove_count c \<or> u_add_count up \<noteq> lr_pending_add_count c
     then NUM8LORA_ERR_UPDATE_ID_UNKNOWN
     else if (ucast (update_payload_size (u_remove_count up) (u_add_count up)) :: u16)
        \<noteq> lr_pending_payload_size c
     then NUM8LORA_ERR_INTERNAL
     else if lr_pending_payload_crc16 c \<noteq> 0 \<and> payload_crc \<noteq> lr_pending_payload_crc16 c
     then NUM8LORA_ERR_CRC_FAIL
     else NUM8LORA_ERR_NONE)"

definition num8lora_receiver_validate_update_data ::
  "num8lora_receiver_ctx ptr \<Rightarrow> u8 list ptr \<Rightarrow> u32 \<Rightarrow> num8lora_update_header ptr
    \<Rightarrow> u32 list ptr \<Rightarrow> u32 \<Rightarrow> u32 list ptr \<Rightarrow> u32 \<Rightarrow> u32 ptr \<Rightarrow> u32 ptr \<Rightarrow> u16 ptr
    \<Rightarrow> bool \<times> num8lora_update_header ptr \<times> u32 list ptr \<times> u32 list ptr \<times> u32 ptr \<times> u32 ptr \<times> u16 ptr" where
  "num8lora_receiver_validate_update_data ctx update_buf update_len out_hdr out_remove_numbers
     out_remove_capacity out_add_numbers out_add_capacity out_required_remove_count
     out_required_add_count out_error_code =
    (let out_error_code = store NUM8LORA_ERR_NONE out_error_code;
         out_hdr = store zero_update_header out_hdr;
         req_r = store 0 out_required_remove_count;
         req_a = store 0 out_required_add_count;
         fail = (\<lambda>code. (False, out_hdr, out_remove_numbers, out_add_numbers, req_r, req_a,
           store code out_error_code)) in
     case (ctx, update_buf, out_hdr) of
       (Some c, Some b, Some _) \<Rightarrow>
         (case num8lora_classify_frame update_buf update_len (lr_receiver_id c) NUM8LORA_MSG_UPDATE_DATA
                 (Some zero_common_header) (Some NUM8LORA_ERR_NONE) of
           (ok, hdr, err) \<Rightarrow>
             if \<not> ok then fail (the err)
             else if lr_expected_sender_id c \<noteq> 0 \<and> c_sender_id (the hdr) \<noteq> lr_expected_sender_id c
             then fail NUM8LORA_ERR_INVALID_RECEIVER_ID
             else (case num8lora_decode_update_data_header update_buf update_len hdr
                     (Some zero_update_header) (Some None) (Some None) of
               (ok, hdr, up, rp, ap) \<Rightarrow>
                 if \<not> ok then fail NUM8LORA_ERR_INTERNAL
                 else
                   let up = the up;
                       remove_count = ucast (u_remove_count up) :: u32;
                       add_count = ucast (u_add_count up) :: u32 in
                   if (26 :: u64) + 4 * ucast remove_count + 4 * ucast add_count \<noteq> ucast update_len
                   then fail NUM8LORA_ERR_INTERNAL
                   else
                     let req_r = store remove_count req_r;
                         req_a = store add_count req_a in
                     (case num8lora_decode_update_numbers (Some up)
                             (map_option (\<lambda>off. drop off b) (the rp)) remove_count
                             (map_option (\<lambda>off. drop off b) (the ap)) add_count
                             out_remove_numbers out_remove_capacity out_add_numbers out_add_capacity
                             (Some 0) (Some 0) of
                       (ok, out_r, out_a, required_remove, required_add) \<Rightarrow>
                         let fail = (\<lambda>code. (False, out_hdr, out_r, out_a, req_r, req_a,
                               store code out_error_code)) in
                         if \<not> ok then
                           (if the required_remove = remove_count \<and> the required_add = add_count
                               \<and> (out_r = None \<or> out_a = None \<or> out_remove_capacity < remove_count
                                  \<or> out_add_capacity < add_count)
                            then fail NUM8LORA_ERR_OUTPUT_TOO_SMALL else fail NUM8LORA_ERR_INTERNAL)
                         else (case num8lora_validate_update_numbers (Some up) out_r out_a
                                 (Some NUM8LORA_ERR_NONE) of
                           (ok, err) \<Rightarrow>
                             if \<not> ok then fail (the err)
                             else (case num8lora_compute_update_payload_crc16 (Some up) out_r out_a (Some 0) of
                               (ok, payload_crc) \<Rightarrow>
                                 if \<not> ok then fail NUM8LORA_ERR_INTERNAL
                                 else
                                   let code = check_update c (the hdr) up (the payload_crc) in
                                   if code \<noteq> NUM8LORA_ERR_NONE then fail code
                                   else (True, Some up, out_r, out_a, req_r, req_a, out_error_code))))))
     | _ \<Rightarrow> fail NUM8LORA_ERR_INTERNAL)"

definition num8lora_receiver_encode_ack ::
  "num8lora_receiver_ctx ptr \<Rightarrow> u16 \<Rightarrow> u32 \<Rightarrow> u8 list ptr \<Rightarrow> u32 \<Rightarrow> u32 ptr
    \<Rightarrow> bool \<times> num8lora_receiver_ctx ptr \<times> u8 list ptr \<times> u32 ptr" where
  "num8lora_receiver_encode_ack ctx sender_id ack_update_id out_ack_buf out_cap out_len =
    (let out_len = store 0 out_len;
         stop = (False, ctx, out_ack_buf, out_len) in
     case (ctx, out_ack_buf, out_len) of
       (Some c, Some _, Some _) \<Rightarrow>
         let p = \<lparr>a_ack_update_id = ack_update_id, a_receiver_dataset_ver = lr_local_dataset_version c\<rparr> in
         if out_cap < 18 then stop
         else (case num8lora_encode_ack out_ack_buf out_cap (lr_receiver_id c) sender_id (lr_seq c) (Some p)
                 out_len of
           (ok, out_buf, out_len) \<Rightarrow>
             if \<not> ok then (False, ctx, out_buf, out_len)
             else (True, Some (c\<lparr>lr_seq := lr_seq c + 1\<rparr>), out_buf, out_len))
     | _ \<Rightarrow> stop)"

definition num8lora_receiver_encode_nack ::
  "num8lora_receiver_ctx ptr \<Rightarrow> u16 \<Rightarrow> u32 \<Rightarrow> u16 \<Rightarrow> u16 \<Rightarrow> u8 list ptr \<Rightarrow> u32 \<Rightarrow> u32 ptr
    \<Rightarrow> bool \<times> num8lora_receiver_ctx ptr \<times> u8 list ptr \<times> u32 ptr" where
  "num8lora_receiver_encode_nack ctx sender_id nack_update_id error_code detail out_nack_buf out_cap
     out_len =
    (let out_len = store 0 out_len;
         stop = (False, ctx, out_nack_buf, out_len) in
     case (ctx, out_nack_buf, out_len) of
       (Some c, Some _, Some _) \<Rightarrow>
         let p = \<lparr>n_nack_update_id = nack_update_id, n_error_code = error_code, n_detail = detail\<rparr> in
         if out_cap < 18 then stop
         else (case num8lora_encode_nack out_nack_buf out_cap (lr_receiver_id c) sender_id (lr_seq c) (Some p)
                 out_len of
           (ok, out_buf, out_len) \<Rightarrow>
             if \<not> ok then (False, ctx, out_buf, out_len)
             else (True, Some (c\<lparr>lr_seq := lr_seq c + 1\<rparr>), out_buf, out_len))
     | _ \<Rightarrow> stop)"

end
