(* ===== verification/LegacyBridge.thy ===== *)
theory LegacyBridge
  imports LegacyRuntime Engine
begin

text \<open>
  \<open>src/src/num8lora_num8_bridge.c\<close>: a legacy update applied to a num8 engine, and the receiver's
  complete answer to an UPDATE_DATA frame. The engine's operations are parameters.
\<close>

text \<open>One of the two loops over numbers: it stops at the first status that is not among the good ones.\<close>

fun apply_numbers :: "'e engine_op \<Rightarrow> num8_status list \<Rightarrow> u32 list \<Rightarrow> 'e \<Rightarrow> bool \<times> 'e" where
  "apply_numbers f good [] e = (True, e)"
| "apply_numbers f good (v # vs) e =
    (case f e v of (st, e) \<Rightarrow> if st \<notin> set good then (False, e) else apply_numbers f good vs e)"

definition num8lora_apply_update_to_num8 ::
  "'e engine_op \<Rightarrow> 'e engine_op \<Rightarrow> ('e \<Rightarrow> num8_status \<times> 'e)
    \<Rightarrow> 'e ptr \<Rightarrow> u32 \<Rightarrow> u32 \<Rightarrow> num8lora_update_header ptr \<Rightarrow> u32 list ptr \<Rightarrow> u32 list ptr
    \<Rightarrow> u32 ptr \<Rightarrow> u32 ptr \<Rightarrow> u16 ptr
    \<Rightarrow> bool \<times> 'e ptr \<times> u32 ptr \<times> u32 ptr \<times> u16 ptr" where
  "num8lora_apply_update_to_num8 num8_add_u32 num8_remove_u32 num8_flush engine local_dataset_version
     last_applied_update_id hdr remove_numbers add_numbers out_new_dataset_version
     out_new_last_applied_update_id out_error_code =
    (let out_version = store 0 out_new_dataset_version;
         out_last = store 0 out_new_last_applied_update_id;
         out_error_code = store NUM8LORA_ERR_NONE out_error_code;
         fail = (\<lambda>engine code. (False, engine, out_version, out_last, store code out_error_code)) in
     case (out_version, out_last, engine, hdr) of
       (Some _, Some _, Some e, Some h) \<Rightarrow>
         if u_dataset_version_from h \<noteq> local_dataset_version
         then fail engine NUM8LORA_ERR_DATASET_VERSION_MISMATCH
         else if u_dataset_version_to h \<le> u_dataset_version_from h
         then fail engine NUM8LORA_ERR_DATASET_VERSION_MISMATCH
         else if u_update_id h = last_applied_update_id
         then (True, engine, Some local_dataset_version, Some last_applied_update_id, out_error_code)
         else (case num8lora_validate_update_numbers hdr remove_numbers add_numbers (Some NUM8LORA_ERR_NONE) of
           (ok, err) \<Rightarrow>
             if \<not> ok then fail engine (the err)
             else (case apply_numbers num8_remove_u32 [NUM8_STATUS_REMOVED, NUM8_STATUS_NOT_FOUND]
                     (take (unat (u_remove_count h)) (deref remove_numbers)) e of
               (ok, e) \<Rightarrow>
                 if \<not> ok then fail (Some e) NUM8LORA_ERR_APPLY_FAILED
                 else (case apply_numbers num8_add_u32 [NUM8_STATUS_ADDED, NUM8_STATUS_ALREADY_EXISTS]
                         (take (unat (u_add_count h)) (deref add_numbers)) e of
                   (ok, e) \<Rightarrow>
                     if \<not> ok then fail (Some e) NUM8LORA_ERR_APPLY_FAILED
                     else (case num8_flush e of
                       (st, e) \<Rightarrow>
                         if st \<noteq> NUM8_STATUS_OK then fail (Some e) NUM8LORA_ERR_APPLY_FAILED
                         else (True, Some e, Some (u_dataset_version_to h), Some (u_update_id h),
                           out_error_code)))))
     | _ \<Rightarrow> fail engine NUM8LORA_ERR_INTERNAL)"

definition num8lora_receiver_apply_update_data_to_num8 ::
  "'e engine_op \<Rightarrow> 'e engine_op \<Rightarrow> ('e \<Rightarrow> num8_status \<times> 'e)
    \<Rightarrow> num8lora_receiver_ctx ptr \<Rightarrow> 'e ptr \<Rightarrow> u8 list ptr \<Rightarrow> u32 \<Rightarrow> u8 list ptr \<Rightarrow> u32 \<Rightarrow> u32 ptr \<Rightarrow> u16 ptr
    \<Rightarrow> bool \<times> num8lora_receiver_ctx ptr \<times> 'e ptr \<times> u8 list ptr \<times> u32 ptr \<times> u16 ptr" where
  "num8lora_receiver_apply_update_data_to_num8 num8_add_u32 num8_remove_u32 num8_flush ctx engine
     update_buf update_len out_response_buf out_cap out_response_len out_error_code =
    (let out_error_code = store NUM8LORA_ERR_NONE out_error_code;
         out_len = store 0 out_response_len;
         stop = (\<lambda>engine code. (False, ctx, engine, out_response_buf, out_len, store code out_error_code)) in
     case (ctx, engine, update_buf, out_response_buf, out_len) of
       (Some c, Some _, Some _, Some _, Some _) \<Rightarrow>
         (case num8lora_decode_common_header update_buf update_len (Some zero_common_header) of
           (ok, hdr) \<Rightarrow>
             if \<not> ok then stop engine NUM8LORA_ERR_INTERNAL
             else
               let h = the hdr;
                   nack = (\<lambda>engine update_id err.
                     case num8lora_receiver_encode_nack ctx (c_sender_id h) update_id err 0
                            out_response_buf out_cap out_len of
                       (ok, ctx, out_buf, out_len) \<Rightarrow>
                         if \<not> ok then (False, ctx, engine, out_buf, out_len,
                           store NUM8LORA_ERR_INTERNAL out_error_code)
                         else (True, ctx, engine, out_buf, out_len, store err out_error_code)) in
               (case num8lora_receiver_validate_update_data ctx update_buf update_len
                       (Some zero_update_header) (Some (replicate 255 0)) 255 (Some (replicate 255 0)) 255
                       None None (Some NUM8LORA_ERR_NONE) of
                 (ok, up, remove_numbers, add_numbers, _, _, err) \<Rightarrow>
                   if \<not> ok then
                     (if out_cap < 18 then stop engine NUM8LORA_ERR_INTERNAL
                      else nack engine (lr_pending_update_id c) (the err))
                   else
                     let u = the up in
                     if u_update_id u = lr_last_applied_update_id c then
                       (if out_cap < 18 then stop engine NUM8LORA_ERR_INTERNAL
                        else (case num8lora_receiver_encode_ack ctx (c_sender_id h) (u_update_id u)
                                out_response_buf out_cap out_len of
                          (ok, ctx, out_buf, out_len) \<Rightarrow>
                            if \<not> ok then (False, ctx, engine, out_buf, out_len,
                              store NUM8LORA_ERR_INTERNAL out_error_code)
                            else (True, ctx, engine, out_buf, out_len, out_error_code)))
                     else if out_cap < 18 then stop engine NUM8LORA_ERR_INTERNAL
                     else (case num8lora_apply_update_to_num8 num8_add_u32 num8_remove_u32 num8_flush
                             engine (lr_local_dataset_version c) (lr_last_applied_update_id c) up
                             remove_numbers add_numbers (Some 0) (Some 0) err of
                       (ok, engine, new_version, new_last, err) \<Rightarrow>
                         if \<not> ok then nack engine (u_update_id u) (the err)
                         else (case num8lora_encode_ack out_response_buf out_cap (lr_receiver_id c)
                                 (c_sender_id h) (lr_seq c)
                                 (Some \<lparr>a_ack_update_id = u_update_id u,
                                   a_receiver_dataset_ver = the new_version\<rparr>) out_len of
                           (ok, out_buf, out_len) \<Rightarrow>
                             if \<not> ok then (False, ctx, engine, out_buf, out_len,
                               store NUM8LORA_ERR_INTERNAL out_error_code)
                             else (True, Some (c\<lparr>lr_seq := lr_seq c + 1,
                                 lr_local_dataset_version := the new_version,
                                 lr_last_applied_update_id := the new_last,
                                 lr_last_applied_sender_id := c_sender_id h,
                                 lr_last_applied_receiver_id := lr_receiver_id c,
                                 lr_last_applied_dataset_version_from := u_dataset_version_from u,
                                 lr_last_applied_dataset_version_to := u_dataset_version_to u,
                                 lr_last_applied_remove_count := u_remove_count u,
                                 lr_last_applied_add_count := u_add_count u,
                                 lr_last_applied_payload_size := lr_pending_payload_size c,
                                 lr_last_applied_payload_crc16 := lr_pending_payload_crc16 c,
                                 lr_state := NUM8LORA_RECEIVER_SCAN\<rparr>),
                               engine, out_buf, out_len, store NUM8LORA_ERR_NONE out_error_code)))))
     | _ \<Rightarrow> stop engine NUM8LORA_ERR_INTERNAL)"

end
