(* ===== verification/LegacyReceive.thy ===== *)
theory LegacyReceive
  imports LegacyBridge
begin

text \<open>
  What the legacy receiver accepts and what it does then. A frame is acceptable when it is a
  well-formed UPDATE_DATA frame from the expected sender to this receiver, with a well-formed batch,
  and carries either the update the receiver has been waiting for since its beacon or the update it
  applied last once more. The two cases are spelled out here, apart from the comparisons of the code;
  \<open>check_update_none\<close> shows that the comparisons decide them.
\<close>

text \<open>The update applied last, again: everything the receiver remembers of it agrees.\<close>

definition repeats_last ::
  "num8lora_receiver_ctx \<Rightarrow> u16 \<Rightarrow> u16 \<Rightarrow> num8lora_update_header \<Rightarrow> u32 list \<Rightarrow> u32 list \<Rightarrow> bool" where
  "repeats_last c sid rid u rs as \<longleftrightarrow> u_update_id u = lr_last_applied_update_id c
    \<and> sid = lr_last_applied_sender_id c \<and> rid = lr_last_applied_receiver_id c
    \<and> u_dataset_version_from u = lr_last_applied_dataset_version_from c
    \<and> u_dataset_version_to u = lr_last_applied_dataset_version_to c
    \<and> length rs = unat (lr_last_applied_remove_count c) \<and> length as = unat (lr_last_applied_add_count c)
    \<and> crc_of (update_bytes u rs as) = lr_last_applied_payload_crc16 c"

text \<open>
  The update announced by the beacon the receiver answered: it waits for this update, which is not the
  one applied last and leads from its own version to the announced one; the two lists have the announced
  lengths, the payload the announced size and, when one was announced, the announced checksum.
\<close>

definition is_announced ::
  "num8lora_receiver_ctx \<Rightarrow> num8lora_update_header \<Rightarrow> u32 list \<Rightarrow> u32 list \<Rightarrow> bool" where
  "is_announced c u rs as \<longleftrightarrow> lr_state c = NUM8LORA_RECEIVER_WAIT_UPDATE
    \<and> u_update_id u = lr_pending_update_id c \<and> u_update_id u \<noteq> lr_last_applied_update_id c
    \<and> u_dataset_version_from u = lr_local_dataset_version c
    \<and> u_dataset_version_from u = lr_pending_dataset_version_from c
    \<and> u_dataset_version_to u = lr_pending_dataset_version_to c
    \<and> length rs = unat (lr_pending_remove_count c) \<and> length as = unat (lr_pending_add_count c)
    \<and> unat (lr_pending_payload_size c) = 16 + 4 * (length rs + length as)
    \<and> (lr_pending_payload_crc16 c = 0 \<or> crc_of (update_bytes u rs as) = lr_pending_payload_crc16 c)"

fun acceptable ::
  "num8lora_receiver_ctx \<Rightarrow> u16 \<times> u16 \<times> u16 \<Rightarrow> num8lora_update_header \<Rightarrow> u32 list \<Rightarrow> u32 list \<Rightarrow> bool" where
  "acceptable c (sid, rid, sq) u rs as \<longleftrightarrow> sid \<noteq> 0 \<and> rid \<noteq> 0
    \<and> (rid = lr_receiver_id c \<or> lr_receiver_id c = NUM8LORA_ANY_RECEIVER_ID)
    \<and> (lr_expected_sender_id c = 0 \<or> sid = lr_expected_sender_id c)
    \<and> update_header_ok u \<and> update_fits u rs as \<and> batch_ok rs as
    \<and> (repeats_last c sid rid u rs as \<or> is_announced c u rs as)"

text \<open>The size the code computes for the payload, at 16 bits.\<close>

lemma payload_size_16:
  assumes "update_fits u rs as"
  shows "(ucast (update_payload_size (u_remove_count u) (u_add_count u)) :: u16) = w
    \<longleftrightarrow> unat w = 16 + 4 * (length rs + length as)"
proof -
  have b: "unat (u_remove_count u) < 256" "unat (u_add_count u) < 256" by (rule unat_less_u8)+
  have n: "unat (update_payload_size (u_remove_count u) (u_add_count u)) = 16 + 4 * (length rs + length as)"
    using announced_size_exact [of "u_remove_count u" "u_add_count u"] assms
    by (simp add: update_payload_size_def announced_size_def update_fits_def)
  have "unat (ucast (update_payload_size (u_remove_count u) (u_add_count u)) :: u16) = 16 + 4 * (length rs + length as)"
    using n b assms by (simp add: unsigned_ucast_eq unsigned_take_bit_eq take_bit_nat_eq_self update_fits_def
      del: unat_less_u8)
  then show ?thesis by (auto simp: word_unat_eq_iff)
qed

text \<open>The chain of comparisons of the code decides the two cases.\<close>

lemma check_update_none:
  assumes "update_header_ok u" "update_fits u rs as"
  shows "check_update c (legacy_header k sid rid sq) u (crc_of (update_bytes u rs as)) = NUM8LORA_ERR_NONE
    \<longleftrightarrow> repeats_last c sid rid u rs as \<or> is_announced c u rs as"
proof -
  have "u_reserved0 u = 0" "\<not> u_dataset_version_to u \<le> u_dataset_version_from u"
    using assms(1) by (auto simp: update_header_ok_def)
  moreover have "length rs = unat w \<longleftrightarrow> u_remove_count u = w" "length as = unat w \<longleftrightarrow> u_add_count u = w" for w
    using assms(2) by (auto simp: update_fits_def word_unat_eq_iff)
  ultimately show ?thesis
    unfolding check_update_def payload_size_16 [OF assms(2)]
    by (auto simp: repeats_last_def is_announced_def)
qed

definition cleared :: "u32 list \<Rightarrow> u32 \<Rightarrow> u32 list" where
  "cleared xs cap = replicate (unat cap) 0 @ drop (unat cap) xs"

lemma length_cleared [simp]: "unat cap \<le> length xs \<Longrightarrow> length (cleared xs cap) = length xs"
  by (simp add: cleared_def)

lemma take_prefix_overlay: "n = length vs \<Longrightarrow> take n (overlay xs 0 vs) = vs"
  by (simp add: overlay_def)

text \<open>The two arrays hold more than the numbers; the checks look at the counted prefix only.\<close>

lemma validate_numbers_prefix:
  assumes "length rs = unat (u_remove_count h)" "length as = unat (u_add_count h)"
  shows "num8lora_validate_update_numbers (Some h) (Some (overlay xs 0 rs)) (Some (overlay ys 0 as)) e =
    (batch_ok rs as, store (batch_error rs as) e)"
proof -
  have "num8lora_validate_update_numbers (Some h) (Some (overlay xs 0 rs)) (Some (overlay ys 0 as)) e =
      num8lora_validate_update_numbers (Some h) (Some rs) (Some as) e"
    using assms by (simp add: num8lora_validate_update_numbers_def Let_def deref_def take_prefix_overlay)
  then show ?thesis
    using validate_numbers_exact [of "Some rs" rs "Some as" as h e] assms by simp
qed

lemma compute_crc_prefix:
  assumes "length rs = unat (u_remove_count h)" "length as = unat (u_add_count h)"
  shows "num8lora_compute_update_payload_crc16 (Some h) (Some (overlay xs 0 rs)) (Some (overlay ys 0 as))
    (Some c) = (True, Some (crc_of (update_bytes h rs as)))"
proof -
  have "num8lora_compute_update_payload_crc16 (Some h) (Some (overlay xs 0 rs)) (Some (overlay ys 0 as)) (Some c) =
      num8lora_compute_update_payload_crc16 (Some h) (Some rs) (Some as) (Some c)"
    using assms by (simp add: num8lora_compute_update_payload_crc16_def Let_def deref_def take_prefix_overlay)
  then show ?thesis
    using compute_crc_exact [of "Some rs" rs "Some as" as h c] assms by simp
qed

text \<open>The second length test repeats the first at 64 bits and never fails.\<close>

lemma update_size_u64:
  assumes "unat n = update_size u"
  shows "(26 :: u64) + 4 * ucast (ucast (u_remove_count u) :: u32) + 4 * ucast (ucast (u_add_count u) :: u32)
    = ucast (n :: u32)"
proof -
  have b: "unat (u_remove_count u) < 256" "unat (u_add_count u) < 256" by (rule unat_less_u8)+
  have q: "unat (4 * ucast (ucast (v :: u8) :: u32) :: u64) = 4 * unat v" for v
    using unat_less_u8 [of v] by (simp add: unat_word_ariths del: unat_less_u8)
  have "unat ((26 :: u64) + 4 * ucast (ucast (u_remove_count u) :: u32)) = 26 + 4 * unat (u_remove_count u)"
    using b by (simp add: unat_word_ariths(1) q del: unat_less_u8)
  then have "unat ((26 :: u64) + 4 * ucast (ucast (u_remove_count u) :: u32) + 4 * ucast (ucast (u_add_count u) :: u32))
      = update_size u"
    using b unat_word_ariths(1) [of "(26 :: u64) + 4 * ucast (ucast (u_remove_count u) :: u32)"
      "4 * ucast (ucast (u_add_count u) :: u32)"]
    by (simp add: q update_size_def del: unat_less_u8)
  then show ?thesis
    using assms by (simp add: word_unat_eq_iff)
qed

lemma update_wire_unique:
  assumes "take n b = update_wire a u rs as" "n \<le> length b" "update_fits u rs as" "update_header_ok u"
    and "take n b = update_wire a' u' rs' as'" "update_fits u' rs' as'" "update_header_ok u'"
  shows "a' = a \<and> u' = u \<and> rs' = rs \<and> as' = as"
proof -
  have "update_bytes u' rs' as' = update_bytes u rs as \<and> a' = a"
    using assms(1,5) by (cases a; cases a') (simp add: update_wire_def)
  moreover have "u' = u"
    using update_frame_reads(2) [OF assms(1-4)] update_frame_reads(2) [OF assms(5,2,6,7)] by simp
  ultimately show ?thesis
    using update_frame_reads(3,4) [OF assms(1-4)] update_frame_reads(3,4) [OF assms(5,2,6,7)] by simp
qed

lemma decode_update_writes:
  "\<exists>ok h u rp ap. num8lora_decode_update_data_header (Some b) n (Some h0) (Some u0) (Some r0) (Some a0)
    = (ok, Some h, Some u, rp, ap)"
  using decode_header_writes [of b n NUM8LORA_MSG_UPDATE_DATA h0]
  by (auto simp: num8lora_decode_update_data_header_def Let_def)

text \<open>The part of the validation after the frame has been decoded.\<close>

definition validate_decoded ::
  "num8lora_receiver_ctx \<Rightarrow> u16 \<times> u16 \<times> u16 \<Rightarrow> num8lora_update_header \<Rightarrow> u32 list \<Rightarrow> u32 list \<Rightarrow> u16" where
  "validate_decoded c a u rs as =
    (if batch_error rs as \<noteq> NUM8LORA_ERR_NONE then batch_error rs as
     else check_update c (legacy_unicast_header NUM8LORA_MSG_UPDATE_DATA a) u (crc_of (update_bytes u rs as)))"

lemma validate_after_decoding:
  assumes wire: "take (unat n) b = update_wire (sid, rid, sq) u rs as" "unat n \<le> length b"
    and u: "update_fits u rs as" "update_header_ok u" "sid \<noteq> 0" "rid \<noteq> 0"
    and addr: "rid = lr_receiver_id c \<or> lr_receiver_id c = NUM8LORA_ANY_RECEIVER_ID"
      "lr_expected_sender_id c = 0 \<or> sid = lr_expected_sender_id c"
    and cap: "255 \<le> unat xcap" "unat xcap \<le> length xs" "255 \<le> unat ycap" "unat ycap \<le> length ys"
  shows "num8lora_receiver_validate_update_data (Some c) (Some b) n (Some u0) (Some xs) xcap (Some ys) ycap
      q1 q2 e =
    (let code = validate_decoded c (sid, rid, sq) u rs as;
         done = code = NUM8LORA_ERR_NONE
     in (done, Some (if done then u else zero_update_header), Some (overlay (cleared xs xcap) 0 rs),
       Some (overlay (cleared ys ycap) 0 as), store (ucast (u_remove_count u)) q1,
       store (ucast (u_add_count u)) q2, store code e))"
proof -
  note reads = update_frame_reads [OF wire u(1,2)]
  let ?h = "legacy_header NUM8LORA_MSG_UPDATE_DATA sid rid sq"
  have f: "take (unat n) b = frame NUM8LORA_MSG_UPDATE_DATA sid rid sq (update_bytes u rs as)"
    using wire(1) by (simp add: update_wire_def)
  have exp: "expected_frame (lr_receiver_id c) NUM8LORA_MSG_UPDATE_DATA NUM8LORA_MSG_UPDATE_DATA rid"
    using addr(1) by (auto simp: expected_frame_def)
  have c: "num8lora_classify_frame (Some b) n (lr_receiver_id c) NUM8LORA_MSG_UPDATE_DATA
      (Some zero_common_header) (Some NUM8LORA_ERR_NONE) = (True, Some ?h, Some NUM8LORA_ERR_NONE)"
    using f exp unfolding classify_iff [OF wire(2)] by auto
  have d: "num8lora_decode_update_data_header (Some b) n (Some ?h) (Some zero_update_header) (Some None) (Some None)
      = (True, Some ?h, Some u, Some (Some 24), Some (Some (24 + 4 * unat (u_remove_count u))))"
    using wire(1) u unfolding decode_update_iff [OF wire(2)] by blast
  have small: "unat (u_remove_count u) \<le> unat xcap" "unat (u_add_count u) \<le> unat ycap"
    using unat_less_u8 [of "u_remove_count u"] unat_less_u8 [of "u_add_count u"] cap by linarith+
  have fits: "length rs = unat (u_remove_count u)" "length as = unat (u_add_count u)"
    using u(1) by (simp_all add: update_fits_def)
  have nums: "num8lora_decode_update_numbers (Some u) (Some (drop 24 b)) (ucast (u_remove_count u))
      (Some (drop (24 + 4 * unat (u_remove_count u)) b)) (ucast (u_add_count u)) (Some xs) xcap (Some ys) ycap
      (Some 0) (Some 0) =
    (True, Some (overlay (cleared xs xcap) 0 rs), Some (overlay (cleared ys ycap) 0 as),
     Some (ucast (u_remove_count u)), Some (ucast (u_add_count u)))"
    using decode_numbers_exact [OF small cap(2,4)] by (simp add: reads cleared_def)
  have sender: "(lr_expected_sender_id c \<noteq> 0 \<and> c_sender_id ?h \<noteq> lr_expected_sender_id c) = False"
    using addr(2) by auto
  show ?thesis
    unfolding num8lora_receiver_validate_update_data_def Let_def store_simps store_store option.case prod.case
      c option.sel sender d option.map nums update_size_u64 [OF reads(1)]
      validate_numbers_prefix [OF fits] compute_crc_prefix [OF fits] validate_decoded_def
    by (simp add: batch_error_none)
qed

lemma validate_decoded_none:
  assumes "update_fits u rs as" "update_header_ok u" "sid \<noteq> 0" "rid \<noteq> 0"
    and "rid = lr_receiver_id c \<or> lr_receiver_id c = NUM8LORA_ANY_RECEIVER_ID"
    and "lr_expected_sender_id c = 0 \<or> sid = lr_expected_sender_id c"
  shows "validate_decoded c (sid, rid, sq) u rs as = NUM8LORA_ERR_NONE \<longleftrightarrow> acceptable c (sid, rid, sq) u rs as"
  using assms check_update_none [OF assms(2,1), of c NUM8LORA_MSG_UPDATE_DATA sid rid sq]
  by (auto simp: validate_decoded_def batch_error_none)

text \<open>A frame that is no well-formed update for this receiver is refused before it is decoded any further.\<close>

lemma validate_undecodable:
  assumes len: "unat n \<le> length b"
    and none: "\<not> (\<exists>sid rid sq u rs as. take (unat n) b = update_wire (sid, rid, sq) u rs as \<and> update_fits u rs as
    \<and> update_header_ok u \<and> sid \<noteq> 0 \<and> rid \<noteq> 0 \<and> (rid = lr_receiver_id c \<or> lr_receiver_id c = NUM8LORA_ANY_RECEIVER_ID)
    \<and> (lr_expected_sender_id c = 0 \<or> sid = lr_expected_sender_id c))"
  obtains code where "code \<noteq> NUM8LORA_ERR_NONE"
    "num8lora_receiver_validate_update_data (Some c) (Some b) n (Some u0) (Some xs) xcap (Some ys) ycap q1 q2 e
      = (False, Some zero_update_header, Some xs, Some ys, store 0 q1, store 0 q2, store code e)"
proof (cases rule: classify_cases [OF len, of "lr_receiver_id c" NUM8LORA_MSG_UPDATE_DATA zero_common_header
    "Some NUM8LORA_ERR_NONE"])
  case (1 kind sid rid sq pay)
  obtain ok h u rp ap where d: "num8lora_decode_update_data_header (Some b) n
      (Some (legacy_header kind sid rid sq)) (Some zero_update_header) (Some None) (Some None)
      = (ok, Some h, Some u, rp, ap)"
    using decode_update_writes by blast
  have kind: "kind = NUM8LORA_MSG_UPDATE_DATA"
    and rid: "rid = lr_receiver_id c \<or> lr_receiver_id c = NUM8LORA_ANY_RECEIVER_ID"
    using 1(2) by (auto simp: expected_frame_def split: if_splits)
  have "\<not> ok" if "lr_expected_sender_id c = 0 \<or> sid = lr_expected_sender_id c"
  proof
    assume ok: ok
    have "num8lora_decode_update_data_header (Some b) n (Some (legacy_header kind sid rid sq))
        (Some zero_update_header) (Some None) (Some None) = (True, Some h, Some u, rp, ap)"
      using d ok by simp
    then obtain sid' rid' sq' rs as where r: "sid' \<noteq> 0" "rid' \<noteq> 0" "update_header_ok u" "update_fits u rs as"
      and f: "take (unat n) b = update_wire (sid', rid', sq') u rs as"
      unfolding decode_update_iff [OF len] by blast
    have same: "sid' = sid" "rid' = rid"
      using f 1(3) by (simp_all add: update_wire_def kind)
    show False
      using none rid that r f unfolding same by blast
  qed
  then have "num8lora_receiver_validate_update_data (Some c) (Some b) n (Some u0) (Some xs) xcap (Some ys) ycap q1 q2 e
      = (False, Some zero_update_header, Some xs, Some ys, store 0 q1, store 0 q2,
         store (if lr_expected_sender_id c = 0 \<or> sid = lr_expected_sender_id c then NUM8LORA_ERR_INTERNAL
           else NUM8LORA_ERR_INVALID_RECEIVER_ID) e)"
    using 1(1) d by (auto simp: num8lora_receiver_validate_update_data_def Let_def)
  then show ?thesis by (intro that) auto
next
  case (2 code)
  then have "num8lora_receiver_validate_update_data (Some c) (Some b) n (Some u0) (Some xs) xcap (Some ys) ycap q1 q2 e
      = (False, Some zero_update_header, Some xs, Some ys, store 0 q1, store 0 q2, store code e)"
    by (simp add: num8lora_receiver_validate_update_data_def Let_def)
  with 2(2) show ?thesis by (rule that)
qed

text \<open>
  The receiver accepts a frame exactly when it is acceptable; otherwise the header it reports is
  cleared and there is an error code.
\<close>

lemma validate_update_cases:
  assumes len: "unat n \<le> length b"
    and cap: "255 \<le> unat xcap" "unat xcap \<le> length xs" "255 \<le> unat ycap" "unat ycap \<le> length ys"
  obtains (accept) a u rs as where "acceptable c a u rs as" "take (unat n) b = update_wire a u rs as"
      "num8lora_receiver_validate_update_data (Some c) (Some b) n (Some u0) (Some xs) xcap (Some ys) ycap q1 q2 e
        = (True, Some u, Some (overlay (cleared xs xcap) 0 rs), Some (overlay (cleared ys ycap) 0 as),
           store (ucast (u_remove_count u)) q1, store (ucast (u_add_count u)) q2, store NUM8LORA_ERR_NONE e)"
    | (refuse) xs' ys' q1' q2' code where
      "num8lora_receiver_validate_update_data (Some c) (Some b) n (Some u0) (Some xs) xcap (Some ys) ycap q1 q2 e
        = (False, Some zero_update_header, Some xs', Some ys', q1', q2', store code e)"
      "code \<noteq> NUM8LORA_ERR_NONE" "\<And>a u rs as. take (unat n) b = update_wire a u rs as \<Longrightarrow> \<not> acceptable c a u rs as"
proof (cases "\<exists>sid rid sq u rs as. take (unat n) b = update_wire (sid, rid, sq) u rs as \<and> update_fits u rs as
    \<and> update_header_ok u \<and> sid \<noteq> 0 \<and> rid \<noteq> 0 \<and> (rid = lr_receiver_id c \<or> lr_receiver_id c = NUM8LORA_ANY_RECEIVER_ID)
    \<and> (lr_expected_sender_id c = 0 \<or> sid = lr_expected_sender_id c)")
  case True
  then obtain sid rid sq u rs as where w: "take (unat n) b = update_wire (sid, rid, sq) u rs as"
    and u: "update_fits u rs as" "update_header_ok u" "sid \<noteq> 0" "rid \<noteq> 0"
    and addr: "rid = lr_receiver_id c \<or> lr_receiver_id c = NUM8LORA_ANY_RECEIVER_ID"
      "lr_expected_sender_id c = 0 \<or> sid = lr_expected_sender_id c" by blast
  note v = validate_after_decoding [OF w len u addr cap, of u0 q1 q2 e]
  note none = validate_decoded_none [OF u addr, of sq]
  show ?thesis
  proof (cases "acceptable c (sid, rid, sq) u rs as")
    case True
    then show ?thesis
      using accept [OF _ w] v none by (simp add: Let_def)
  next
    case False
    then have code: "validate_decoded c (sid, rid, sq) u rs as \<noteq> NUM8LORA_ERR_NONE" using none by blast
    moreover have "\<not> acceptable c a' u' rs' as'" if "take (unat n) b = update_wire a' u' rs' as'" for a' u' rs' as'
    proof
      assume acc: "acceptable c a' u' rs' as'"
      then have "update_fits u' rs' as'" "update_header_ok u'" by (cases a'; simp)+
      then show False
        using update_wire_unique [OF w len u(1,2) that] acc False by simp
    qed
    ultimately show ?thesis
      using refuse v by (simp add: Let_def)
  qed
next
  case False
  have none: "\<not> acceptable c a u rs as" if "take (unat n) b = update_wire a u rs as" for a u rs as
  proof
    assume acc: "acceptable c a u rs as"
    obtain sid rid sq where a: "a = (sid, rid, sq)" by (metis prod_cases3)
    show False
      using False that acc unfolding a acceptable.simps by blast
  qed
  obtain code where "code \<noteq> NUM8LORA_ERR_NONE"
    "num8lora_receiver_validate_update_data (Some c) (Some b) n (Some u0) (Some xs) xcap (Some ys) ycap q1 q2 e
      = (False, Some zero_update_header, Some xs, Some ys, store 0 q1, store 0 q2, store code e)"
    by (rule validate_undecodable [OF len False, of u0 xs xcap ys ycap q1 q2 e])
  then show ?thesis using refuse none by blast
qed

end
