(* ===== verification/LegacyApply.thy ===== *)
theory LegacyApply
  imports LegacyReceive
begin

text \<open>
  What the engine bridge does to the receiver and to the engine: the loops over the numbers, one
  update, and the three answers to an UPDATE_DATA frame (applied, repeated, refused).
\<close>

subsection \<open>The loops\<close>

lemma apply_removes:
  assumes "removes numbers remove" "apply_numbers remove [NUM8_STATUS_REMOVED, NUM8_STATUS_NOT_FOUND] vs e = (True, e')"
  shows "numbers e' = numbers e - set vs"
  using assms(2)
proof (induction vs arbitrary: e)
  case (Cons v vs)
  obtain st e1 where r: "remove e v = (st, e1)" by fastforce
  with Cons.prems have st: "st = NUM8_STATUS_REMOVED \<or> st = NUM8_STATUS_NOT_FOUND"
    and rest: "apply_numbers remove [NUM8_STATUS_REMOVED, NUM8_STATUS_NOT_FOUND] vs e1 = (True, e')"
    by (auto split: if_splits)
  have "numbers e1 = numbers e - {v}"
    using assms(1) r st unfolding removes_def by blast
  then show ?case using Cons.IH [OF rest] by auto
qed simp

lemma apply_adds:
  assumes "adds numbers add" "apply_numbers add [NUM8_STATUS_ADDED, NUM8_STATUS_ALREADY_EXISTS] vs e = (True, e')"
  shows "numbers e' = numbers e \<union> set vs"
  using assms(2)
proof (induction vs arbitrary: e)
  case (Cons v vs)
  obtain st e1 where r: "add e v = (st, e1)" by fastforce
  with Cons.prems have st: "st = NUM8_STATUS_ADDED \<or> st = NUM8_STATUS_ALREADY_EXISTS"
    and rest: "apply_numbers add [NUM8_STATUS_ADDED, NUM8_STATUS_ALREADY_EXISTS] vs e1 = (True, e')"
    by (auto split: if_splits)
  have "numbers e1 = insert v (numbers e)"
    using assms(1) r st unfolding adds_def by blast
  then show ?case using Cons.IH [OF rest] by auto
qed simp

subsection \<open>One update\<close>

text \<open>The result of a call on an update that is due: the engine and whether every operation worked.\<close>

definition run_update ::
  "'e engine_op \<Rightarrow> 'e engine_op \<Rightarrow> ('e \<Rightarrow> num8_status \<times> 'e) \<Rightarrow> 'e \<Rightarrow> u32 list \<Rightarrow> u32 list \<Rightarrow> bool \<times> 'e" where
  "run_update add remove flush e rs as =
    (case apply_numbers remove [NUM8_STATUS_REMOVED, NUM8_STATUS_NOT_FOUND] rs e of
      (ok, e) \<Rightarrow> if \<not> ok then (False, e)
        else (case apply_numbers add [NUM8_STATUS_ADDED, NUM8_STATUS_ALREADY_EXISTS] as e of
          (ok, e) \<Rightarrow> if \<not> ok then (False, e)
            else (case flush e of (st, e) \<Rightarrow> (st = NUM8_STATUS_OK, e))))"

lemma run_update_effect:
  assumes "adds numbers add" "removes numbers remove" "flush_keeps numbers flush"
    and "run_update add remove flush e rs as = (True, e')"
  shows "numbers e' = (numbers e - set rs) \<union> set as"
proof -
  obtain e1 e2 where "apply_numbers remove [NUM8_STATUS_REMOVED, NUM8_STATUS_NOT_FOUND] rs e = (True, e1)"
    "apply_numbers add [NUM8_STATUS_ADDED, NUM8_STATUS_ALREADY_EXISTS] as e1 = (True, e2)"
    "flush e2 = (NUM8_STATUS_OK, e')"
    using assms(4) by (auto simp: run_update_def split: prod.splits if_splits)
  then show ?thesis
    using apply_removes [OF assms(2)] apply_adds [OF assms(1)] assms(3) by (auto simp: flush_keeps_def)
qed

lemma apply_update_exact:
  assumes "update_fits h rs as" "batch_ok rs as" "u_dataset_version_from h = ver"
    and "u_dataset_version_from h < u_dataset_version_to h" "u_update_id h \<noteq> done_id"
  shows "num8lora_apply_update_to_num8 add remove flush (Some e) ver done_id (Some h)
      (Some (overlay xs 0 rs)) (Some (overlay ys 0 as)) (Some v0) (Some l0) err =
    (case run_update add remove flush e rs as of
      (ok, e') \<Rightarrow>
        if ok then (True, Some e', Some (u_dataset_version_to h), Some (u_update_id h), store NUM8LORA_ERR_NONE err)
        else (False, Some e', Some 0, Some 0, store NUM8LORA_ERR_APPLY_FAILED err))"
proof -
  have fits: "length rs = unat (u_remove_count h)" "length as = unat (u_add_count h)"
    using assms(1) by (simp_all add: update_fits_def)
  have t: "take (unat (u_remove_count h)) (overlay xs 0 rs) = rs"
    "take (unat (u_add_count h)) (overlay ys 0 as) = as"
    using fits by (simp_all add: take_prefix_overlay)
  have ord: "\<not> u_dataset_version_to h \<le> ver"
    using assms(3,4) by (simp add: not_le)
  show ?thesis
    using assms(2,3,5) ord
    by (simp add: num8lora_apply_update_to_num8_def Let_def validate_numbers_prefix [OF fits] t deref_def
      run_update_def split: prod.splits)
qed

subsection \<open>The answers of the receiver\<close>

text \<open>The context after an update has been applied and acknowledged.\<close>

definition after_update ::
  "num8lora_receiver_ctx \<Rightarrow> u16 \<Rightarrow> num8lora_update_header \<Rightarrow> num8lora_receiver_ctx" where
  "after_update c sid u = c\<lparr>lr_seq := lr_seq c + 1, lr_local_dataset_version := u_dataset_version_to u,
    lr_last_applied_update_id := u_update_id u, lr_last_applied_sender_id := sid,
    lr_last_applied_receiver_id := lr_receiver_id c,
    lr_last_applied_dataset_version_from := u_dataset_version_from u,
    lr_last_applied_dataset_version_to := u_dataset_version_to u,
    lr_last_applied_remove_count := u_remove_count u, lr_last_applied_add_count := u_add_count u,
    lr_last_applied_payload_size := lr_pending_payload_size c,
    lr_last_applied_payload_crc16 := lr_pending_payload_crc16 c, lr_state := NUM8LORA_RECEIVER_SCAN\<rparr>"

lemma receiver_nack_cases:
  assumes "unat cap \<le> length ob"
  shows "num8lora_receiver_encode_nack (Some c) sid k code d (Some ob) cap (Some l) =
    (let a = (lr_receiver_id c, sid, lr_seq c);
         p = \<lparr>n_nack_update_id = k, n_error_code = code, n_detail = d\<rparr> in
     if legacy_nack_valid a p \<and> 18 \<le> unat cap
     then (True, Some (c\<lparr>lr_seq := lr_seq c + 1\<rparr>), Some (overlay ob 0 (legacy_nack_wire a p)), Some 18)
     else (False, Some c, Some ob, Some 0))"
proof -
  let ?a = "(lr_receiver_id c, sid, lr_seq c)"
  let ?p = "\<lparr>n_nack_update_id = k, n_error_code = code, n_detail = d\<rparr>"
  have len: "length (legacy_nack_wire ?a ?p) = 18" by (simp add: legacy_nack_wire_def)
  show ?thesis
    using legacy_nack.accepts [of ?a ?p cap ob 0] legacy_nack.rejects [of ?a ?p cap ob 0] assms
    by (auto simp: num8lora_receiver_encode_nack_def Let_def pack_unicast_def len word_less_nat_alt)
qed

lemma encode_ack_cases:
  assumes "unat cap \<le> length ob"
  shows "num8lora_encode_ack (Some ob) cap sid rid sq (Some p) (Some l) =
    (if legacy_ack_valid (sid, rid, sq) p \<and> 18 \<le> unat cap
     then (True, Some (overlay ob 0 (legacy_ack_wire (sid, rid, sq) p)), Some 18)
     else (False, Some ob, Some 0))"
proof -
  let ?a = "(sid, rid, sq)"
  have len: "length (legacy_ack_wire ?a p) = 18" by (simp add: legacy_ack_wire_def)
  show ?thesis
    using legacy_ack.accepts [of ?a p cap ob l] legacy_ack.rejects [of ?a p cap ob l] assms
    by (auto simp: pack_unicast_def len)
qed

lemma receiver_ack_cases:
  assumes "unat cap \<le> length ob"
  shows "num8lora_receiver_encode_ack (Some c) sid k (Some ob) cap (Some l) =
    (let a = (lr_receiver_id c, sid, lr_seq c);
         p = \<lparr>a_ack_update_id = k, a_receiver_dataset_ver = lr_local_dataset_version c\<rparr> in
     if legacy_ack_valid a p \<and> 18 \<le> unat cap
     then (True, Some (c\<lparr>lr_seq := lr_seq c + 1\<rparr>), Some (overlay ob 0 (legacy_ack_wire a p)), Some 18)
     else (False, Some c, Some ob, Some 0))"
  using assms by (auto simp: num8lora_receiver_encode_ack_def Let_def encode_ack_cases word_less_nat_alt)

lemma acceptable_reads:
  assumes "acceptable c a u rs as"
  shows "update_fits u rs as" "update_header_ok u" "batch_ok rs as"
    and "u_update_id u \<noteq> lr_last_applied_update_id c \<Longrightarrow> u_dataset_version_from u = lr_local_dataset_version c
      \<and> u_update_id u = lr_pending_update_id c \<and> lr_state c = NUM8LORA_RECEIVER_WAIT_UPDATE"
  using assms by (cases a; auto simp: repeats_last_def is_announced_def)+

lemma decode_common_update:
  assumes "take (unat n) b = update_wire (sid, rid, sq) u rs as" "unat n \<le> length b"
  shows "num8lora_decode_common_header (Some b) n (Some h0) =
    (True, Some (legacy_header NUM8LORA_MSG_UPDATE_DATA sid rid sq))"
proof -
  have f: "take (unat n) b = frame NUM8LORA_MSG_UPDATE_DATA sid rid sq (update_bytes u rs as)"
    using assms(1) by (simp add: update_wire_def)
  have long: "10 \<le> unat n"
    using frame_prefix(2) [OF f assms(2)] by simp
  show ?thesis
    using frame_iff_reads [OF assms(2) long, of NUM8LORA_MSG_UPDATE_DATA sid rid sq] f
    by (auto simp: decode_common_reads [OF assms(2) long] legacy_header_def)
qed

text \<open>
  The three answers to a frame, with a buffer large enough for them. \<open>x\<close> is the whole result of the
  call: the status, the context, the engine, the response buffer, its length and the error cell.
\<close>

definition legacy_applied ::
  "num8lora_receiver_ctx \<Rightarrow> u16 \<Rightarrow> num8lora_update_header \<Rightarrow> 'e \<Rightarrow> u8 list \<Rightarrow> u16 ptr
    \<Rightarrow> bool \<times> num8lora_receiver_ctx ptr \<times> 'e ptr \<times> u8 list ptr \<times> u32 ptr \<times> u16 ptr" where
  "legacy_applied c sid u e ob err =
    (True, Some (after_update c sid u), Some e,
     Some (overlay ob 0 (legacy_ack_wire (lr_receiver_id c, sid, lr_seq c)
       \<lparr>a_ack_update_id = u_update_id u, a_receiver_dataset_ver = u_dataset_version_to u\<rparr>)),
     Some 18, store NUM8LORA_ERR_NONE err)"

definition legacy_reply ::
  "bool \<Rightarrow> u8 list \<Rightarrow> num8lora_receiver_ctx \<Rightarrow> 'e \<Rightarrow> u8 list \<Rightarrow> u16 ptr \<Rightarrow> u16
    \<Rightarrow> bool \<times> num8lora_receiver_ctx ptr \<times> 'e ptr \<times> u8 list ptr \<times> u32 ptr \<times> u16 ptr" where
  "legacy_reply valid wire c e ob err code =
    (if valid then (True, Some (c\<lparr>lr_seq := lr_seq c + 1\<rparr>), Some e, Some (overlay ob 0 wire), Some 18,
       store code err)
     else (False, Some c, Some e, Some ob, Some 0, store NUM8LORA_ERR_INTERNAL err))"

lemma apply_update_data_accepts:
  assumes acc: "acceptable c (sid, rid, sq) u rs as"
    and wire: "take (unat n) b = update_wire (sid, rid, sq) u rs as" "unat n \<le> length b"
    and out: "18 \<le> unat cap" "unat cap \<le> length ob"
  shows "num8lora_receiver_apply_update_data_to_num8 add remove flush (Some c) (Some e) (Some b) n
      (Some ob) cap (Some l) (Some err) =
    (if u_update_id u = lr_last_applied_update_id c then
       (let a = (lr_receiver_id c, sid, lr_seq c);
            p = \<lparr>a_ack_update_id = u_update_id u, a_receiver_dataset_ver = lr_local_dataset_version c\<rparr> in
        legacy_reply (lr_local_dataset_version c \<noteq> 0) (legacy_ack_wire a p) c e ob (Some err) NUM8LORA_ERR_NONE)
     else (case run_update add remove flush e rs as of
       (ok, e') \<Rightarrow>
         if ok then legacy_applied c sid u e' ob (Some err)
         else legacy_reply True (legacy_nack_wire (lr_receiver_id c, sid, lr_seq c)
           \<lparr>n_nack_update_id = u_update_id u, n_error_code = NUM8LORA_ERR_APPLY_FAILED, n_detail = 0\<rparr>)
           c e' ob (Some err) NUM8LORA_ERR_APPLY_FAILED))"
proof -
  have u: "update_fits u rs as" "update_header_ok u" "sid \<noteq> 0" "rid \<noteq> 0"
    "rid = lr_receiver_id c \<or> lr_receiver_id c = NUM8LORA_ANY_RECEIVER_ID"
    "lr_expected_sender_id c = 0 \<or> sid = lr_expected_sender_id c"
    using acc by simp_all
  have id: "lr_receiver_id c \<noteq> 0"
    using u(4,5) by auto
  have cap255: "255 \<le> unat (255 :: u32)" "unat (255 :: u32) \<le> length (replicate 255 (0 :: u32))" by simp_all
  have none: "validate_decoded c (sid, rid, sq) u rs as = NUM8LORA_ERR_NONE"
    using validate_decoded_none [OF u] acc by simp
  note v = validate_after_decoding [OF wire u cap255 cap255, of zero_update_header None None "Some NUM8LORA_ERR_NONE"]
  have v': "num8lora_receiver_validate_update_data (Some c) (Some b) n
      (Some zero_update_header) (Some (replicate 255 0)) 255 (Some (replicate 255 0)) 255
      None None (Some NUM8LORA_ERR_NONE) =
    (True, Some u, Some (overlay (cleared (replicate 255 0) 255) 0 rs), Some (overlay (cleared (replicate 255 0) 255) 0 as),
     None, None, Some NUM8LORA_ERR_NONE)"
    using v none by (simp add: Let_def)
  have wide: "\<not> cap < 18"
    using out(1) by (simp add: word_less_nat_alt)
  have ids: "u_update_id u \<noteq> 0" "u_dataset_version_to u \<noteq> 0" "u_dataset_version_from u < u_dataset_version_to u"
    using u(2) by (auto simp: update_header_ok_def)
  show ?thesis
  proof (cases "u_update_id u = lr_last_applied_update_id c")
    case True
    then show ?thesis
      using wide out id u(3) ids
      by (simp add: num8lora_receiver_apply_update_data_to_num8_def decode_common_update [OF wire] v' Let_def
        receiver_ack_cases [OF out(2)] legacy_ack_valid_def legacy_ack_ok_def legacy_reply_def)
  next
    case False
    note ap = apply_update_exact [OF u(1) acceptable_reads(3) [OF acc] _ ids(3) False,
      of "lr_local_dataset_version c" add remove flush e _ _ 0 0 "Some NUM8LORA_ERR_NONE"]
    have from_: "u_dataset_version_from u = lr_local_dataset_version c"
      using acceptable_reads(4) [OF acc False] by simp
    show ?thesis
      using wide out id u(3) ids False
      by (simp add: num8lora_receiver_apply_update_data_to_num8_def decode_common_update [OF wire] v' Let_def
        ap [OF from_] encode_ack_cases [OF out(2)] receiver_nack_cases [OF out(2)] legacy_ack_valid_def
        legacy_ack_ok_def legacy_nack_valid_def legacy_nack_ok_def legacy_reply_def legacy_applied_def
        after_update_def split: prod.splits)
  qed
qed

text \<open>A frame that is not acceptable, or a buffer too small for the answer: nothing is applied.\<close>

lemma apply_update_data_refuses:
  assumes "\<And>a u rs as. take (unat n) b = update_wire a u rs as \<Longrightarrow> \<not> acceptable c a u rs as"
    and len: "unat n \<le> length b" and out: "unat cap \<le> length ob"
  obtains ok c' ob' l' err' where
    "num8lora_receiver_apply_update_data_to_num8 add remove flush (Some c) (Some e) (Some b) n
      (Some ob) cap (Some l) (Some err) = (ok, Some c', Some e, ob', l', err')"
    "c' = c \<or> c' = c\<lparr>lr_seq := lr_seq c + 1\<rparr>"
proof -
  have cap255: "255 \<le> unat (255 :: u32)" "unat (255 :: u32) \<le> length (replicate 255 (0 :: u32))" by simp_all
  obtain xs ys q1 q2 code where v: "num8lora_receiver_validate_update_data (Some c) (Some b) n
      (Some zero_update_header) (Some (replicate 255 0)) 255 (Some (replicate 255 0)) 255
      None None (Some NUM8LORA_ERR_NONE) =
    (False, Some zero_update_header, Some xs, Some ys, q1, q2, Some code)"
  proof (cases rule: validate_update_cases [OF len cap255 cap255, of c zero_update_header None None "Some NUM8LORA_ERR_NONE"])
    case (1 a u rs as)
    with assms(1) show ?thesis by blast
  next
    case (2 xs ys q1 q2 code)
    with that show ?thesis by simp
  qed
  obtain ok h where d: "num8lora_decode_common_header (Some b) n (Some zero_common_header) = (ok, Some h)"
    by (cases "n < 8") (auto simp: num8lora_decode_common_header_def)
  define P :: "bool \<times> num8lora_receiver_ctx ptr \<times> 'a ptr \<times> u8 list ptr \<times> u32 ptr \<times> u16 ptr \<Rightarrow> bool"
    where "P r \<longleftrightarrow> (\<exists>ok c' ob' l' err'. r = (ok, Some c', Some e, ob', l', err')
      \<and> (c' = c \<or> c' = c\<lparr>lr_seq := lr_seq c + 1\<rparr>))" for r
  have here: "P (ok, Some c, Some e, ob', l', err')" "P (ok, Some (c\<lparr>lr_seq := lr_seq c + 1\<rparr>), Some e, ob', l', err')"
    for ok ob' l' err'
    unfolding P_def by blast+
  have "P (num8lora_receiver_apply_update_data_to_num8 add remove flush (Some c) (Some e) (Some b) n
      (Some ob) cap (Some l) (Some err))"
    by (simp add: num8lora_receiver_apply_update_data_to_num8_def d v Let_def receiver_nack_cases [OF out] here)
  then show ?thesis using that unfolding P_def by blast
qed

lemma apply_update_data_small_buffer:
  assumes "unat cap < 18"
  obtains ok ob' l' err' where
    "num8lora_receiver_apply_update_data_to_num8 add remove flush (Some c) (Some e) (Some b) n
      (Some ob) cap (Some l) (Some err) = (ok, Some c, Some e, ob', l', err')"
proof -
  have small: "cap < 18" using assms by (simp add: word_less_nat_alt)
  define P :: "bool \<times> num8lora_receiver_ctx ptr \<times> 'a ptr \<times> u8 list ptr \<times> u32 ptr \<times> u16 ptr \<Rightarrow> bool"
    where "P r \<longleftrightarrow> (\<exists>ok ob' l' err'. r = (ok, Some c, Some e, ob', l', err'))" for r
  have here: "P (ok, Some c, Some e, ob', l', err')" for ok ob' l' err'
    unfolding P_def by blast
  have "P (num8lora_receiver_apply_update_data_to_num8 add remove flush (Some c) (Some e) (Some b) n
      (Some ob) cap (Some l) (Some err))"
    using small by (simp add: num8lora_receiver_apply_update_data_to_num8_def Let_def here split: prod.splits)
  then show ?thesis using that unfolding P_def by blast
qed

text \<open>Whatever the engine does: without an acceptable new update neither it nor the version changes.\<close>

lemma change_needs_acceptable:
  assumes call: "num8lora_receiver_apply_update_data_to_num8 add remove flush (Some c) (Some e) (Some b) n
      (Some ob) cap (Some l) (Some err) = (ok, Some c', Some e', ob', l', err')"
    and len: "unat n \<le> length b" "unat cap \<le> length ob"
    and change: "lr_local_dataset_version c' \<noteq> lr_local_dataset_version c \<or> e' \<noteq> e"
  obtains sid rid sq u rs as where "take (unat n) b = update_wire (sid, rid, sq) u rs as"
    "acceptable c (sid, rid, sq) u rs as" "u_update_id u \<noteq> lr_last_applied_update_id c"
proof (cases "18 \<le> unat cap")
  case False
  then have "unat cap < 18" by simp
  then obtain ok1 ob1 l1 err1 where
    "num8lora_receiver_apply_update_data_to_num8 add remove flush (Some c) (Some e) (Some b) n
      (Some ob) cap (Some l) (Some err) = (ok1, Some c, Some e, ob1, l1, err1)"
    by (rule apply_update_data_small_buffer)
  with call change show ?thesis by simp
next
  case wide: True
  show ?thesis
  proof (cases "\<exists>sid rid sq u rs as. take (unat n) b = update_wire (sid, rid, sq) u rs as
      \<and> acceptable c (sid, rid, sq) u rs as")
    case True
    then obtain sid rid sq u rs as where w: "take (unat n) b = update_wire (sid, rid, sq) u rs as"
      and acc: "acceptable c (sid, rid, sq) u rs as" by blast
    show ?thesis
    proof (cases "u_update_id u = lr_last_applied_update_id c")
      case True
      then show ?thesis
        using apply_update_data_accepts [OF acc w len(1) wide len(2), of add remove flush e l err] call change
        by (auto simp: Let_def legacy_reply_def split: if_splits)
    next
      case False
      with w acc show ?thesis by (rule that)
    qed
  next
    case False
    then have none: "\<not> acceptable c a u rs as" if "take (unat n) b = update_wire a u rs as" for a u rs as
      using that by (metis prod_cases3)
    obtain ok1 c1 ob1 l1 err1 where
      "num8lora_receiver_apply_update_data_to_num8 add remove flush (Some c) (Some e) (Some b) n
        (Some ob) cap (Some l) (Some err) = (ok1, Some c1, Some e, ob1, l1, err1)"
      and "c1 = c \<or> c1 = c\<lparr>lr_seq := lr_seq c + 1\<rparr>"
      by (rule apply_update_data_refuses [OF none len, of add remove flush e l err], assumption) (rule that)
    with call change show ?thesis by auto
  qed
qed

end
