(* ===== verification/LegacyReplica.thy ===== *)
theory LegacyReplica
  imports LegacyApply Runs
begin

text \<open>
  A legacy receiver over time: a step relation of its three entry points on any bytes, and the history
  invariant. The version and the set of numbers move together, one published update at a time, so
  receivers of the same publisher at the same version hold the same set.
\<close>

type_synonym update = "num8lora_update_header \<times> u32 list \<times> u32 list"

text \<open>
  \<open>pub\<close> holds the updates the publisher ever made. Frames may be lost, repeated, delayed, cut or
  replaced by noise; a frame that parses as an update carries one of \<open>pub\<close>. A call may fail in any way
  but one: these are the runs in which no call reports \<open>APPLY_FAILED\<close>, the code's word for an engine
  operation that failed (after which the engine is left halfway).
\<close>

inductive legacy_step ::
  "'e engine_op \<Rightarrow> 'e engine_op \<Rightarrow> ('e \<Rightarrow> num8_status \<times> 'e) \<Rightarrow> update set
    \<Rightarrow> num8lora_receiver_ctx \<times> 'e \<Rightarrow> num8lora_receiver_ctx \<times> 'e \<Rightarrow> bool"
  for add remove flush pub where
  step_beacon: "legacy_receiver_handle_beacon (Some c) (Some b) n (Some ob) cap (Some l) = (ok, Some c', ob', l')
    \<Longrightarrow> legacy_step add remove flush pub (c, e) (c', e)"
| step_timeout: "num8lora_receiver_on_update_timeout (Some c) (Some ob) cap (Some l) = (ok, Some c', ob', l')
    \<Longrightarrow> legacy_step add remove flush pub (c, e) (c', e)"
| step_data: "num8lora_receiver_apply_update_data_to_num8 add remove flush (Some c) (Some e) (Some b) n
      (Some ob) cap (Some l) (Some err) = (ok, Some c', Some e', ob', l', err')
    \<Longrightarrow> unat n \<le> length b \<Longrightarrow> unat cap \<le> length ob \<Longrightarrow> err' \<noteq> Some NUM8LORA_ERR_APPLY_FAILED
    \<Longrightarrow> (\<And>a u rs as. take (unat n) b = update_wire a u rs as \<Longrightarrow> update_header_ok u \<Longrightarrow> update_fits u rs as
      \<Longrightarrow> (u, rs, as) \<in> pub)
    \<Longrightarrow> legacy_step add remove flush pub (c, e) (c', e')"

abbreviation legacy_reach ::
  "'e engine_op \<Rightarrow> 'e engine_op \<Rightarrow> ('e \<Rightarrow> num8_status \<times> 'e) \<Rightarrow> update set
    \<Rightarrow> num8lora_receiver_ctx \<times> 'e \<Rightarrow> num8lora_receiver_ctx \<times> 'e \<Rightarrow> bool" where
  "legacy_reach add remove flush pub \<equiv> runs (legacy_step add remove flush pub)"

subsection \<open>The abstract replica\<close>

text \<open>A version and a set of numbers; a step applies a published update that starts from the version.\<close>

inductive replica_step :: "update set \<Rightarrow> u32 \<times> u32 set \<Rightarrow> u32 \<times> u32 set \<Rightarrow> bool" for pub where
  replica_update: "(u, rs, as) \<in> pub \<Longrightarrow> batch_ok rs as \<Longrightarrow> u_dataset_version_from u < u_dataset_version_to u
    \<Longrightarrow> replica_step pub (u_dataset_version_from u, A) (u_dataset_version_to u, (A - set rs) \<union> set as)"

inductive_cases replica_stepE: "replica_step pub x y"

text \<open>What the replica is of a receiver and its engine.\<close>

definition replica :: "('e \<Rightarrow> u32 set) \<Rightarrow> num8lora_receiver_ctx \<times> 'e \<Rightarrow> u32 \<times> u32 set" where
  "replica numbers x = (lr_local_dataset_version (fst x), numbers (snd x))"

subsection \<open>Beacons and timeouts do not touch the data set\<close>

lemma handle_beacon_keeps:
  assumes "legacy_receiver_handle_beacon (Some c) (Some b) n (Some ob) cap (Some l) = (ok, Some c', ob', l')"
  shows "lr_local_dataset_version c' = lr_local_dataset_version c"
proof -
  define P :: "bool \<times> num8lora_receiver_ctx ptr \<times> u8 list ptr \<times> u32 ptr \<Rightarrow> bool"
    where "P r \<longleftrightarrow> (case r of (_, Some c', _) \<Rightarrow> lr_local_dataset_version c' = lr_local_dataset_version c | _ \<Rightarrow> True)" for r
  have "P (legacy_receiver_handle_beacon (Some c) (Some b) n (Some ob) cap (Some l))"
    by (simp add: legacy_receiver_handle_beacon_def Let_def P_def split: prod.splits)
  then show ?thesis using assms by (simp add: P_def)
qed

lemma update_timeout_keeps:
  assumes "num8lora_receiver_on_update_timeout (Some c) (Some ob) cap (Some l) = (ok, Some c', ob', l')"
  shows "lr_local_dataset_version c' = lr_local_dataset_version c"
proof -
  define P :: "bool \<times> num8lora_receiver_ctx ptr \<times> u8 list ptr \<times> u32 ptr \<Rightarrow> bool"
    where "P r \<longleftrightarrow> (case r of (_, Some c', _) \<Rightarrow> lr_local_dataset_version c' = lr_local_dataset_version c | _ \<Rightarrow> True)" for r
  have "P (num8lora_receiver_on_update_timeout (Some c) (Some ob) cap (Some l))"
    by (simp add: num8lora_receiver_on_update_timeout_def Let_def P_def split: prod.splits)
  then show ?thesis using assms by (simp add: P_def)
qed

subsection \<open>One step\<close>

lemma data_step:
  assumes engine: "adds numbers add" "removes numbers remove" "flush_keeps numbers flush"
    and call: "num8lora_receiver_apply_update_data_to_num8 add remove flush (Some c) (Some e) (Some b) n
      (Some ob) cap (Some l) (Some err) = (ok, Some c', Some e', ob', l', err')"
    and len: "unat n \<le> length b" "unat cap \<le> length ob" and reported: "err' \<noteq> Some NUM8LORA_ERR_APPLY_FAILED"
    and pub: "\<And>a u rs as. take (unat n) b = update_wire a u rs as \<Longrightarrow> update_header_ok u \<Longrightarrow> update_fits u rs as
      \<Longrightarrow> (u, rs, as) \<in> pub"
  shows "replica numbers (c', e') = replica numbers (c, e)
    \<or> replica_step pub (replica numbers (c, e)) (replica numbers (c', e'))"
proof (cases "lr_local_dataset_version c' \<noteq> lr_local_dataset_version c \<or> e' \<noteq> e")
  case True
  then obtain sid rid sq u rs as where w: "take (unat n) b = update_wire (sid, rid, sq) u rs as"
    and acc: "acceptable c (sid, rid, sq) u rs as" and new: "u_update_id u \<noteq> lr_last_applied_update_id c"
    by (rule change_needs_acceptable [OF call len])
  note r = acceptable_reads [OF acc]
  have wide: "18 \<le> unat cap"
  proof (rule ccontr)
    assume "\<not> 18 \<le> unat cap"
    then have "unat cap < 18" by simp
    then show False
      using apply_update_data_small_buffer [of cap add remove flush c e b n ob l err] call True by auto
  qed
  obtain e2 where run: "run_update add remove flush e rs as = (True, e2)"
  proof (cases "run_update add remove flush e rs as")
    case (Pair worked e2)
    have worked
      using apply_update_data_accepts [OF acc w len(1) wide len(2), of add remove flush e l err] call new Pair reported
      by (auto simp: legacy_reply_def split: if_splits)
    with Pair that show ?thesis by simp
  qed
  have "c' = after_update c sid u" "e' = e2"
    using apply_update_data_accepts [OF acc w len(1) wide len(2), of add remove flush e l err] call new run
    by (simp_all add: legacy_applied_def)
  moreover have "numbers e2 = (numbers e - set rs) \<union> set as"
    by (rule run_update_effect [OF engine(1-3) run])
  moreover have "u_dataset_version_from u < u_dataset_version_to u"
    using r(2) by (simp add: update_header_ok_def)
  ultimately have "replica_step pub (replica numbers (c, e)) (replica numbers (c', e'))"
    using replica_update [OF pub [OF w r(2,1)] r(3), of "numbers e"] r(4) [OF new]
    by (simp add: replica_def after_update_def)
  then show ?thesis ..
qed (simp add: replica_def)

text \<open>On an engine that does what it reports, and while it reports no failure, the receiver implements the replica.\<close>

lemma receiver_simulates:
  assumes "adds numbers add" "removes numbers remove" "flush_keeps numbers flush"
  shows "simulation (legacy_step add remove flush pub) (replica numbers) (replica_step pub)"
proof
  fix x y
  assume "legacy_step add remove flush pub x y"
  then show "replica numbers y = replica numbers x \<or> replica_step pub (replica numbers x) (replica numbers y)"
  proof cases
    case (step_data c e b n ob cap l err ok c' e' ob' l' err')
    show ?thesis
      using data_step [OF assms step_data(3-7)] step_data(1,2) by simp
  qed (auto simp: replica_def dest: handle_beacon_keeps update_timeout_keeps)
qed

subsection \<open>The history\<close>

text \<open>\<open>chain v log w\<close>: the updates of \<open>log\<close> lead from version \<open>v\<close> to version \<open>w\<close>.\<close>

fun chain :: "u32 \<Rightarrow> update list \<Rightarrow> u32 \<Rightarrow> bool" where
  "chain v [] w \<longleftrightarrow> v = w"
| "chain v ((u, rs, as) # log) w \<longleftrightarrow> u_dataset_version_from u = v
    \<and> u_dataset_version_from u < u_dataset_version_to u \<and> chain (u_dataset_version_to u) log w"

fun replay :: "update list \<Rightarrow> u32 set \<Rightarrow> u32 set" where
  "replay [] A = A"
| "replay ((u, rs, as) # log) A = replay log ((A - set rs) \<union> set as)"

lemma chain_append: "chain v (xs @ ys) w \<longleftrightarrow> (\<exists>m. chain v xs m \<and> chain m ys w)"
  by (induction v xs w rule: chain.induct) auto

lemma replay_append: "replay (xs @ ys) A = replay ys (replay xs A)"
  by (induction xs A rule: replay.induct) auto

lemma chain_increases: "chain v log w \<Longrightarrow> v \<le> w"
  by (induction v log w rule: chain.induct) auto

lemma chain_moves: "chain v (x # log) w \<Longrightarrow> v < w"
  using chain_increases by (cases x) fastforce

text \<open>A publisher makes one update for a version.\<close>

definition linear :: "update set \<Rightarrow> bool" where
  "linear pub \<longleftrightarrow> (\<forall>u rs as u' rs' as'. (u, rs, as) \<in> pub \<longrightarrow> (u', rs', as') \<in> pub
    \<longrightarrow> u_dataset_version_from u = u_dataset_version_from u' \<longrightarrow> (u, rs, as) = (u', rs', as'))"

lemma chain_unique:
  assumes "linear pub" "chain v xs w" "chain v ys w" "set xs \<subseteq> pub" "set ys \<subseteq> pub"
  shows "xs = ys"
  using assms(2-)
proof (induction xs arbitrary: v ys)
  case Nil
  then have w: "w = v" by simp
  show ?case
  proof (cases ys)
    case (Cons y ys')
    then show ?thesis
      using chain_moves [of v y ys' w] Nil.prems(2) w by simp
  qed simp
next
  case (Cons x xs)
  obtain u rs as where x: "x = (u, rs, as)" by (cases x)
  have "v < w" using chain_moves Cons.prems(1) by blast
  then obtain y ys' where ys: "ys = y # ys'"
    using Cons.prems(2) by (cases ys) auto
  obtain u' rs' as' where y: "y = (u', rs', as')" by (cases y)
  have "x = y"
    using assms(1) Cons.prems unfolding x y ys linear_def by auto
  then show ?case
    using Cons unfolding x y ys by auto
qed

lemma replica_history:
  assumes "runs (replica_step pub) x y"
  shows "\<exists>log. set log \<subseteq> pub \<and> chain (fst x) log (fst y) \<and> snd y = replay log (snd x)"
  using assms
proof induction
  case start
  show ?case by (intro exI [of _ "[]"]) simp
next
  case (step y z)
  then obtain log where log: "set log \<subseteq> pub" "chain (fst x) log (fst y)" "snd y = replay log (snd x)"
    by blast
  from step(2) obtain u rs as where "(u, rs, as) \<in> pub" "u_dataset_version_from u < u_dataset_version_to u"
    "fst y = u_dataset_version_from u" "fst z = u_dataset_version_to u" "snd z = (snd y - set rs) \<union> set as"
    by (auto elim: replica_stepE)
  then show ?case
    using log by (intro exI [of _ "log @ [(u, rs, as)]"]) (simp add: chain_append replay_append)
qed

lemma reach_history:
  assumes "adds numbers add" "removes numbers remove" "flush_keeps numbers flush"
    and "legacy_reach add remove flush pub x y"
  shows "\<exists>log. set log \<subseteq> pub \<and> chain (lr_local_dataset_version (fst x)) log (lr_local_dataset_version (fst y))
    \<and> numbers (snd y) = replay log (numbers (snd x))"
  using replica_history [OF simulation.runs_simulate [OF receiver_simulates [OF assms(1-3)] assms(4)]]
  by (simp add: replica_def)

end
