(* ===== verification/LegacySender.thy ===== *)
theory LegacySender
  imports LegacyBridge Runs
begin

text \<open>
  The legacy sender over time: the invariant that a sender with work to do holds a well-formed update
  and the checksum it announces, what its frames carry, and that its retries end.
\<close>

text \<open>The update a sender holds, with the numbers the two counts select.\<close>

definition loaded :: "num8lora_sender_ctx \<Rightarrow> u32 list \<Rightarrow> u32 list \<Rightarrow> bool" where
  "loaded c rs as \<longleftrightarrow> update_fits (ls_update_hdr c) rs as \<and> batch_ok rs as
    \<and> array_at (ls_remove_numbers c) rs \<and> array_at (ls_add_numbers c) as
    \<and> u_dataset_version_from (ls_update_hdr c) < u_dataset_version_to (ls_update_hdr c)
    \<and> u_reserved0 (ls_update_hdr c) = 0
    \<and> ls_update_payload_crc16 c = crc_of (update_bytes (ls_update_hdr c) rs as)"

definition legacy_sender_inv :: "num8lora_sender_ctx \<Rightarrow> bool" where
  "legacy_sender_inv c \<longleftrightarrow> (ls_state c = NUM8LORA_SENDER_IDLE \<or> (\<exists>rs as. loaded c rs as))
    \<and> ls_retries c \<le> ls_max_retries c"

text \<open>A context that differs from \<open>c\<close> in what the protocol steps may change.\<close>

definition same_update :: "num8lora_sender_ctx \<Rightarrow> num8lora_sender_ctx \<Rightarrow> bool" where
  "same_update c c' \<longleftrightarrow> ls_update_hdr c' = ls_update_hdr c \<and> ls_remove_numbers c' = ls_remove_numbers c
    \<and> ls_add_numbers c' = ls_add_numbers c \<and> ls_update_payload_crc16 c' = ls_update_payload_crc16 c
    \<and> ls_max_retries c' = ls_max_retries c
    \<and> (ls_state c = NUM8LORA_SENDER_IDLE \<longrightarrow> ls_state c' = NUM8LORA_SENDER_IDLE)
    \<and> (ls_retries c \<le> ls_max_retries c \<longrightarrow> ls_retries c' \<le> ls_max_retries c)"

lemma same_update_refl [simp]: "same_update c c"
  by (simp add: same_update_def)

lemma same_update_inv:
  assumes "same_update c c'" "legacy_sender_inv c"
  shows "legacy_sender_inv c'"
proof -
  have "loaded c' rs as = loaded c rs as" for rs as
    using assms(1) by (simp add: same_update_def loaded_def)
  then show ?thesis
    using assms by (auto simp: same_update_def legacy_sender_inv_def)
qed

subsection \<open>Setting an update\<close>

lemma set_update_exact:
  assumes "update_fits h rs as" "array_at rp rs" "array_at ap as"
  shows "num8lora_sender_set_update (Some c) rid (Some h) rp ap e =
    (if ls_state c = NUM8LORA_SENDER_WAIT_ACK then (False, Some c, store NUM8LORA_ERR_BUSY e)
     else if u_dataset_version_to h \<le> u_dataset_version_from h \<or> u_reserved0 h \<noteq> 0
     then (False, Some c, store NUM8LORA_ERR_DATASET_VERSION_MISMATCH e)
     else if batch_error rs as \<noteq> NUM8LORA_ERR_NONE then (False, Some c, store (batch_error rs as) e)
     else (True, Some (c\<lparr>ls_update_payload_crc16 := crc_of (update_bytes h rs as),
       ls_target_receiver_id := rid, ls_update_hdr := h, ls_remove_numbers := rp, ls_add_numbers := ap,
       ls_retries := 0, ls_last_nack_error := NUM8LORA_ERR_NONE,
       ls_state := NUM8LORA_SENDER_WAIT_REQUEST\<rparr>), store NUM8LORA_ERR_NONE e))"
  using assms validate_numbers_exact [of rp rs ap as h "Some NUM8LORA_ERR_NONE"]
    compute_crc_exact [of rp rs ap as h "ls_update_payload_crc16 c"]
  by (simp add: num8lora_sender_set_update_def Let_def update_fits_def batch_error_none)

lemma set_update_inv:
  assumes "update_fits h rs as" "array_at rp rs" "array_at ap as" "legacy_sender_inv c"
    and "num8lora_sender_set_update (Some c) rid (Some h) rp ap e = (ok, Some c', e')"
  shows "legacy_sender_inv c' \<and> (ok \<longrightarrow> loaded c' rs as \<and> ls_update_hdr c' = h)"
proof (cases ok)
  case True
  then have "loaded c' rs as \<and> ls_update_hdr c' = h \<and> ls_retries c' = 0"
    using assms(5) unfolding set_update_exact [OF assms(1-3)]
    by (auto simp: loaded_def assms(1-3) batch_error_none not_le split: if_splits)
  then show ?thesis by (auto simp: legacy_sender_inv_def)
next
  case False
  then have "c' = c"
    using assms(5) unfolding set_update_exact [OF assms(1-3)] by (auto split: if_splits)
  then show ?thesis using assms(4) False by simp
qed

subsection \<open>The other operations keep the update\<close>

lemma build_beacon_same:
  assumes "legacy_sender_build_beacon (Some c) (Some ob) cap (Some l) = (ok, Some c', b', l')"
  shows "same_update c c'"
proof -
  define P :: "bool \<times> num8lora_sender_ctx ptr \<times> u8 list ptr \<times> u32 ptr \<Rightarrow> bool"
    where "P r \<longleftrightarrow> (case r of (_, Some c', _) \<Rightarrow> same_update c c' | _ \<Rightarrow> True)" for r
  have "P (legacy_sender_build_beacon (Some c) (Some ob) cap (Some l))"
    by (simp add: legacy_sender_build_beacon_def Let_def P_def same_update_def split: prod.splits)
  then show ?thesis using assms by (simp add: P_def)
qed

lemma update_request_same:
  assumes "num8lora_sender_handle_update_request (Some c) (Some b) n (Some ob) cap (Some l) = (ok, Some c', b', l')"
  shows "same_update c c'"
proof -
  define P :: "bool \<times> num8lora_sender_ctx ptr \<times> u8 list ptr \<times> u32 ptr \<Rightarrow> bool"
    where "P r \<longleftrightarrow> (case r of (_, Some c', _) \<Rightarrow> same_update c c' | _ \<Rightarrow> True)" for r
  have "P (num8lora_sender_handle_update_request (Some c) (Some b) n (Some ob) cap (Some l))"
    by (simp add: num8lora_sender_handle_update_request_def Let_def case_prod_beta P_def same_update_def
      split: option.split)
  then show ?thesis using assms by (simp add: P_def)
qed

lemma ack_or_nack_same:
  assumes "num8lora_sender_handle_ack_or_nack (Some c) (Some b) n r x = (ok, Some c', r', x')"
  shows "same_update c c'"
proof -
  define P :: "bool \<times> num8lora_sender_ctx ptr \<times> num8lora_sender_ack_result ptr \<times> u16 ptr \<Rightarrow> bool"
    where "P r \<longleftrightarrow> (case r of (_, Some c', _) \<Rightarrow> same_update c c' | _ \<Rightarrow> True)" for r
  have "P (num8lora_sender_handle_ack_or_nack (Some c) (Some b) n r x)"
    by (simp add: num8lora_sender_handle_ack_or_nack_def Let_def P_def same_update_def
      split: prod.splits option.splits)
  then show ?thesis using assms by (simp add: P_def)
qed

lemma bump_retries:
  fixes m r :: u8
  assumes "\<not> m \<le> r"
  shows "r + 1 \<le> m" and "unat (r + 1) = unat r + 1"
proof -
  have less: "unat r < unat m" using assms by (simp add: word_le_nat_alt)
  then show u: "unat (r + 1) = unat r + 1"
    using unat_less_u8 [of m] by (simp add: unat_word_ariths(1) del: unat_less_u8)
  show "r + 1 \<le> m"
    using less u by (simp add: word_le_nat_alt)
qed

lemma ack_timeout_same:
  assumes "num8lora_sender_on_ack_timeout (Some c) (Some ob) cap (Some l) = (ok, Some c', b', l')"
  shows "same_update c c'"
proof -
  define P :: "bool \<times> num8lora_sender_ctx ptr \<times> u8 list ptr \<times> u32 ptr \<Rightarrow> bool"
    where "P r \<longleftrightarrow> (case r of (_, Some c', _) \<Rightarrow> same_update c c' | _ \<Rightarrow> True)" for r
  have "P (num8lora_sender_on_ack_timeout (Some c) (Some ob) cap (Some l))"
    by (simp add: num8lora_sender_on_ack_timeout_def Let_def P_def same_update_def bump_retries
      split: prod.splits)
  then show ?thesis using assms by (simp add: P_def)
qed

subsection \<open>Reachable states\<close>

inductive legacy_tx_step :: "num8lora_sender_ctx \<Rightarrow> num8lora_sender_ctx \<Rightarrow> bool" where
  tx_set: "update_fits h rs as \<Longrightarrow> array_at rp rs \<Longrightarrow> array_at ap as
    \<Longrightarrow> num8lora_sender_set_update (Some c) rid (Some h) rp ap e = (ok, Some c', e') \<Longrightarrow> legacy_tx_step c c'"
| tx_beacon: "legacy_sender_build_beacon (Some c) (Some ob) cap (Some l) = (ok, Some c', b', l')
    \<Longrightarrow> legacy_tx_step c c'"
| tx_request: "num8lora_sender_handle_update_request (Some c) (Some b) n (Some ob) cap (Some l) = (ok, Some c', b', l')
    \<Longrightarrow> legacy_tx_step c c'"
| tx_answer: "num8lora_sender_handle_ack_or_nack (Some c) (Some b) n r x = (ok, Some c', r', x') \<Longrightarrow> legacy_tx_step c c'"
| tx_timeout: "num8lora_sender_on_ack_timeout (Some c) (Some ob) cap (Some l) = (ok, Some c', b', l')
    \<Longrightarrow> legacy_tx_step c c'"

abbreviation legacy_tx_reach :: "num8lora_sender_ctx \<Rightarrow> num8lora_sender_ctx \<Rightarrow> bool" where
  "legacy_tx_reach \<equiv> runs legacy_tx_step"

lemma legacy_tx_step_inv:
  assumes "legacy_tx_step c c'" "legacy_sender_inv c"
  shows "legacy_sender_inv c'"
  using assms
proof cases
  case (tx_set h rs as rp ap rid e ok e')
  then show ?thesis using set_update_inv [OF tx_set(1-3) assms(2) tx_set(4)] by blast
qed (auto intro: same_update_inv [OF _ assms(2)] build_beacon_same update_request_same ack_or_nack_same ack_timeout_same)

lemma legacy_sender_init_inv: "legacy_sender_init (Some c0) sid m = Some c \<Longrightarrow> legacy_sender_inv c"
  by (auto simp: legacy_sender_init_def legacy_sender_inv_def)

interpretation legacy_tx: preserved legacy_tx_step legacy_sender_inv
  by unfold_locales (rule legacy_tx_step_inv)

text \<open>
  The phases of a transfer. Only setting an update leads out of idle, and only a served request
  makes the sender wait for an acknowledgement.
\<close>

inductive phase_step :: "num8lora_sender_state \<Rightarrow> num8lora_sender_state \<Rightarrow> bool" where
  phase_set: "p \<noteq> NUM8LORA_SENDER_WAIT_ACK \<Longrightarrow> phase_step p NUM8LORA_SENDER_WAIT_REQUEST"
| phase_sent: "p \<noteq> NUM8LORA_SENDER_IDLE \<Longrightarrow> phase_step p NUM8LORA_SENDER_WAIT_ACK"
| phase_done: "phase_step p NUM8LORA_SENDER_IDLE"

inductive_simps phase_step_simps [simp]:
  "phase_step p NUM8LORA_SENDER_IDLE" "phase_step p NUM8LORA_SENDER_WAIT_REQUEST"
  "phase_step p NUM8LORA_SENDER_WAIT_ACK"

lemma set_update_phase:
  assumes "num8lora_sender_set_update (Some c) rid (Some h) rp ap e = (ok, Some c', e')"
  shows "ls_state c' = ls_state c \<or> phase_step (ls_state c) (ls_state c')"
  using assms by (auto simp: num8lora_sender_set_update_def Let_def split: if_splits prod.splits)

lemma other_phases:
  "legacy_sender_build_beacon (Some c) (Some ob) cap (Some l) = (ok, Some c', b', l')
    \<Longrightarrow> ls_state c' = ls_state c"
  "num8lora_sender_handle_ack_or_nack (Some c) (Some b) n r x = (ok, Some c', r', x')
    \<Longrightarrow> ls_state c' = ls_state c \<or> phase_step (ls_state c) (ls_state c')"
  "num8lora_sender_on_ack_timeout (Some c) (Some ob) cap (Some l) = (ok, Some c', b', l')
    \<Longrightarrow> ls_state c' = ls_state c \<or> phase_step (ls_state c) (ls_state c')"
  by (auto simp: legacy_sender_build_beacon_def num8lora_sender_handle_ack_or_nack_def
    num8lora_sender_on_ack_timeout_def Let_def split: if_splits prod.splits option.splits)

lemma update_request_phase:
  assumes "num8lora_sender_handle_update_request (Some c) (Some b) n (Some ob) cap (Some l) = (ok, Some c', b', l')"
  shows "ls_state c' = ls_state c \<or> phase_step (ls_state c) (ls_state c')"
proof -
  define P :: "bool \<times> num8lora_sender_ctx ptr \<times> u8 list ptr \<times> u32 ptr \<Rightarrow> bool"
    where "P r \<longleftrightarrow> (case r of (_, Some c', _) \<Rightarrow> ls_state c' = ls_state c \<or> phase_step (ls_state c) (ls_state c') | _ \<Rightarrow> True)" for r
  have "P (num8lora_sender_handle_update_request (Some c) (Some b) n (Some ob) cap (Some l))"
    by (simp add: num8lora_sender_handle_update_request_def Let_def case_prod_beta P_def
      split: option.split)
  then show ?thesis using assms by (simp add: P_def)
qed

interpretation legacy_phases: simulation legacy_tx_step ls_state phase_step
proof
  fix c c'
  assume "legacy_tx_step c c'"
  then show "ls_state c' = ls_state c \<or> phase_step (ls_state c) (ls_state c')"
    by cases (auto dest: set_update_phase other_phases update_request_phase)
qed

subsection \<open>Retries end\<close>

text \<open>Consecutive timeouts, each with the buffer and the capacity of its call.\<close>

fun legacy_timeouts :: "num8lora_sender_ctx \<Rightarrow> (u8 list \<times> u32) list \<Rightarrow> num8lora_sender_ctx" where
  "legacy_timeouts c [] = c"
| "legacy_timeouts c ((ob, cap) # bs) =
    (case num8lora_sender_on_ack_timeout (Some c) (Some ob) cap (Some 0) of
      (_, c', _) \<Rightarrow> legacy_timeouts (the c') bs)"

lemma ack_timeout_cases:
  assumes "num8lora_sender_on_ack_timeout (Some c) (Some ob) cap (Some l) = (ok, c', b', l')"
    and "ls_state c = NUM8LORA_SENDER_WAIT_ACK"
  shows "if ls_max_retries c \<le> ls_retries c then c' = Some (c\<lparr>ls_state := NUM8LORA_SENDER_IDLE\<rparr>)
    else ls_state (the c') = NUM8LORA_SENDER_WAIT_ACK \<and> ls_max_retries (the c') = ls_max_retries c
      \<and> ls_retries (the c') = ls_retries c + 1"
  using assms
  by (auto simp: num8lora_sender_on_ack_timeout_def Let_def split: prod.splits if_splits)

lemma timeouts_idle:
  "ls_state c = NUM8LORA_SENDER_IDLE \<Longrightarrow> legacy_timeouts c bs = c"
  by (induction bs) (auto simp: num8lora_sender_on_ack_timeout_def Let_def)

lemma timeouts_give_up:
  assumes "ls_state c = NUM8LORA_SENDER_WAIT_ACK" "ls_retries c \<le> ls_max_retries c"
  shows "ls_state (legacy_timeouts c bs) =
    (if length bs \<le> unat (ls_max_retries c) - unat (ls_retries c)
     then NUM8LORA_SENDER_WAIT_ACK else NUM8LORA_SENDER_IDLE)"
  using assms
proof (induction bs arbitrary: c)
  case (Cons x bs)
  obtain ob cap where x: "x = (ob, cap)" by (cases x)
  obtain ok c' b' l' where call: "num8lora_sender_on_ack_timeout (Some c) (Some ob) cap (Some 0) = (ok, c', b', l')"
    by (metis prod_cases4)
  note step = ack_timeout_cases [OF call Cons.prems(1)]
  show ?case
  proof (cases "ls_max_retries c \<le> ls_retries c")
    case True
    then have "unat (ls_max_retries c) - unat (ls_retries c) = 0" by (simp add: word_le_nat_alt)
    with True show ?thesis
      using step x call by (simp add: timeouts_idle)
  next
    case False
    then have "ls_retries (the c') \<le> ls_max_retries (the c')" "ls_state (the c') = NUM8LORA_SENDER_WAIT_ACK"
      "unat (ls_retries (the c')) = unat (ls_retries c) + 1" "ls_max_retries (the c') = ls_max_retries c"
      "unat (ls_retries c) < unat (ls_max_retries c)"
      using step bump_retries [OF False] by (simp_all add: word_le_nat_alt)
    then show ?thesis
      using Cons.IH [of "the c'"] x call by auto
  qed
qed simp

end
