(* ===== verification/LegacyExchange.thy ===== *)
theory LegacyExchange
  imports LegacyReplica LegacySender
begin

text \<open>
  Both legacy state machines together: what each call puts on the air and how the other side answers,
  and the complete exchange from the beacon to the acknowledgement.
\<close>

subsection \<open>The beacon\<close>

definition beacon_of :: "num8lora_sender_ctx \<Rightarrow> num8lora_beacon_payload" where
  "beacon_of c = (let u = ls_update_hdr c in
    \<lparr>b_current_update_id = u_update_id u, b_dataset_version_from = u_dataset_version_from u,
      b_dataset_version_to = u_dataset_version_to u, b_remove_count = u_remove_count u,
      b_add_count = u_add_count u,
      b_update_payload_size = ucast (announced_size (u_remove_count u) (u_add_count u)),
      b_update_payload_crc16 = ls_update_payload_crc16 c\<rparr>)"

lemma announced_size_fits: "(ucast (ucast (announced_size rc ac) :: u16) :: u32) = announced_size rc ac"
proof -
  have small: "unat (announced_size rc ac) < 65536"
    using unat_less_u8 [of rc] unat_less_u8 [of ac] unfolding announced_size_exact
    by (simp del: unat_less_u8)
  have "unat (ucast (ucast (announced_size rc ac) :: u16) :: u32) = unat (announced_size rc ac)"
    using small by (simp add: unsigned_ucast_eq unsigned_take_bit_eq take_bit_nat_eq_self)
  then show ?thesis by (simp add: word_unat_eq_iff)
qed

lemma build_beacon_exact:
  assumes "ls_sender_id c \<noteq> 0" "u_update_id (ls_update_hdr c) \<noteq> 0" "loaded c rs as"
    and "28 \<le> unat cap" "unat cap \<le> length ob"
  shows "legacy_sender_build_beacon (Some c) (Some ob) cap (Some l) =
    (True, Some (c\<lparr>ls_seq := ls_seq c + 1\<rparr>),
     Some (overlay ob 0 (legacy_beacon_wire (ls_sender_id c, ls_seq c) (beacon_of c))), Some 28)"
proof -
  let ?a = "(ls_sender_id c, ls_seq c)"
  have ok: "legacy_beacon_valid ?a (beacon_of c)"
    using assms(1-3) by (simp add: legacy_beacon_ok_def beacon_of_def Let_def announced_size_fits loaded_def)
  have len: "length (legacy_beacon_wire ?a (beacon_of c)) = 28" by simp
  have "pack_broadcast num8lora_encode_beacon (Some ob) cap ?a (Some (beacon_of c)) (Some 0) =
      (True, Some (overlay ob 0 (legacy_beacon_wire ?a (beacon_of c))), Some 28)"
    using legacy_beacon.accepts [OF ok, of cap ob 0] assms(4,5) len by simp
  moreover have "\<not> cap < 28" using assms(4) by (simp add: word_less_nat_alt)
  ultimately show ?thesis
    by (simp add: legacy_sender_build_beacon_def Let_def pack_broadcast_def beacon_of_def announced_size_def)
qed

text \<open>The receiver after it has answered the beacon \<open>p\<close> with a request.\<close>

definition after_beacon :: "num8lora_receiver_ctx \<Rightarrow> num8lora_beacon_payload \<Rightarrow> num8lora_receiver_ctx" where
  "after_beacon c p = c\<lparr>lr_seq := lr_seq c + 1, lr_pending_update_id := b_current_update_id p,
    lr_pending_dataset_version_from := b_dataset_version_from p,
    lr_pending_dataset_version_to := b_dataset_version_to p,
    lr_pending_remove_count := b_remove_count p, lr_pending_add_count := b_add_count p,
    lr_pending_payload_size := b_update_payload_size p, lr_pending_payload_crc16 := b_update_payload_crc16 p,
    lr_state := NUM8LORA_RECEIVER_WAIT_UPDATE, lr_retries := 0\<rparr>"

lemma handle_beacon_exact:
  assumes "legacy_beacon_valid (sid, sq) p" "take (unat n) b = legacy_beacon_wire (sid, sq) p" "unat n \<le> length b"
    and "18 \<le> unat cap" "unat cap \<le> length ob" "lr_receiver_id c \<noteq> 0"
  shows "legacy_receiver_handle_beacon (Some c) (Some b) n (Some ob) cap (Some l) =
    (if (lr_expected_sender_id c \<noteq> 0 \<and> sid \<noteq> lr_expected_sender_id c)
        \<or> b_dataset_version_to p \<le> lr_local_dataset_version c
     then (False, Some c, Some ob, Some 0)
     else (True, Some (after_beacon c p),
       Some (overlay ob 0 (legacy_request_wire (lr_receiver_id c, sid, lr_seq c)
         \<lparr>q_requested_update_id = b_current_update_id p, q_receiver_dataset_ver = lr_local_dataset_version c\<rparr>)),
       Some 18))"
proof -
  let ?q = "\<lparr>q_requested_update_id = b_current_update_id p, q_receiver_dataset_ver = lr_local_dataset_version c\<rparr>"
  let ?a = "(lr_receiver_id c, sid, lr_seq c)"
  have f: "take (unat n) b = frame NUM8LORA_MSG_BEACON sid 0 sq (legacy_beacon_bytes p)"
    using assms(2) by simp
  have c: "num8lora_classify_frame (Some b) n NUM8LORA_ANY_RECEIVER_ID NUM8LORA_MSG_BEACON
      (Some zero_common_header) (Some NUM8LORA_ERR_NONE)
      = (True, Some (legacy_header NUM8LORA_MSG_BEACON sid 0 sq), Some NUM8LORA_ERR_NONE)"
    using f unfolding classify_iff [OF assms(3)] by (auto simp: expected_frame_def)
  have d: "num8lora_decode_beacon (Some b) n (Some h0) (Some p0) =
      (True, Some (legacy_header NUM8LORA_MSG_BEACON sid 0 sq), Some p)" for h0 p0
    using legacy_beacon.decode_wire [OF assms(1,2,3), of h0 p0] by simp
  have ok: "legacy_request_valid ?a ?q"
    using assms(1,6) by (simp add: legacy_request_valid_def legacy_request_ok_def legacy_beacon_ok_def)
  have len: "length (legacy_request_wire ?a ?q) = 18" by (simp add: legacy_request_wire_def)
  have e: "num8lora_encode_update_request (Some ob) cap (lr_receiver_id c) sid (lr_seq c) (Some ?q) (Some 0) =
      (True, Some (overlay ob 0 (legacy_request_wire ?a ?q)), Some 18)"
    using legacy_request.accepts [OF ok, of cap ob 0] assms(4,5) len by (simp add: pack_unicast_def)
  have "\<not> cap < 18" using assms(4) by (simp add: word_less_nat_alt)
  then show ?thesis
    by (auto simp: legacy_receiver_handle_beacon_def Let_def c d e after_beacon_def)
qed

subsection \<open>The request\<close>

lemma handle_request_exact:
  assumes "legacy_request_valid (rid, ls_sender_id c, sq) q"
    and "take (unat n) b = legacy_request_wire (rid, ls_sender_id c, sq) q" "unat n \<le> length b"
    and "ls_state c \<noteq> NUM8LORA_SENDER_IDLE" "loaded c rs as"
    and "q_requested_update_id q = u_update_id (ls_update_hdr c)"
    and "q_receiver_dataset_ver q = u_dataset_version_from (ls_update_hdr c)"
    and "update_size (ls_update_hdr c) \<le> unat cap" "unat cap \<le> length ob" "length ob < 2 ^ 32"
  shows "num8lora_sender_handle_update_request (Some c) (Some b) n (Some ob) cap (Some l) =
    (True, Some (c\<lparr>ls_seq := ls_seq c + 1, ls_target_receiver_id := rid, ls_state := NUM8LORA_SENDER_WAIT_ACK,
       ls_retries := 0\<rparr>),
     Some (overlay ob 0 (update_wire (ls_sender_id c, rid, ls_seq c) (ls_update_hdr c) rs as)),
     Some (of_nat (update_size (ls_update_hdr c))))"
proof -
  let ?u = "ls_update_hdr c"
  have state: "(ls_state c \<noteq> NUM8LORA_SENDER_WAIT_REQUEST \<and> ls_state c \<noteq> NUM8LORA_SENDER_WAIT_ACK) = False"
    using assms(4) by (cases "ls_state c") simp_all
  have f: "take (unat n) b = frame NUM8LORA_MSG_UPDATE_REQUEST rid (ls_sender_id c) sq (legacy_request_bytes q)"
    using assms(2) by (simp add: legacy_request_wire_def)
  have ids: "rid \<noteq> 0" "ls_sender_id c \<noteq> 0" "u_update_id ?u \<noteq> 0"
    using assms(1,6) by (simp_all add: legacy_request_valid_def legacy_request_ok_def)
  have c: "num8lora_classify_frame (Some b) n (ls_sender_id c) NUM8LORA_MSG_UPDATE_REQUEST
      (Some zero_common_header) (Some NUM8LORA_ERR_NONE)
      = (True, Some (legacy_header NUM8LORA_MSG_UPDATE_REQUEST rid (ls_sender_id c) sq), Some NUM8LORA_ERR_NONE)"
    using f unfolding classify_iff [OF assms(3)] by (auto simp: expected_frame_def)
  have d: "num8lora_decode_update_request (Some b) n (Some h0) (Some q0) =
      (True, Some (legacy_header NUM8LORA_MSG_UPDATE_REQUEST rid (ls_sender_id c) sq), Some q)" for h0 q0
    using legacy_request.decode_wire [OF assms(1-3), of h0 q0] by simp
  have u: "update_header_ok ?u" "update_fits ?u rs as"
    "array_at (ls_remove_numbers c) rs" "array_at (ls_add_numbers c) as"
    using assms(5) ids(3) by (simp_all add: loaded_def update_header_ok_def)
  have e: "sender_emit_update c rid (ls_seq c) (Some ob) cap (Some 0) =
      (True, Some (overlay ob 0 (update_wire (ls_sender_id c, rid, ls_seq c) ?u rs as)), Some (of_nat (update_size ?u)))"
    unfolding sender_emit_update_def
    by (rule encode_update_accepts [OF ids(2,1) u(1,2) assms(8-10) u(3,4)])
  have "\<not> cap < 26 + 4 * ucast (u_remove_count ?u) + 4 * ucast (u_add_count ?u)"
    using assms(8) by (simp add: word_less_nat_alt update_size_word)
  then show ?thesis
    unfolding num8lora_sender_handle_update_request_def Let_def store_simps option.case prod.case state c
    by (simp add: d e assms(6,7))
qed

text \<open>A request for another update or from another version is answered with a NACK and ends the transfer.\<close>

lemma handle_request_mismatch:
  assumes "legacy_request_valid (rid, ls_sender_id c, sq) q"
    and "take (unat n) b = legacy_request_wire (rid, ls_sender_id c, sq) q" "unat n \<le> length b"
    and "ls_state c \<noteq> NUM8LORA_SENDER_IDLE"
    and "q_requested_update_id q \<noteq> u_update_id (ls_update_hdr c)
      \<or> q_receiver_dataset_ver q \<noteq> u_dataset_version_from (ls_update_hdr c)"
    and "18 \<le> unat cap" "unat cap \<le> length ob"
  shows "num8lora_sender_handle_update_request (Some c) (Some b) n (Some ob) cap (Some l) =
    (let err = if q_requested_update_id q \<noteq> u_update_id (ls_update_hdr c) then NUM8LORA_ERR_UPDATE_ID_UNKNOWN
       else NUM8LORA_ERR_DATASET_VERSION_MISMATCH in
     (True, Some (c\<lparr>ls_last_nack_error := err, ls_seq := ls_seq c + 1, ls_state := NUM8LORA_SENDER_IDLE\<rparr>),
      Some (overlay ob 0 (legacy_nack_wire (ls_sender_id c, rid, ls_seq c)
        \<lparr>n_nack_update_id = q_requested_update_id q, n_error_code = err, n_detail = 0\<rparr>)), Some 18))"
proof -
  have state: "(ls_state c \<noteq> NUM8LORA_SENDER_WAIT_REQUEST \<and> ls_state c \<noteq> NUM8LORA_SENDER_WAIT_ACK) = False"
    using assms(4) by (cases "ls_state c") simp_all
  have f: "take (unat n) b = frame NUM8LORA_MSG_UPDATE_REQUEST rid (ls_sender_id c) sq (legacy_request_bytes q)"
    using assms(2) by (simp add: legacy_request_wire_def)
  have c: "num8lora_classify_frame (Some b) n (ls_sender_id c) NUM8LORA_MSG_UPDATE_REQUEST
      (Some zero_common_header) (Some NUM8LORA_ERR_NONE)
      = (True, Some (legacy_header NUM8LORA_MSG_UPDATE_REQUEST rid (ls_sender_id c) sq), Some NUM8LORA_ERR_NONE)"
    using f unfolding classify_iff [OF assms(3)] by (auto simp: expected_frame_def)
  have d: "num8lora_decode_update_request (Some b) n (Some h0) (Some q0) =
      (True, Some (legacy_header NUM8LORA_MSG_UPDATE_REQUEST rid (ls_sender_id c) sq), Some q)" for h0 q0
    using legacy_request.decode_wire [OF assms(1-3), of h0 q0] by simp
  have ids: "rid \<noteq> 0" "ls_sender_id c \<noteq> 0" "q_requested_update_id q \<noteq> 0"
    using assms(1) by (simp_all add: legacy_request_valid_def legacy_request_ok_def)
  have e: "num8lora_encode_nack (Some ob) cap (ls_sender_id c) rid (ls_seq c)
      (Some \<lparr>n_nack_update_id = q_requested_update_id q, n_error_code = err, n_detail = 0\<rparr>) (Some 0) =
    (True, Some (overlay ob 0 (legacy_nack_wire (ls_sender_id c, rid, ls_seq c)
        \<lparr>n_nack_update_id = q_requested_update_id q, n_error_code = err, n_detail = 0\<rparr>)), Some 18)" for err
    using legacy_nack.accepts [of "(ls_sender_id c, rid, ls_seq c)"
        "\<lparr>n_nack_update_id = q_requested_update_id q, n_error_code = err, n_detail = 0\<rparr>" cap ob 0] assms(6,7) ids
    by (simp add: legacy_nack_valid_def legacy_nack_ok_def legacy_nack_wire_def pack_unicast_def)
  have wide: "\<not> cap < 18" using assms(6) by (simp add: word_less_nat_alt)
  show ?thesis
  proof (cases "q_requested_update_id q = u_update_id (ls_update_hdr c)")
    case True
    then show ?thesis
      using assms(5) wide
      unfolding num8lora_sender_handle_update_request_def Let_def store_simps option.case prod.case state c
      by (simp add: d e [unfolded True])
  next
    case False
    then show ?thesis
      using wide
      unfolding num8lora_sender_handle_update_request_def Let_def store_simps option.case prod.case state c
      by (simp add: d e)
  qed
qed

subsection \<open>The data\<close>

text \<open>A receiver that answered the beacon of a sender accepts the data this sender then sends.\<close>

lemma announced_is_acceptable:
  assumes "loaded c rs as" "u_update_id (ls_update_hdr c) \<noteq> 0" "ls_sender_id c \<noteq> 0"
    and "lr_receiver_id r \<noteq> 0" "lr_expected_sender_id r \<noteq> 0 \<longrightarrow> ls_sender_id c = lr_expected_sender_id r"
    and "u_dataset_version_from (ls_update_hdr c) = lr_local_dataset_version r"
    and "u_update_id (ls_update_hdr c) \<noteq> lr_last_applied_update_id r"
  shows "acceptable (after_beacon r (beacon_of c)) (ls_sender_id c, lr_receiver_id r, sq) (ls_update_hdr c) rs as"
proof -
  have fits: "update_fits (ls_update_hdr c) rs as" using assms(1) by (simp add: loaded_def)
  have "unat (ucast (announced_size (u_remove_count (ls_update_hdr c)) (u_add_count (ls_update_hdr c))) :: u16)
      = 16 + 4 * (length rs + length as)"
    using payload_size_16 [OF fits, THEN iffD1, OF refl] by (simp add: update_payload_size_def announced_size_def)
  then show ?thesis
    using assms fits
    by (auto simp: after_beacon_def beacon_of_def Let_def loaded_def update_header_ok_def is_announced_def
      update_fits_def not_le)
qed

subsection \<open>The answer\<close>

lemma handle_ack_exact:
  assumes "legacy_ack_valid (rid, ls_sender_id c, sq) p"
    and "take (unat n) b = legacy_ack_wire (rid, ls_sender_id c, sq) p" "unat n \<le> length b"
    and "ls_state c = NUM8LORA_SENDER_WAIT_ACK"
  shows "num8lora_sender_handle_ack_or_nack (Some c) (Some b) n (Some r) x =
    (if a_ack_update_id p = u_update_id (ls_update_hdr c)
        \<and> a_receiver_dataset_ver p = u_dataset_version_to (ls_update_hdr c)
     then (True, Some (c\<lparr>ls_state := NUM8LORA_SENDER_IDLE, ls_retries := 0\<rparr>), Some NUM8LORA_ACKRES_APPLIED,
       store NUM8LORA_ERR_NONE x)
     else (False, Some c, Some NUM8LORA_ACKRES_NONE, store NUM8LORA_ERR_NONE x))"
proof -
  have f: "take (unat n) b = frame NUM8LORA_MSG_ACK rid (ls_sender_id c) sq (legacy_ack_bytes p)"
    using assms(2) by (simp add: legacy_ack_wire_def)
  have c: "num8lora_classify_frame (Some b) n (ls_sender_id c) 0
      (Some zero_common_header) (Some NUM8LORA_ERR_NONE)
      = (True, Some (legacy_header NUM8LORA_MSG_ACK rid (ls_sender_id c) sq), Some NUM8LORA_ERR_NONE)"
    using f unfolding classify_iff [OF assms(3)] by (auto simp: expected_frame_def)
  have d: "num8lora_decode_ack (Some b) n (Some h0) (Some p0) =
      (True, Some (legacy_header NUM8LORA_MSG_ACK rid (ls_sender_id c) sq), Some p)" for h0 p0
    using legacy_ack.decode_wire [OF assms(1-3), of h0 p0] by simp
  show ?thesis
    by (simp add: num8lora_sender_handle_ack_or_nack_def Let_def assms(4) c d)
qed

text \<open>A timeout within the budget sends the update again, with the next sequence number.\<close>

lemma ack_timeout_resends:
  assumes "ls_state c = NUM8LORA_SENDER_WAIT_ACK" "ls_retries c < ls_max_retries c" "loaded c rs as"
    and "ls_sender_id c \<noteq> 0" "ls_target_receiver_id c \<noteq> 0" "u_update_id (ls_update_hdr c) \<noteq> 0"
    and "update_size (ls_update_hdr c) \<le> unat cap" "unat cap \<le> length ob" "length ob < 2 ^ 32"
  shows "num8lora_sender_on_ack_timeout (Some c) (Some ob) cap (Some l) =
    (True, Some (c\<lparr>ls_retries := ls_retries c + 1, ls_seq := ls_seq c + 1\<rparr>),
     Some (overlay ob 0 (update_wire (ls_sender_id c, ls_target_receiver_id c, ls_seq c) (ls_update_hdr c) rs as)),
     Some (of_nat (update_size (ls_update_hdr c))))"
proof -
  have u: "update_header_ok (ls_update_hdr c)" "update_fits (ls_update_hdr c) rs as"
    "array_at (ls_remove_numbers c) rs" "array_at (ls_add_numbers c) as"
    using assms(3,6) by (simp_all add: loaded_def update_header_ok_def)
  show ?thesis
    using assms(1,2) encode_update_accepts [OF assms(4,5) u(1,2) assms(7-9) u(3,4), of "ls_seq c" 0]
    by (simp add: num8lora_sender_on_ack_timeout_def sender_emit_update_def Let_def not_le [symmetric])
qed

text \<open>A receiver without an expected sender addresses its retry to sender 0, which no frame may carry.\<close>

lemma update_timeout_any_sender:
  assumes "lr_expected_sender_id c = 0" "unat cap \<le> length ob"
    and "num8lora_receiver_on_update_timeout (Some c) (Some ob) cap (Some l) = (ok, c', b', l')"
  shows "\<not> ok \<and> b' = Some ob \<and> l' = Some 0"
proof -
  have "num8lora_encode_update_request (Some ob) cap rid 0 sq (Some q) (Some 0) = (False, Some ob, Some 0)" for rid sq q
    using legacy_request.rejects [of "(rid, 0, sq)" q cap ob 0]
    by (simp add: pack_unicast_def legacy_request_valid_def)
  then show ?thesis
    using assms(1,3)
    by (auto simp: num8lora_receiver_on_update_timeout_def Let_def split: if_splits)
qed

subsection \<open>The exchange\<close>

text \<open>
  The calls of the two applications when nothing is lost, with fresh buffers of the size of the largest
  frame. The result is the two contexts, the engine and what the sender was told.
\<close>

definition frame_buffer :: "u8 list" where
  "frame_buffer = replicate 2066 0"

definition legacy_exchange ::
  "'e engine_op \<Rightarrow> 'e engine_op \<Rightarrow> ('e \<Rightarrow> num8_status \<times> 'e)
    \<Rightarrow> num8lora_sender_ctx \<Rightarrow> num8lora_receiver_ctx \<Rightarrow> 'e
    \<Rightarrow> num8lora_sender_ctx ptr \<times> num8lora_receiver_ctx ptr \<times> 'e ptr \<times> num8lora_sender_ack_result ptr" where
  "legacy_exchange num8_add_u32 num8_remove_u32 num8_flush s r e =
    (case legacy_sender_build_beacon (Some s) (Some frame_buffer) 2066 (Some 0) of (_, s, b, n) \<Rightarrow>
     case legacy_receiver_handle_beacon (Some r) b (the n) (Some frame_buffer) 2066 (Some 0) of (_, r, b, n) \<Rightarrow>
     case num8lora_sender_handle_update_request s b (the n) (Some frame_buffer) 2066 (Some 0) of (_, s, b, n) \<Rightarrow>
     case num8lora_receiver_apply_update_data_to_num8 num8_add_u32 num8_remove_u32 num8_flush r (Some e) b (the n)
       (Some frame_buffer) 2066 (Some 0) (Some NUM8LORA_ERR_NONE) of (_, r, e, b, n, _) \<Rightarrow>
     case num8lora_sender_handle_ack_or_nack s b (the n) (Some NUM8LORA_ACKRES_NONE) None of (_, s, x, _) \<Rightarrow>
       (s, r, e, x))"

lemma take_frame_buffer:
  assumes "length w = unat n" "length w \<le> 2066"
  shows "take (unat (n :: u32)) (overlay frame_buffer 0 w) = w"
    and "unat n \<le> length (overlay frame_buffer 0 w)"
  using assms by (simp_all add: frame_buffer_def overlay_0)

lemma exchange_sizes:
  "28 \<le> unat (2066 :: u32)" "18 \<le> unat (2066 :: u32)" "unat (2066 :: u32) \<le> length frame_buffer"
  "update_size u \<le> unat (2066 :: u32)" "length frame_buffer < 2 ^ 32"
  using update_size_less [of u] by (simp_all add: frame_buffer_def)

text \<open>A sender that has the update \<open>u\<close> for a receiver that has not.\<close>

definition ready :: "num8lora_sender_ctx \<Rightarrow> u32 list \<Rightarrow> u32 list \<Rightarrow> num8lora_receiver_ctx \<Rightarrow> bool" where
  "ready s rs as r \<longleftrightarrow> ls_state s \<noteq> NUM8LORA_SENDER_IDLE \<and> loaded s rs as \<and> ls_sender_id s \<noteq> 0
    \<and> u_update_id (ls_update_hdr s) \<noteq> 0 \<and> lr_receiver_id r \<noteq> 0
    \<and> (lr_expected_sender_id r = 0 \<or> ls_sender_id s = lr_expected_sender_id r)
    \<and> lr_local_dataset_version r = u_dataset_version_from (ls_update_hdr s)
    \<and> u_update_id (ls_update_hdr s) \<noteq> lr_last_applied_update_id r"

lemma readyD:
  assumes "ready s rs as r"
  shows "u_dataset_version_from (ls_update_hdr s) < u_dataset_version_to (ls_update_hdr s)"
    "update_fits (ls_update_hdr s) rs as" "u_dataset_version_to (ls_update_hdr s) \<noteq> 0"
  using assms by (auto simp: ready_def loaded_def)

text \<open>The four frames.\<close>

definition exchange_beacon :: "num8lora_sender_ctx \<Rightarrow> u8 list" where
  "exchange_beacon s = legacy_beacon_wire (ls_sender_id s, ls_seq s) (beacon_of s)"

definition exchange_request :: "num8lora_sender_ctx \<Rightarrow> num8lora_receiver_ctx \<Rightarrow> u8 list" where
  "exchange_request s r = legacy_request_wire (lr_receiver_id r, ls_sender_id s, lr_seq r)
    \<lparr>q_requested_update_id = u_update_id (ls_update_hdr s),
     q_receiver_dataset_ver = u_dataset_version_from (ls_update_hdr s)\<rparr>"

definition exchange_data :: "num8lora_sender_ctx \<Rightarrow> u32 list \<Rightarrow> u32 list \<Rightarrow> num8lora_receiver_ctx \<Rightarrow> u8 list" where
  "exchange_data s rs as r = update_wire (ls_sender_id s, lr_receiver_id r, ls_seq s + 1) (ls_update_hdr s) rs as"

definition exchange_ack :: "num8lora_sender_ctx \<Rightarrow> num8lora_receiver_ctx \<Rightarrow> u8 list" where
  "exchange_ack s r = legacy_ack_wire (lr_receiver_id r, ls_sender_id s, lr_seq r + 1)
    \<lparr>a_ack_update_id = u_update_id (ls_update_hdr s),
     a_receiver_dataset_ver = u_dataset_version_to (ls_update_hdr s)\<rparr>"

lemma exchange_lengths [simp]:
  "length (exchange_beacon s) = 28" "length (exchange_request s r) = 18" "length (exchange_ack s r) = 18"
  by (simp_all add: exchange_beacon_def exchange_request_def exchange_ack_def legacy_request_wire_def
    legacy_ack_wire_def)

lemma exchange_beacon_sent:
  assumes "ready s rs as r"
  shows "legacy_sender_build_beacon (Some s) (Some frame_buffer) 2066 (Some 0) =
    (True, Some (s\<lparr>ls_seq := ls_seq s + 1\<rparr>), Some (overlay frame_buffer 0 (exchange_beacon s)), Some 28)"
  unfolding exchange_beacon_def
  using assms by (intro build_beacon_exact [where rs = rs and as = as] exchange_sizes) (simp_all add: ready_def)

lemma exchange_beacon_answered:
  assumes "ready s rs as r"
  shows "legacy_receiver_handle_beacon (Some r) (Some (overlay frame_buffer 0 (exchange_beacon s))) 28
      (Some frame_buffer) 2066 (Some 0) =
    (True, Some (after_beacon r (beacon_of s)), Some (overlay frame_buffer 0 (exchange_request s r)), Some 18)"
proof -
  let ?b = "overlay frame_buffer 0 (exchange_beacon s)"
  have valid: "legacy_beacon_valid (ls_sender_id s, ls_seq s) (beacon_of s)"
    using assms readyD(1) [OF assms]
    by (simp add: ready_def legacy_beacon_ok_def beacon_of_def Let_def announced_size_fits)
  have frame: "take (unat (28 :: u32)) ?b = legacy_beacon_wire (ls_sender_id s, ls_seq s) (beacon_of s)"
    "unat (28 :: u32) \<le> length ?b"
    using take_frame_buffer [of "exchange_beacon s" 28] by (simp_all add: exchange_beacon_def)
  have id: "lr_receiver_id r \<noteq> 0" using assms by (simp add: ready_def)
  have hear: "((lr_expected_sender_id r \<noteq> 0 \<and> ls_sender_id s \<noteq> lr_expected_sender_id r)
      \<or> b_dataset_version_to (beacon_of s) \<le> lr_local_dataset_version r) = False"
    using assms readyD(1) [OF assms] by (auto simp: ready_def beacon_of_def Let_def)
  show ?thesis
    unfolding handle_beacon_exact [OF valid frame exchange_sizes(2,3) id, of 0] hear
    using assms by (simp add: ready_def exchange_request_def beacon_of_def Let_def)
qed

lemma exchange_request_served:
  assumes "ready s rs as r"
  shows "num8lora_sender_handle_update_request (Some (s\<lparr>ls_seq := ls_seq s + 1\<rparr>))
      (Some (overlay frame_buffer 0 (exchange_request s r))) 18 (Some frame_buffer) 2066 (Some 0) =
    (True, Some (s\<lparr>ls_seq := ls_seq s + 2, ls_target_receiver_id := lr_receiver_id r,
       ls_state := NUM8LORA_SENDER_WAIT_ACK, ls_retries := 0\<rparr>),
     Some (overlay frame_buffer 0 (exchange_data s rs as r)), Some (of_nat (update_size (ls_update_hdr s))))"
proof -
  let ?s = "s\<lparr>ls_seq := ls_seq s + 1\<rparr>" and ?b = "overlay frame_buffer 0 (exchange_request s r)"
  let ?a = "(lr_receiver_id r, ls_sender_id ?s, lr_seq r)"
  let ?q = "\<lparr>q_requested_update_id = u_update_id (ls_update_hdr s),
    q_receiver_dataset_ver = u_dataset_version_from (ls_update_hdr s)\<rparr>"
  have valid: "legacy_request_valid ?a ?q"
    using assms by (simp add: ready_def legacy_request_valid_def legacy_request_ok_def)
  have wire: "legacy_request_wire ?a ?q = exchange_request s r" by (simp add: exchange_request_def)
  have frame: "take (unat (18 :: u32)) ?b = legacy_request_wire ?a ?q" "unat (18 :: u32) \<le> length ?b"
    unfolding wire using take_frame_buffer [of "exchange_request s r" 18] by simp_all
  have "ls_state ?s \<noteq> NUM8LORA_SENDER_IDLE" "loaded ?s rs as"
    using assms by (simp_all add: ready_def loaded_def)
  then show ?thesis
    using handle_request_exact [OF valid frame, of rs as 2066 frame_buffer 0]
      exchange_sizes(3,5) exchange_sizes(4) [of "ls_update_hdr s"]
    by (simp add: exchange_data_def add.assoc)
qed

lemma exchange_data_applied:
  assumes "ready s rs as r" "run_update add remove flush e rs as = (True, e')"
  shows "num8lora_receiver_apply_update_data_to_num8 add remove flush (Some (after_beacon r (beacon_of s))) (Some e)
      (Some (overlay frame_buffer 0 (exchange_data s rs as r))) (of_nat (update_size (ls_update_hdr s)))
      (Some frame_buffer) 2066 (Some 0) (Some NUM8LORA_ERR_NONE) =
    (True, Some (after_update (after_beacon r (beacon_of s)) (ls_sender_id s) (ls_update_hdr s)), Some e',
     Some (overlay frame_buffer 0 (exchange_ack s r)), Some 18, Some NUM8LORA_ERR_NONE)"
proof -
  let ?n = "of_nat (update_size (ls_update_hdr s)) :: u32" and ?b = "overlay frame_buffer 0 (exchange_data s rs as r)"
  let ?a = "(ls_sender_id s, lr_receiver_id r, ls_seq s + 1)"
  have "length (exchange_data s rs as r) = update_size (ls_update_hdr s)" "unat ?n = update_size (ls_update_hdr s)"
    using length_update_wire [OF readyD(2) [OF assms(1)], of ?a] update_size_less [of "ls_update_hdr s"]
    by (simp_all add: exchange_data_def unat_of_nat)
  then have frame: "take (unat ?n) ?b = update_wire ?a (ls_update_hdr s) rs as" "unat ?n \<le> length ?b"
    using take_frame_buffer [of "exchange_data s rs as r" ?n] update_size_less [of "ls_update_hdr s"]
    by (simp_all add: exchange_data_def)
  have acc: "acceptable (after_beacon r (beacon_of s)) ?a (ls_update_hdr s) rs as"
    using assms(1) by (intro announced_is_acceptable) (auto simp: ready_def)
  have "u_update_id (ls_update_hdr s) \<noteq> lr_last_applied_update_id (after_beacon r (beacon_of s))"
    using assms(1) by (simp add: ready_def after_beacon_def)
  then show ?thesis
    using apply_update_data_accepts [OF acc frame exchange_sizes(2,3), of add remove flush e 0 NUM8LORA_ERR_NONE] assms(2)
    by (simp add: legacy_applied_def exchange_ack_def after_beacon_def)
qed

lemma exchange_ack_handled:
  assumes "ready s rs as r"
  shows "num8lora_sender_handle_ack_or_nack (Some (s\<lparr>ls_seq := ls_seq s + 2,
      ls_target_receiver_id := lr_receiver_id r, ls_state := NUM8LORA_SENDER_WAIT_ACK, ls_retries := 0\<rparr>))
      (Some (overlay frame_buffer 0 (exchange_ack s r))) 18 (Some NUM8LORA_ACKRES_NONE) None =
    (True, Some (s\<lparr>ls_seq := ls_seq s + 2, ls_target_receiver_id := lr_receiver_id r,
       ls_state := NUM8LORA_SENDER_IDLE, ls_retries := 0\<rparr>), Some NUM8LORA_ACKRES_APPLIED, None)"
proof -
  let ?s = "s\<lparr>ls_seq := ls_seq s + 2, ls_target_receiver_id := lr_receiver_id r,
    ls_state := NUM8LORA_SENDER_WAIT_ACK, ls_retries := 0\<rparr>"
  let ?a = "(lr_receiver_id r, ls_sender_id ?s, lr_seq r + 1)" and ?b = "overlay frame_buffer 0 (exchange_ack s r)"
  let ?p = "\<lparr>a_ack_update_id = u_update_id (ls_update_hdr s),
    a_receiver_dataset_ver = u_dataset_version_to (ls_update_hdr s)\<rparr>"
  have valid: "legacy_ack_valid ?a ?p"
    using assms readyD(3) [OF assms] by (simp add: ready_def legacy_ack_valid_def legacy_ack_ok_def)
  have wire: "legacy_ack_wire ?a ?p = exchange_ack s r" by (simp add: exchange_ack_def)
  have frame: "take (unat (18 :: u32)) ?b = legacy_ack_wire ?a ?p" "unat (18 :: u32) \<le> length ?b"
    unfolding wire using take_frame_buffer [of "exchange_ack s r" 18] by simp_all
  show ?thesis
    using handle_ack_exact [OF valid frame, of NUM8LORA_ACKRES_NONE None] by simp
qed

lemma exchange_exact:
  assumes "ready s rs as r" "run_update add remove flush e rs as = (True, e')"
  shows "legacy_exchange add remove flush s r e =
    (Some (s\<lparr>ls_seq := ls_seq s + 2, ls_target_receiver_id := lr_receiver_id r,
       ls_state := NUM8LORA_SENDER_IDLE, ls_retries := 0\<rparr>),
     Some (after_update (after_beacon r (beacon_of s)) (ls_sender_id s) (ls_update_hdr s)), Some e',
     Some NUM8LORA_ACKRES_APPLIED)"
  unfolding legacy_exchange_def exchange_beacon_sent [OF assms(1)] prod.case option.sel
    exchange_beacon_answered [OF assms(1)] exchange_request_served [OF assms(1)]
    exchange_data_applied [OF assms] exchange_ack_handled [OF assms(1)] ..

end
