(* ===== verification/Metadata.thy ===== *)
theory Metadata
  imports Wire
begin

text \<open>
  \<open>src/src/num8lora_metadata.c\<close> and \<open>src/include/num8lora_metadata.h\<close>: the 26-byte record in which a
  receiver persists its progress. It holds a magic number, five words and a checksum over the words.
  Every function takes a cell for an error code, which may be NULL, and reports through it.
\<close>

record num8lora_metadata_record =
  m_format_version :: u32
  m_stream_id :: u32
  m_stream_epoch :: u32
  m_last_applied_op_id :: u32
  m_reserved0 :: u32

abbreviation NUM8LORA_METADATA_ERR_NONE :: u16 where "NUM8LORA_METADATA_ERR_NONE \<equiv> 0"
abbreviation NUM8LORA_METADATA_ERR_MAGIC :: u16 where "NUM8LORA_METADATA_ERR_MAGIC \<equiv> 1"
abbreviation NUM8LORA_METADATA_ERR_VERSION :: u16 where "NUM8LORA_METADATA_ERR_VERSION \<equiv> 2"
abbreviation NUM8LORA_METADATA_ERR_RESERVED :: u16 where "NUM8LORA_METADATA_ERR_RESERVED \<equiv> 3"
abbreviation NUM8LORA_METADATA_ERR_CRC :: u16 where "NUM8LORA_METADATA_ERR_CRC \<equiv> 4"
abbreviation NUM8LORA_METADATA_ERR_LENGTH :: u16 where "NUM8LORA_METADATA_ERR_LENGTH \<equiv> 5"
abbreviation NUM8LORA_METADATA_ERR_IO :: u16 where "NUM8LORA_METADATA_ERR_IO \<equiv> 6"
abbreviation NUM8LORA_METADATA_ERR_INTERNAL :: u16 where "NUM8LORA_METADATA_ERR_INTERNAL \<equiv> 7"
abbreviation NUM8LORA_METADATA_FORMAT_VERSION :: u32 where "NUM8LORA_METADATA_FORMAT_VERSION \<equiv> 1"

text \<open>The characters 'N', '8', 'A', 'M' as ASCII codes.\<close>

abbreviation NUM8LORA_METADATA_MAGIC0 :: u8 where "NUM8LORA_METADATA_MAGIC0 \<equiv> 0x4E"
abbreviation NUM8LORA_METADATA_MAGIC1 :: u8 where "NUM8LORA_METADATA_MAGIC1 \<equiv> 0x38"
abbreviation NUM8LORA_METADATA_MAGIC2 :: u8 where "NUM8LORA_METADATA_MAGIC2 \<equiv> 0x41"
abbreviation NUM8LORA_METADATA_MAGIC3 :: u8 where "NUM8LORA_METADATA_MAGIC3 \<equiv> 0x4D"

subsection \<open>The code\<close>

definition num8lora_metadata_record_size :: u32 where
  "num8lora_metadata_record_size = 26"

definition num8lora_metadata_encode_record ::
  "num8lora_metadata_record ptr \<Rightarrow> u8 list ptr \<Rightarrow> u32 \<Rightarrow> u32 ptr \<Rightarrow> u16 ptr
    \<Rightarrow> bool \<times> u8 list ptr \<times> u32 ptr \<times> u16 ptr" where
  "num8lora_metadata_encode_record record out_buf out_cap out_len out_error_code =
    (let out_len = store 0 out_len;
         out_error_code = store NUM8LORA_METADATA_ERR_NONE out_error_code;
         fail = (\<lambda>code. (False, out_buf, out_len, store code out_error_code))
     in case (record, out_buf, out_len) of
       (Some r, Some b, Some _) \<Rightarrow>
         if m_format_version r \<noteq> NUM8LORA_METADATA_FORMAT_VERSION
         then fail NUM8LORA_METADATA_ERR_VERSION
         else if m_reserved0 r \<noteq> 0 then fail NUM8LORA_METADATA_ERR_RESERVED
         else if out_cap < num8lora_metadata_record_size then fail NUM8LORA_METADATA_ERR_LENGTH
         else
           let b = b[0 := NUM8LORA_METADATA_MAGIC0];
               b = b[1 := NUM8LORA_METADATA_MAGIC1];
               b = b[2 := NUM8LORA_METADATA_MAGIC2];
               b = b[3 := NUM8LORA_METADATA_MAGIC3];
               b = num8lora_codec_write_u32_le b 4 (m_format_version r);
               b = num8lora_codec_write_u32_le b 8 (m_reserved0 r);
               b = num8lora_codec_write_u32_le b 12 (m_stream_id r);
               b = num8lora_codec_write_u32_le b 16 (m_stream_epoch r);
               b = num8lora_codec_write_u32_le b 20 (m_last_applied_op_id r);
               crc = num8lora_codec_crc16_ccitt_false (Some (drop 4 b)) 20;
               b = num8lora_codec_write_u16_le b 24 crc
           in (True, Some b, store num8lora_metadata_record_size out_len, out_error_code)
     | _ \<Rightarrow> fail NUM8LORA_METADATA_ERR_INTERNAL)"

definition zero_metadata_record :: num8lora_metadata_record where
  "zero_metadata_record = \<lparr>m_format_version = 0, m_stream_id = 0, m_stream_epoch = 0,
    m_last_applied_op_id = 0, m_reserved0 = 0\<rparr>"

definition num8lora_metadata_decode_record ::
  "u8 list ptr \<Rightarrow> u32 \<Rightarrow> num8lora_metadata_record ptr \<Rightarrow> u16 ptr
    \<Rightarrow> bool \<times> num8lora_metadata_record ptr \<times> u16 ptr" where
  "num8lora_metadata_decode_record buf len out_record out_error_code =
    (let out_record = store zero_metadata_record out_record;
         out_error_code = store NUM8LORA_METADATA_ERR_NONE out_error_code;
         fail = (\<lambda>r code. (False, r, store code out_error_code))
     in case (buf, out_record) of
       (Some b, Some _) \<Rightarrow>
         if len \<noteq> num8lora_metadata_record_size then fail out_record NUM8LORA_METADATA_ERR_LENGTH
         else if b ! 0 \<noteq> NUM8LORA_METADATA_MAGIC0 \<or> b ! 1 \<noteq> NUM8LORA_METADATA_MAGIC1
            \<or> b ! 2 \<noteq> NUM8LORA_METADATA_MAGIC2 \<or> b ! 3 \<noteq> NUM8LORA_METADATA_MAGIC3
         then fail out_record NUM8LORA_METADATA_ERR_MAGIC
         else
           let r = \<lparr>m_format_version = num8lora_codec_read_u32_le b 4,
                 m_stream_id = num8lora_codec_read_u32_le b 12,
                 m_stream_epoch = num8lora_codec_read_u32_le b 16,
                 m_last_applied_op_id = num8lora_codec_read_u32_le b 20,
                 m_reserved0 = num8lora_codec_read_u32_le b 8\<rparr>
           in if m_format_version r \<noteq> NUM8LORA_METADATA_FORMAT_VERSION
              then fail (Some r) NUM8LORA_METADATA_ERR_VERSION
              else if m_reserved0 r \<noteq> 0 then fail (Some r) NUM8LORA_METADATA_ERR_RESERVED
              else if num8lora_codec_crc16_ccitt_false (Some (drop 4 b)) 20
                 \<noteq> num8lora_codec_read_u16_le b 24
              then fail (Some r) NUM8LORA_METADATA_ERR_CRC
              else (True, Some r, out_error_code)
     | _ \<Rightarrow> fail out_record NUM8LORA_METADATA_ERR_INTERNAL)"

definition num8lora_metadata_record_matches_stream ::
  "num8lora_metadata_record ptr \<Rightarrow> u32 \<Rightarrow> u32 \<Rightarrow> u8 ptr \<Rightarrow> bool \<times> u8 ptr" where
  "num8lora_metadata_record_matches_stream record stream_id stream_epoch out_matches =
    (let out_matches = store 0 out_matches in
     case (record, out_matches) of
       (Some r, Some _) \<Rightarrow>
         (True, Some (if m_format_version r = NUM8LORA_METADATA_FORMAT_VERSION
            \<and> m_stream_id r = stream_id \<and> m_stream_epoch r = stream_epoch then 1 else 0))
     | _ \<Rightarrow> (False, out_matches))"

subsection \<open>The record as bytes\<close>

definition metadata_magic :: "u8 list" where
  "metadata_magic = [NUM8LORA_METADATA_MAGIC0, NUM8LORA_METADATA_MAGIC1, NUM8LORA_METADATA_MAGIC2,
    NUM8LORA_METADATA_MAGIC3]"

definition metadata_bytes :: "num8lora_metadata_record \<Rightarrow> u8 list" where
  "metadata_bytes r = le32 (m_format_version r) @ le32 (m_reserved0 r) @ le32 (m_stream_id r)
    @ le32 (m_stream_epoch r) @ le32 (m_last_applied_op_id r)"

definition metadata_parse :: "u8 list \<Rightarrow> num8lora_metadata_record" where
  "metadata_parse b = \<lparr>m_format_version = num8lora_codec_read_u32_le b 0,
    m_stream_id = num8lora_codec_read_u32_le b 8, m_stream_epoch = num8lora_codec_read_u32_le b 12,
    m_last_applied_op_id = num8lora_codec_read_u32_le b 16,
    m_reserved0 = num8lora_codec_read_u32_le b 4\<rparr>"

definition metadata_wire :: "unit \<Rightarrow> num8lora_metadata_record \<Rightarrow> u8 list" where
  "metadata_wire _ r = metadata_magic @ seal (metadata_bytes r)"

definition metadata_valid :: "unit \<Rightarrow> num8lora_metadata_record \<Rightarrow> bool" where
  "metadata_valid _ r \<longleftrightarrow>
    m_format_version r = NUM8LORA_METADATA_FORMAT_VERSION \<and> m_reserved0 r = 0"

lemma length_metadata_magic [simp, width]: "length metadata_magic = 4"
  by (simp add: metadata_magic_def)

interpretation metadata_payload: payload_format metadata_bytes metadata_parse 20
proof
  fix p :: num8lora_metadata_record and rest bs :: "u8 list"
  show "length (metadata_bytes p) = 20"
    by (simp add: metadata_bytes_def)
  show "metadata_parse (metadata_bytes p @ rest) = p"
    by (simp add: metadata_bytes_def metadata_parse_def layout nth_append)
  show "metadata_bytes (metadata_parse bs) = bs" if len: "length bs = 20"
  proof -
    obtain x0 x1 x2 x3 x4 x5 x6 x7 x8 x9 x10 x11 x12 x13 x14 x15 x16 x17 x18 x19 where
      "bs = [x0, x1, x2, x3, x4, x5, x6, x7, x8, x9, x10, x11, x12, x13, x14, x15, x16, x17, x18, x19]"
      using len by (auto simp: numeral_eq_Suc length_Suc_conv)
    then show ?thesis
      by (simp add: metadata_bytes_def metadata_parse_def layout)
  qed
qed

lemma length_metadata_bytes [simp, width]: "length (metadata_bytes r) = 20"
  by (rule metadata_payload.length_print)

lemma length_metadata_wire [simp, width]: "length (metadata_wire a r) = 26"
  by (simp add: metadata_wire_def)

subsection \<open>The record functions meet the codec contract\<close>

text \<open>The encoder and the decoder without the error cell, in the shape of the contract.\<close>

definition metadata_encode ::
  "u8 list ptr \<Rightarrow> u32 \<Rightarrow> unit \<Rightarrow> num8lora_metadata_record ptr \<Rightarrow> u32 ptr
    \<Rightarrow> bool \<times> u8 list ptr \<times> u32 ptr" where
  "metadata_encode b cap a p l =
    (case num8lora_metadata_encode_record p b cap l None of (ok, b, l, _) \<Rightarrow> (ok, b, l))"

definition metadata_decode ::
  "u8 list ptr \<Rightarrow> u32 \<Rightarrow> unit ptr \<Rightarrow> num8lora_metadata_record ptr
    \<Rightarrow> bool \<times> unit ptr \<times> num8lora_metadata_record ptr" where
  "metadata_decode b n h p =
    (case num8lora_metadata_decode_record b n p None of (ok, p, _) \<Rightarrow> (ok, h, p))"

text \<open>The error cell carries the reason and does not influence anything else.\<close>

definition metadata_encode_error :: "num8lora_metadata_record \<Rightarrow> u32 \<Rightarrow> u16" where
  "metadata_encode_error r cap =
    (if m_format_version r \<noteq> NUM8LORA_METADATA_FORMAT_VERSION then NUM8LORA_METADATA_ERR_VERSION
     else if m_reserved0 r \<noteq> 0 then NUM8LORA_METADATA_ERR_RESERVED
     else if cap < 26 then NUM8LORA_METADATA_ERR_LENGTH
     else NUM8LORA_METADATA_ERR_NONE)"

lemma encode_record_cases:
  assumes "unat cap \<le> length b"
  shows "num8lora_metadata_encode_record (Some r) (Some b) cap (Some l) e =
    (let c = metadata_encode_error r cap in
     if c = NUM8LORA_METADATA_ERR_NONE
     then (True, Some (overlay b 0 (metadata_wire () r)), Some 26, store c e)
     else (False, Some b, Some 0, store c e))"
proof (cases "26 \<le> unat cap")
  case True
  then have "26 \<le> length b" "b \<noteq> []" using assms by auto
  then show ?thesis
    using True
    by (auto simp: num8lora_metadata_encode_record_def metadata_encode_error_def Let_def
      num8lora_metadata_record_size_def update_overlay write_u16_overlay write_u32_overlay
      overlay_overlay metadata_wire_def metadata_magic_def metadata_bytes_def seal_def crc16_is_crc_of
      word_less_nat_alt) (simp add: overlay_0)
qed (auto simp: num8lora_metadata_encode_record_def metadata_encode_error_def Let_def
  num8lora_metadata_record_size_def word_less_nat_alt)

lemma metadata_record_iff:
  assumes "26 \<le> length b"
  shows "take 26 b = metadata_wire () r \<longleftrightarrow>
    take 4 b = metadata_magic \<and> r = metadata_parse (drop 4 b)
    \<and> num8lora_codec_read_u16_le b 24 = crc_of (take 20 (drop 4 b))" (is "?lhs \<longleftrightarrow> ?rhs")
proof -
  let ?f = "take 22 (drop 4 b)"
  have b: "take 26 b = take 4 b @ ?f" by (simp add: take_add [of 4 22 b, simplified])
  have len: "length ?f = 22" using assms by simp
  have "?lhs \<longleftrightarrow> take 4 b = metadata_magic \<and> ?f = seal (metadata_bytes r)"
    unfolding b metadata_wire_def using assms by (intro append_eq_append_conv) simp
  moreover have "?f = seal (metadata_bytes r) \<longleftrightarrow> r = metadata_parse (drop 4 b) \<and> ?f = seal (take 20 ?f)"
  proof
    assume f: "?f = seal (metadata_bytes r)"
    have "take 20 (drop 4 b) = take 20 ?f" by simp
    also have "\<dots> = metadata_bytes r" unfolding f by (simp add: seal_def)
    finally have t: "take 20 (drop 4 b) = metadata_bytes r" .
    have "metadata_parse (drop 4 b) = metadata_parse (take 20 (drop 4 b))"
      using assms by (intro metadata_payload.parse_prefix [symmetric]) simp
    also have "\<dots> = r"
      unfolding t using metadata_payload.parse_print [of r "[]"] by simp
    finally show "r = metadata_parse (drop 4 b) \<and> ?f = seal (take 20 ?f)"
      using f t by (simp add: seal_def)
  next
    assume r: "r = metadata_parse (drop 4 b) \<and> ?f = seal (take 20 ?f)"
    have "metadata_bytes (metadata_parse (take 20 (drop 4 b))) = take 20 (drop 4 b)"
      using assms by (intro metadata_payload.print_parse) simp
    moreover have "metadata_parse (take 20 (drop 4 b)) = metadata_parse (drop 4 b)"
      using assms by (intro metadata_payload.parse_prefix) simp
    ultimately show "?f = seal (metadata_bytes r)" using r by simp
  qed
  moreover have "?f = seal (take 20 ?f) \<longleftrightarrow> num8lora_codec_read_u16_le b 24 = crc_of (take 20 (drop 4 b))"
    using seal_iff [OF len] assms by (simp add: read_u16_take read_drop)
  ultimately show ?thesis by blast
qed

text \<open>The order in which the decoder looks for a reason to refuse.\<close>

definition metadata_decode_error :: "u8 list \<Rightarrow> u32 \<Rightarrow> u16" where
  "metadata_decode_error b n =
    (if n \<noteq> 26 then NUM8LORA_METADATA_ERR_LENGTH
     else if take 4 b \<noteq> metadata_magic then NUM8LORA_METADATA_ERR_MAGIC
     else let r = metadata_parse (drop 4 b) in
       if m_format_version r \<noteq> NUM8LORA_METADATA_FORMAT_VERSION then NUM8LORA_METADATA_ERR_VERSION
       else if m_reserved0 r \<noteq> 0 then NUM8LORA_METADATA_ERR_RESERVED
       else if take 26 b \<noteq> metadata_wire () r then NUM8LORA_METADATA_ERR_CRC
       else NUM8LORA_METADATA_ERR_NONE)"

lemma magic_iff:
  assumes "4 \<le> length b"
  shows "take 4 b = metadata_magic \<longleftrightarrow> b ! 0 = NUM8LORA_METADATA_MAGIC0 \<and> b ! 1 = NUM8LORA_METADATA_MAGIC1
    \<and> b ! 2 = NUM8LORA_METADATA_MAGIC2 \<and> b ! 3 = NUM8LORA_METADATA_MAGIC3"
  using assms by (auto simp: metadata_magic_def numeral_eq_Suc Suc_le_length_iff)

lemma decode_record_cases:
  assumes "unat n \<le> length b"
  shows "num8lora_metadata_decode_record (Some b) n (Some r0) e =
    (let c = metadata_decode_error b n in
     (c = NUM8LORA_METADATA_ERR_NONE,
      Some (if c = NUM8LORA_METADATA_ERR_LENGTH \<or> c = NUM8LORA_METADATA_ERR_MAGIC
        then zero_metadata_record else metadata_parse (drop 4 b)),
      store c e))"
proof (cases "n = 26")
  case True
  with assms have len: "26 \<le> length b" by simp
  have crc: "num8lora_codec_crc16_ccitt_false (Some (drop 4 b)) 20 = crc_of (take 20 (drop 4 b))"
    using len by (simp add: crc16_is_crc_of)
  have r: "metadata_parse (drop 4 b) = \<lparr>m_format_version = num8lora_codec_read_u32_le b 4,
      m_stream_id = num8lora_codec_read_u32_le b 12, m_stream_epoch = num8lora_codec_read_u32_le b 16,
      m_last_applied_op_id = num8lora_codec_read_u32_le b 20,
      m_reserved0 = num8lora_codec_read_u32_le b 8\<rparr>"
    using len by (simp add: metadata_parse_def read_drop)
  have wire: "take 26 b = metadata_wire () (metadata_parse (drop 4 b)) \<longleftrightarrow>
      take 4 b = metadata_magic \<and> num8lora_codec_read_u16_le b 24 = crc_of (take 20 (drop 4 b))"
    using metadata_record_iff [OF len] by blast
  show ?thesis
    using magic_iff [of b] len True
    unfolding num8lora_metadata_decode_record_def metadata_decode_error_def Let_def wire crc
    by (simp add: num8lora_metadata_record_size_def r crc)
qed (simp add: num8lora_metadata_decode_record_def metadata_decode_error_def Let_def
  num8lora_metadata_record_size_def)

lemma metadata_error_none:
  assumes "unat n \<le> length b"
  shows "metadata_decode_error b n = NUM8LORA_METADATA_ERR_NONE \<longleftrightarrow>
    metadata_valid () (metadata_parse (drop 4 b)) \<and> take (unat n) b = metadata_wire () (metadata_parse (drop 4 b))"
proof (cases "n = 26")
  case True
  with assms have len: "26 \<le> length b" by simp
  show ?thesis
    using metadata_record_iff [OF len, of "metadata_parse (drop 4 b)"] True
    by (auto simp: metadata_decode_error_def metadata_valid_def Let_def)
next
  case False
  have "take (unat n) b \<noteq> metadata_wire () r" for r
  proof
    assume "take (unat n) b = metadata_wire () r"
    then have "length (take (unat n) b) = 26" by simp
    with assms False show False by (simp add: word_unat_eq_iff)
  qed
  with False show ?thesis by (simp add: metadata_decode_error_def)
qed

lemma metadata_wire_parse:
  assumes "take (unat n) b = metadata_wire () r" "unat n \<le> length b"
  shows "r = metadata_parse (drop 4 b)"
proof -
  have "length (take (unat n) b) = 26" unfolding assms(1) by simp
  with assms(2) have n: "unat n = 26" by simp
  with assms show ?thesis using metadata_record_iff [of b r] by simp
qed

interpretation metadata: frame_codec metadata_encode metadata_decode "\<lambda>_. ()" metadata_wire metadata_valid
proof
  fix a :: unit and p p0 cap b l n h0 h
  show "metadata_encode (Some b) cap a (Some p) (Some l)
      = (True, Some (overlay b 0 (metadata_wire a p)), Some (of_nat (length (metadata_wire a p))))"
    if "metadata_valid a p" "length (metadata_wire a p) \<le> unat cap" "unat cap \<le> length b"
    using that encode_record_cases [of cap b p l None]
    by (simp add: metadata_encode_def metadata_encode_error_def metadata_valid_def word_less_nat_alt)
  show "metadata_encode (Some b) cap a (Some p) (Some l) = (False, Some b, Some 0)"
    if "\<not> (metadata_valid a p \<and> length (metadata_wire a p) \<le> unat cap)"
    using that by (auto simp: metadata_encode_def num8lora_metadata_encode_record_def Let_def
      metadata_valid_def num8lora_metadata_record_size_def word_less_nat_alt)
  show "metadata_decode (Some b) n (Some h0) (Some p0) = (True, Some h, Some p)
      \<longleftrightarrow> (\<exists>a. h = () \<and> metadata_valid a p \<and> take (unat n) b = metadata_wire a p)"
    if len: "unat n \<le> length b"
  proof -
    have "metadata_decode (Some b) n (Some h0) (Some p0) = (True, Some h, Some p)
        \<longleftrightarrow> metadata_decode_error b n = NUM8LORA_METADATA_ERR_NONE \<and> p = metadata_parse (drop 4 b)"
      by (auto simp: metadata_decode_def decode_record_cases [OF len] Let_def)
    also have "\<dots> \<longleftrightarrow> metadata_valid () p \<and> take (unat n) b = metadata_wire () p"
      unfolding metadata_error_none [OF len] using metadata_wire_parse [OF _ len] by blast
    finally show ?thesis by simp
  qed
  show "\<exists>ok h p. metadata_decode (Some b) n (Some h0) (Some p0) = (ok, Some h, Some p)"
    by (auto simp: metadata_decode_def num8lora_metadata_decode_record_def Let_def)
qed

end
