(* ===== verification/MetaFile.thy ===== *)
theory MetaFile
  imports Metadata
begin

text \<open>
  \<open>src/src/num8lora_meta.c\<close>: the metadata record in a file. Saving writes a temporary file and renames
  it over the old one. The branches for other operating systems than POSIX are left aside.

  The files are a map from paths to contents. What the C library does is data: an \<open>stdio\<close> record says
  which calls of one run fail and how much they transfer, within what the standard allows. A write
  that \<open>fwrite\<close>, \<open>fflush\<close> and \<open>fclose\<close> all report as complete stored every byte; otherwise some prefix
  of it. \<open>rename\<close> is atomic: it succeeds or changes nothing.
\<close>

type_synonym files = "string \<Rightarrow> u8 list option"

record stdio =
  io_fopen :: bool
  io_fwrite :: nat
  io_fflush :: bool
  io_fclose :: bool
  io_stored :: nat
  io_rename :: bool
  io_remove :: bool
  io_fread :: nat
  io_fgetc :: bool

text \<open>A C string is the list of its characters without the terminator; \<open>out\<close> is the temporary path.\<close>

definition build_temp_path :: "bool \<Rightarrow> nat \<Rightarrow> string ptr \<Rightarrow> string option" where
  "build_temp_path out out_cap path =
    (case path of
       None \<Rightarrow> None
     | Some p \<Rightarrow>
         if \<not> out then None
         else if length p + 4 + 1 > out_cap then None
         else Some (p @ ''.tmp''))"

text \<open>\<open>f\<close> is the path of the open stream; opening it for writing has truncated the file.\<close>

definition write_record_file ::
  "stdio \<Rightarrow> files \<Rightarrow> string ptr \<Rightarrow> u8 list \<Rightarrow> nat \<Rightarrow> bool \<times> files" where
  "write_record_file io fs f buf len =
    (case f of
       None \<Rightarrow> (False, fs)
     | Some path \<Rightarrow>
         let ok = (io_fwrite io = len);
             ok = (if ok then io_fflush io else ok);
             ok = (if \<not> io_fclose io then False else ok)
         in (ok, fs(path \<mapsto> (if ok then take len buf else take (io_stored io) (take len buf)))))"

definition replace_file_atomically ::
  "stdio \<Rightarrow> files \<Rightarrow> string \<Rightarrow> string \<Rightarrow> bool \<times> files" where
  "replace_file_atomically io fs temp_path final_path =
    (case fs temp_path of
       None \<Rightarrow> (False, fs)
     | Some content \<Rightarrow>
         if io_rename io then (True, fs(temp_path := None, final_path := Some content))
         else (False, fs))"

definition remove_file :: "stdio \<Rightarrow> files \<Rightarrow> string \<Rightarrow> files" where
  "remove_file io fs path = (if io_remove io then fs(path := None) else fs)"

definition num8lora_metadata_save_file ::
  "stdio \<Rightarrow> files \<Rightarrow> string ptr \<Rightarrow> num8lora_metadata_record ptr \<Rightarrow> u16 ptr
    \<Rightarrow> bool \<times> files \<times> u16 ptr" where
  "num8lora_metadata_save_file io fs path record out_error_code =
    (let out_error_code = store NUM8LORA_METADATA_ERR_NONE out_error_code;
         fail = (\<lambda>fs code. (False, fs, store code out_error_code))
     in case (path, record) of
       (Some p, Some _) \<Rightarrow>
         (case num8lora_metadata_encode_record record (Some (replicate 26 0)) 26 (Some 0) out_error_code of
           (ok, buf, len, out_error_code) \<Rightarrow>
             if \<not> ok then (False, fs, out_error_code)
             else (case build_temp_path True 1024 path of
               None \<Rightarrow> fail fs NUM8LORA_METADATA_ERR_IO
             | Some temp_path \<Rightarrow>
                 if \<not> io_fopen io then fail fs NUM8LORA_METADATA_ERR_IO
                 else
                   let fs = fs(temp_path \<mapsto> []) in
                   (case write_record_file io fs (Some temp_path) (the buf) (unat (the len)) of
                     (ok, fs) \<Rightarrow>
                       if \<not> ok then fail (remove_file io fs temp_path) NUM8LORA_METADATA_ERR_IO
                       else (case replace_file_atomically io fs temp_path p of
                         (ok, fs) \<Rightarrow>
                           if \<not> ok then fail (remove_file io fs temp_path) NUM8LORA_METADATA_ERR_IO
                           else (True, fs, out_error_code)))))
     | _ \<Rightarrow> fail fs NUM8LORA_METADATA_ERR_INTERNAL)"

text \<open>
  \<open>fread\<close> delivers at most \<open>io_fread\<close> bytes, fewer at the end of the file; \<open>fgetc\<close> reports EOF at the
  end and on an error. A short read leaves the rest of \<open>buf\<close> indeterminate, and nothing looks at it.
\<close>

definition num8lora_metadata_load_file ::
  "stdio \<Rightarrow> files \<Rightarrow> string ptr \<Rightarrow> num8lora_metadata_record ptr \<Rightarrow> u16 ptr
    \<Rightarrow> bool \<times> num8lora_metadata_record ptr \<times> u16 ptr" where
  "num8lora_metadata_load_file io fs path out_record out_error_code =
    (let out_record = store zero_metadata_record out_record;
         out_error_code = store NUM8LORA_METADATA_ERR_NONE out_error_code;
         fail = (\<lambda>code. (False, out_record, store code out_error_code))
     in case (path, out_record) of
       (Some p, Some _) \<Rightarrow>
         (case (if io_fopen io then fs p else None) of
           None \<Rightarrow> fail NUM8LORA_METADATA_ERR_IO
         | Some content \<Rightarrow>
             let buf = take (min 26 (io_fread io)) content in
             if length buf \<noteq> 26 then fail NUM8LORA_METADATA_ERR_LENGTH
             else if io_fgetc io \<and> 26 < length content then fail NUM8LORA_METADATA_ERR_LENGTH
             else if \<not> io_fclose io then fail NUM8LORA_METADATA_ERR_IO
             else num8lora_metadata_decode_record (Some buf) 26 out_record out_error_code)
     | _ \<Rightarrow> fail NUM8LORA_METADATA_ERR_INTERNAL)"

subsection \<open>Saving\<close>

text \<open>Every call that may fail, succeeding.\<close>

definition io_fine :: "stdio \<Rightarrow> bool" where
  "io_fine io \<longleftrightarrow> io_fopen io \<and> io_fwrite io = 26 \<and> io_fflush io \<and> io_fclose io \<and> io_rename io
    \<and> 26 \<le> io_fread io \<and> io_fgetc io"

lemma temp_path_differs: "p @ ''.tmp'' \<noteq> p"
  by simp

text \<open>
  Whatever fails, the file at the path is the old one or the complete new record, and it is the new
  record exactly when success is reported. Besides it only the temporary file can change, and it is
  gone after a success.
\<close>

lemma save_file_cases:
  assumes "num8lora_metadata_save_file io fs (Some p) (Some r) e = (ok, fs', e')"
  shows "(if ok then metadata_valid () r \<and> fs' p = Some (metadata_wire () r) \<and> fs' (p @ ''.tmp'') = None
      else fs' p = fs p)
    \<and> (\<forall>q. q \<noteq> p \<and> q \<noteq> p @ ''.tmp'' \<longrightarrow> fs' q = fs q)"
  using assms
  by (auto simp: num8lora_metadata_save_file_def encode_record_cases Let_def build_temp_path_def
      write_record_file_def replace_file_atomically_def remove_file_def metadata_encode_error_def
      metadata_valid_def overlay_0 split: if_splits option.splits)

lemma save_file_succeeds:
  assumes "io_fine io" "metadata_valid () r" "length p \<le> 1019"
  shows "num8lora_metadata_save_file io fs (Some p) (Some r) e =
    (True, fs(p @ ''.tmp'' := None, p \<mapsto> metadata_wire () r), store NUM8LORA_METADATA_ERR_NONE e)"
  using assms
  by (simp add: num8lora_metadata_save_file_def encode_record_cases Let_def build_temp_path_def
      write_record_file_def replace_file_atomically_def metadata_encode_error_def io_fine_def
      metadata_valid_def overlay_0)

subsection \<open>Loading\<close>

lemma load_file_exact:
  assumes "io_fine io" "fs p = Some content"
  shows "num8lora_metadata_load_file io fs (Some p) (Some r0) e =
    (if length content \<noteq> 26
     then (False, Some zero_metadata_record, store NUM8LORA_METADATA_ERR_LENGTH e)
     else num8lora_metadata_decode_record (Some content) 26 (Some r0) e)"
  using assms
  by (auto simp: num8lora_metadata_load_file_def io_fine_def Let_def num8lora_metadata_decode_record_def)

lemma decode_record_wire:
  assumes "metadata_valid () r"
  shows "num8lora_metadata_decode_record (Some (metadata_wire () r)) 26 (Some r0) e =
    (True, Some r, store NUM8LORA_METADATA_ERR_NONE e)"
proof -
  have len: "unat (26 :: u32) \<le> length (metadata_wire () r)" by simp
  have p: "metadata_parse (drop 4 (metadata_wire () r)) = r"
    using metadata_wire_parse [OF _ len] by simp
  have "metadata_decode_error (metadata_wire () r) 26 = NUM8LORA_METADATA_ERR_NONE"
    using metadata_error_none [OF len] assms p by simp
  then show ?thesis
    unfolding decode_record_cases [OF len] p by simp
qed

end
