(* ===== verification/LegacySamples.thy ===== *)
theory LegacySamples
  imports LegacyExchange MetaFile
begin

text \<open>
  Concrete states of the legacy line used as witnesses: a sender that holds one update, receivers that
  lack it, and the exchange between them on the list engine; a metadata record and two outcomes of the
  standard library. The checksums are left to the lemmas.
\<close>

definition demo_update :: num8lora_update_header where
  "demo_update = \<lparr>u_update_id = 7, u_dataset_version_from = 1, u_dataset_version_to = 2,
    u_remove_count = 1, u_add_count = 2, u_reserved0 = 0\<rparr>"

definition demo_sender :: num8lora_sender_ctx where
  "demo_sender = \<lparr>ls_state = NUM8LORA_SENDER_WAIT_REQUEST, ls_sender_id = 1, ls_target_receiver_id = 2,
    ls_seq = 1, ls_max_retries = 2, ls_retries = 0, ls_update_hdr = demo_update,
    ls_remove_numbers = Some [5], ls_add_numbers = Some [6, 9],
    ls_update_payload_crc16 = crc_of (update_bytes demo_update [5] [6, 9]), ls_last_nack_error = 0\<rparr>"

definition demo_sender_wait :: num8lora_sender_ctx where
  "demo_sender_wait = demo_sender\<lparr>ls_state := NUM8LORA_SENDER_WAIT_ACK\<rparr>"

definition demo_receiver :: "u16 \<Rightarrow> num8lora_receiver_ctx" where
  "demo_receiver i = \<lparr>lr_state = NUM8LORA_RECEIVER_SCAN, lr_receiver_id = i, lr_expected_sender_id = 0,
    lr_seq = 1, lr_max_retries = 3, lr_retries = 0, lr_local_dataset_version = 1,
    lr_last_applied_update_id = 0, lr_last_applied_sender_id = 0, lr_last_applied_receiver_id = i,
    lr_last_applied_dataset_version_from = 0, lr_last_applied_dataset_version_to = 1,
    lr_last_applied_remove_count = 0, lr_last_applied_add_count = 0, lr_last_applied_payload_size = 0,
    lr_last_applied_payload_crc16 = 0, lr_pending_update_id = 0, lr_pending_dataset_version_from = 0,
    lr_pending_dataset_version_to = 0, lr_pending_remove_count = 0, lr_pending_add_count = 0,
    lr_pending_payload_size = 0, lr_pending_payload_crc16 = 0\<rparr>"

definition demo_waiting :: "u16 \<Rightarrow> num8lora_receiver_ctx" where
  "demo_waiting i = after_beacon (demo_receiver i) (beacon_of demo_sender)"

definition demo_updated :: "u16 \<Rightarrow> num8lora_receiver_ctx" where
  "demo_updated i = after_update (demo_waiting i) 1 demo_update"

lemma demo_set_update:
  "num8lora_sender_set_update (legacy_sender_init (Some c0) 1 2) 2 (Some demo_update) (Some [5]) (Some [6, 9]) e
    = (True, Some demo_sender, store NUM8LORA_ERR_NONE e)"
proof -
  have "update_fits demo_update [5] [6, 9]" by (simp add: update_fits_def demo_update_def)
  then show ?thesis
    by (simp add: legacy_sender_init_def set_update_exact batch_error_def valid_number_def)
      (simp add: demo_update_def demo_sender_def word_le_nat_alt)
qed

lemma demo_receiver_init: "legacy_receiver_init (Some c0) i 0 3 1 0 = Some (demo_receiver i)"
  by (simp add: legacy_receiver_init_def demo_receiver_def)

lemma demo_fits: "update_fits demo_update [5] [6, 9]" "update_header_ok demo_update" "batch_ok [5] [6, 9]"
  by (simp_all add: update_fits_def update_header_ok_def batch_ok_def demo_update_def)

lemma demo_loaded: "loaded demo_sender [5] [6, 9]" "loaded demo_sender_wait [5] [6, 9]"
  using demo_fits by (simp_all add: loaded_def demo_sender_def demo_sender_wait_def update_header_ok_def)

lemma demo_ready: "i \<noteq> 0 \<Longrightarrow> ready demo_sender [5] [6, 9] (demo_receiver i)"
  using demo_loaded(1) by (simp add: ready_def demo_receiver_def) (simp add: demo_sender_def demo_update_def)

lemma demo_run: "run_update list_add list_remove list_flush [5, 8] [5] [6, 9] = (True, [9, 6, 8])"
  by (simp add: run_update_def list_add_def list_remove_def list_flush_def)

definition demo_frame :: "u16 \<Rightarrow> u8 list" where
  "demo_frame i = update_wire (1, i, 2) demo_update [5] [6, 9]"

lemma length_demo_frame [simp]: "length (demo_frame i) = 38"
  using length_update_wire [OF demo_fits(1)] by (simp add: demo_frame_def update_size_def demo_update_def)

lemma demo_acceptable: "i \<noteq> 0 \<Longrightarrow> acceptable (demo_waiting i) (1, i, 2) demo_update [5] [6, 9]"
  using announced_is_acceptable [of demo_sender "[5]" "[6, 9]" "demo_receiver i" 2] demo_ready [of i]
  by (simp add: ready_def demo_waiting_def) (simp add: demo_sender_def demo_receiver_def)

lemma demo_applied:
  assumes "i \<noteq> 0"
  shows "num8lora_receiver_apply_update_data_to_num8 list_add list_remove list_flush (Some (demo_waiting i))
      (Some [5, 8]) (Some (demo_frame i)) 38 (Some (replicate 18 0)) 18 (Some 0) (Some 0) =
    legacy_applied (demo_waiting i) 1 demo_update [9, 6, 8] (replicate 18 0) (Some 0)"
proof -
  have frame: "take (unat (38 :: u32)) (demo_frame i) = update_wire (1, i, 2) demo_update [5] [6, 9]"
    "unat (38 :: u32) \<le> length (demo_frame i)"
    using length_demo_frame [of i] by (simp_all add: demo_frame_def)
  have "u_update_id demo_update \<noteq> lr_last_applied_update_id (demo_waiting i)"
    by (simp add: demo_update_def demo_waiting_def after_beacon_def demo_receiver_def)
  then show ?thesis
    using apply_update_data_accepts [OF demo_acceptable [OF assms] frame, of 18 "replicate 18 0" list_add list_remove
      list_flush "[5, 8]" 0 0]
    by (simp add: demo_run)
qed

lemma demo_reached:
  assumes "i \<noteq> 0"
  shows "legacy_reach list_add list_remove list_flush {(demo_update, [5], [6, 9])}
    (demo_receiver i, [5, 8]) (demo_updated i, [9, 6, 8])"
proof -
  let ?step = "legacy_step list_add list_remove list_flush {(demo_update, [5], [6, 9])}"
  have "?step (demo_receiver i, [5, 8]) (demo_waiting i, [5, 8])"
    using exchange_beacon_answered [OF demo_ready [OF assms]]
    by (intro step_beacon) (simp add: demo_waiting_def)
  moreover have "?step (demo_waiting i, [5, 8]) (demo_updated i, [9, 6, 8])"
  proof (rule step_data)
    show "num8lora_receiver_apply_update_data_to_num8 list_add list_remove list_flush (Some (demo_waiting i))
      (Some [5, 8]) (Some (demo_frame i)) 38 (Some (replicate 18 0)) 18 (Some 0) (Some 0) =
      (True, Some (demo_updated i), Some [9, 6, 8],
       Some (overlay (replicate 18 0) 0 (legacy_ack_wire (lr_receiver_id (demo_waiting i), 1, lr_seq (demo_waiting i))
         \<lparr>a_ack_update_id = u_update_id demo_update, a_receiver_dataset_ver = u_dataset_version_to demo_update\<rparr>)),
       Some 18, Some 0)"
      using demo_applied [OF assms] by (simp add: legacy_applied_def demo_updated_def)
    show "(u, rs, as) \<in> {(demo_update, [5], [6, 9])}"
      if "take (unat (38 :: u32)) (demo_frame i) = update_wire a u rs as" "update_header_ok u" "update_fits u rs as"
      for a u rs as
    proof -
      have "take (unat (38 :: u32)) (demo_frame i) = update_wire (1, i, 2) demo_update [5] [6, 9]"
        using length_demo_frame [of i] by (simp add: demo_frame_def)
      from update_wire_unique [OF this _ demo_fits(1,2) that(1,3,2)] show ?thesis by simp
    qed
  qed simp_all
  ultimately show ?thesis by (meson runs.start runs.step)
qed

definition demo_record :: num8lora_metadata_record where
  "demo_record = \<lparr>m_format_version = 1, m_stream_id = 9, m_stream_epoch = 2, m_last_applied_op_id = 4,
    m_reserved0 = 0\<rparr>"

text \<open>A library whose calls all succeed, and one whose disk is full.\<close>

definition demo_io :: stdio where
  "demo_io = \<lparr>io_fopen = True, io_fwrite = 26, io_fflush = True, io_fclose = True, io_stored = 26,
    io_rename = True, io_remove = True, io_fread = 26, io_fgetc = True\<rparr>"

definition demo_io_full :: stdio where
  "demo_io_full = demo_io\<lparr>io_fwrite := 10, io_stored := 10\<rparr>"

end
