(* ===== verification/Limits.thy ===== *)
theory Limits
  imports Progress LegacySamples
begin

text \<open>
  Behaviour at the limits of the code: what happens when a counter is exhausted, a count is truncated
  or an identity is missing. Each lemma states what the code does, also where that is a defect.
\<close>

subsection \<open>The async sender\<close>

text \<open>The id after the largest one is 0, which stands for no operation everywhere else.\<close>

lemma enqueue_wraps:
  assumes "s_ops s = Some xs" "s_latest_op_id s = 0xFFFFFFFF" "v \<le> 99999999"
    and "s_op_count (sender_reclaim_history s) < s_op_capacity s"
  shows "\<exists>s'. num8lora_sender_enqueue_add (Some s) v (Some x) = (True, Some s', Some 0) \<and> s_latest_op_id s' = 0"
proof -
  have "s_op_capacity s \<noteq> 0" "\<not> s_op_capacity s \<le> s_op_count (sender_reclaim_history s)"
    using assms(4) by auto
  then show ?thesis
    using assms(1-3) by (simp add: num8lora_sender_enqueue_add_def enqueue_op_def Let_def not_less [symmetric])
qed

text \<open>A sender at the last sequence number transmits nothing any more.\<close>

lemma beacon_after_last_seq:
  "s_seq s = 0xFFFF \<Longrightarrow> num8lora_sender_build_beacon (Some s) ob cap l = (False, ob, l)"
  by (simp add: num8lora_sender_build_beacon_def)

lemma emit_after_last_seq:
  "s_seq s = 0xFFFF \<Longrightarrow> emit_data s i k ob cap l now = (False, s, ob, l)"
  by (simp add: emit_data_def Let_def split: option.split)

text \<open>With \<open>2 ^ 27\<close> receiver slots of 32 bytes the byte count is 0: the slots stay as the caller left them.\<close>

lemma init_leaves_slots:
  assumes "num8lora_sender_init (Some s0) sid stream timeout retries (Some xs) m (Some ys) 0x8000000 = Some s"
    and "sender_storage_pair_is_valid (Some xs) m 12"
  shows "s_receivers s = Some ys"
proof -
  have "zero_slots ys 0 = ys"
    by (intro nth_equalityI) (simp_all add: zero_slots_def zero_member_def nth_enumerate_eq)
  moreover have "(4294967296 :: u32) = 0" by simp
  ultimately have "zero_slots ys 4294967296 = ys" by metis
  then show ?thesis
    using assms by (auto simp: num8lora_sender_init_def Let_def sender_storage_pair_is_valid_def split: if_splits)
qed

subsection \<open>The legacy line\<close>

text \<open>Update id 0 can be set and then never be announced.\<close>

lemma update_id_zero_settable:
  "\<exists>c. num8lora_sender_set_update (legacy_sender_init (Some c0) 1 2) 2 (Some (demo_update\<lparr>u_update_id := 0\<rparr>))
      (Some [5]) (Some [6, 9]) None = (True, Some c, None)
    \<and> u_update_id (ls_update_hdr c) = 0"
proof -
  have "update_fits (demo_update\<lparr>u_update_id := 0\<rparr>) [5] [6, 9]" by (simp add: update_fits_def demo_update_def)
  then show ?thesis
    by (simp add: legacy_sender_init_def set_update_exact batch_error_def valid_number_def)
      (simp add: demo_update_def word_le_nat_alt)
qed

lemma update_id_zero_never_announced:
  assumes "u_update_id (ls_update_hdr c) = 0" "unat cap \<le> length ob"
  shows "legacy_sender_build_beacon (Some c) (Some ob) cap (Some l) = (False, Some c, Some ob, Some 0)"
proof -
  have "num8lora_encode_beacon (Some ob) cap sid sq (Some p) (Some 0) = (False, Some ob, Some 0)"
    if "b_current_update_id p = 0" for sid sq p
    using legacy_beacon.rejects [of "(sid, sq)" p cap ob 0] that
    by (simp add: pack_broadcast_def legacy_beacon_ok_def)
  then show ?thesis
    using assms(1) by (simp add: legacy_sender_build_beacon_def Let_def)
qed

text \<open>An ACK is believed whoever sends it: \<open>target_receiver_id\<close> plays no part.\<close>

lemma ack_from_any_receiver:
  assumes "legacy_ack_valid (rid, ls_sender_id c, sq) p"
    and "take (unat n) b = legacy_ack_wire (rid, ls_sender_id c, sq) p" "unat n \<le> length b"
    and "ls_state c = NUM8LORA_SENDER_WAIT_ACK" "rid \<noteq> ls_target_receiver_id c"
    and "a_ack_update_id p = u_update_id (ls_update_hdr c)"
    and "a_receiver_dataset_ver p = u_dataset_version_to (ls_update_hdr c)"
  shows "num8lora_sender_handle_ack_or_nack (Some c) (Some b) n (Some r) None =
    (True, Some (c\<lparr>ls_state := NUM8LORA_SENDER_IDLE, ls_retries := 0\<rparr>), Some NUM8LORA_ACKRES_APPLIED, None)"
  using handle_ack_exact [OF assms(1-4), of r None] assms(6,7) by simp

text \<open>After a restart the update applied last is no longer recognised: its repetition is refused.\<close>

lemma restart_forgets_last_update:
  assumes "legacy_receiver_init (Some c0) rid expected retries ver (u_update_id u) = Some c"
  shows "\<not> acceptable c a u rs as"
proof -
  have "lr_last_applied_update_id c = u_update_id u" "lr_last_applied_sender_id c = 0"
    using assms by (auto simp: legacy_receiver_init_def)
  then show ?thesis by (cases a) (auto simp: repeats_last_def is_announced_def)
qed

text \<open>Nor is it when its beacon had announced no checksum, unless its checksum happens to be 0.\<close>

lemma unannounced_checksum_forgotten:
  assumes "lr_pending_payload_crc16 c = 0" "crc_of (update_bytes u rs as) \<noteq> 0"
  shows "\<not> acceptable (after_update c sid u) a u rs as"
proof -
  have "lr_last_applied_update_id (after_update c sid u) = u_update_id u"
    "lr_last_applied_payload_crc16 (after_update c sid u) = 0"
    using assms(1) by (simp_all add: after_update_def)
  then show ?thesis using assms(2) by (cases a) (auto simp: repeats_last_def is_announced_def)
qed

end
