(* ===== verification/Spec2Isabelle.thy ===== *)
theory Spec2Isabelle
  imports Samples Limits
begin

text \<open>
  A verification development for NUM8-LUP, a C library that carries changes to a set of numbers (at
  most eight digits each) from a sender to receivers over a lossy, frame-based link.

  \<^bold>\<open>The program.\<close> There are two protocols over one codec. \<open>src/src/num8lora_codec.c\<close> holds the CRC, the
  little-endian loads and stores and the checked 32-bit arithmetic. The async protocol sends an
  ordered stream of single operations: \<open>src/src/num8lora_op.c\<close> lays out its five frames,
  \<open>src/src/num8lora_sender.c\<close> keeps a ring of numbered operations and a slot per receiver, transmits
  each receiver the operation after the last one it acknowledged, repeats it on a timer and drops
  operations everyone has, and \<open>src/src/num8lora_receiver.c\<close> applies operations through a callback, in
  order, and answers with ACK or NACK frames. The legacy protocol sends whole updates (a list of
  numbers to remove and one to add) that lead from one dataset version to a later one:
  \<open>src/src/num8lora.c\<close> lays out its frames and checks a batch of numbers, \<open>src/src/num8lora_runtime.c\<close>
  has the state machines of both sides, \<open>src/src/num8lora_num8_bridge.c\<close> applies an update to a num8
  engine. \<open>src/src/num8lora_metadata.c\<close> and \<open>src/src/num8lora_meta.c\<close> store the progress of a receiver
  in a file. Sender and receiver share no state: they interact through the bytes of the frames only.

  \<^bold>\<open>The theories of the common base.\<close>
  \<^item> \<open>Prelude\<close>: integers at their width, pointers as options, writes into byte buffers, and the
    generic lemmas on words and lists.
  \<^item> \<open>Codec\<close>: \<open>num8lora_codec.c\<close>. The lemmas give exact arithmetic, the inverse loads and stores,
    and that the CRC changes whenever two adjacent bytes do.
  \<^item> \<open>Wire\<close>: the frame layout (header, payload, checksum) and the interfaces: \<open>payload_format\<close> (a
    printer and its parser), \<open>frame_codec\<close> (an encoder and its decoder), where round trip, canonical
    form, footprints and burst detection are proved once, and \<open>sealed_message\<close> (a message with a
    payload of fixed size), which is a \<open>frame_codec\<close>.
  \<^item> \<open>Runs\<close>: runs of a step relation and two contracts of state machines, \<open>preserved\<close> (an invariant) and
    \<open>simulation\<close> (a simpler machine).
  \<^item> \<open>Engine\<close>: what the code relies on of the num8 engine, as named conditions on its operations.

  \<^bold>\<open>The theories of the async protocol.\<close>
  \<^item> \<open>OpFrame\<close>: \<open>num8lora_op.c\<close>. Each of the five messages is an interpretation of \<open>sealed_message\<close>.
  \<^item> \<open>Receiver\<close>: \<open>num8lora_receiver.c\<close>, with an abstract verdict on DATA frames that the handler
    implements.
  \<^item> \<open>Sender\<close>: the definitions of \<open>num8lora_sender.c\<close>. \<open>SenderLog\<close> proves the ring to be a window of
    the stream of all operations ever enqueued (locale \<open>operation_log\<close>), \<open>SenderSlots\<close> the
    registration functions and the sender invariant, \<open>SenderTx\<close> the frames in and out.
  \<^item> \<open>System\<close>: one sender, any number of receivers and a network that loses, repeats, reorders and
    delays frames and carries noise, as a step relation on the C functions, with its invariant.
    \<open>Progress\<close> shows that undisturbed rounds bring a sole receiver up to date.

  \<^bold>\<open>The theories of the legacy protocol.\<close>
  \<^item> \<open>LegacyFrame\<close> and \<open>LegacyUpdate\<close>: the definitions of \<open>num8lora.c\<close>. \<open>LegacyWire\<close> interprets
    \<open>sealed_message\<close> for beacon, request, ACK and NACK; \<open>LegacyUpdate\<close> treats the UPDATE_DATA frame, whose
    length varies, the batch of numbers, its checksum and the classifier.
  \<^item> \<open>LegacyRuntime\<close> and \<open>LegacyBridge\<close>: the definitions of \<open>num8lora_runtime.c\<close> and
    \<open>num8lora_num8_bridge.c\<close>.
  \<^item> \<open>LegacyReceive\<close>: which frames the receiver accepts (\<open>acceptable\<close>), with the two cases, the announced
    update and a repetition of the last one, spelled out apart from the code's comparisons, which are
    shown to decide them. \<open>LegacyApply\<close>: what it does with
    them. \<open>LegacyReplica\<close>: a step relation of the receiver on any bytes, which simulates an abstract replica
    (a version and a set of numbers); receivers of one publisher at the same version hold the same set.
  \<^item> \<open>LegacySender\<close>: the invariant of the sender over its reachable states (an interpretation of
    \<open>preserved\<close>), the phases of a transfer (of \<open>simulation\<close>) and the end of the retries.
    \<open>LegacyExchange\<close>: both machines together, up to the complete exchange.

  \<^bold>\<open>The theories of the stored progress.\<close> \<open>Metadata\<close> (\<open>num8lora_metadata.c\<close>, an interpretation of
  \<open>frame_codec\<close>) and \<open>MetaFile\<close> (\<open>num8lora_meta.c\<close>). \<open>Samples\<close> and \<open>LegacySamples\<close> hold the concrete states
  of the witnesses, \<open>Limits\<close> what the code does where a counter or a count is exhausted.

  \<^bold>\<open>How C is modelled.\<close> A pointer is an option, \<open>None\<close> is NULL. A caller's buffer is a list of bytes
  and its capacity a separate \<open>u32\<close>; the caller's contract is that the capacity is at most the
  length. A function returns its status and the new contents of all it may write, so output cells that
  a failing call leaves stale are visible. Integers keep their width and wrap. Locals without an
  initialiser are zero here; they are written before they are read. An input buffer may be the output
  buffer too in C: every handler decodes before its first write, so the model keeps them apart. The
  legacy sender keeps pointers to the caller's arrays of numbers; the model stores their contents, so
  the caller must not change them while an update is set. A pointer into a received frame is the
  offset, or the bytes from there on. The application callback and the num8 engine are code outside
  the repository and are parameters; a theorem that needs a cooperative one says so. Files are a map
  from paths to contents, and a record says which calls of the standard library fail in a run and how
  much they transfer; \<open>rename\<close> succeeds or changes nothing. \<open>num8lora_sender_init\<close> clears the caller's
  arrays by a byte count; struct sizes and offsets are those of an LP64 target. The loops are
  structural recursions or folds over index ranges, so no fuel is needed. Functions of the same C name
  in both protocols (they are in different libraries) carry the prefix \<open>legacy_\<close> here.

  \<^bold>\<open>What the system theorems assume.\<close> Async: the sender was initialised with at most \<open>2 ^ 31\<close> ring
  entries and fewer than \<open>2 ^ 27\<close> slots (beyond that the code's own index arithmetic wraps). A receiver
  is registered, and its progress overwritten, with no more than it has applied. Single operations are
  enqueued below operation id \<open>UINT32_MAX\<close> (at that id the code wraps). Noise is any byte string that
  is not a well-formed frame of the stream: the checksum is not a signature. Legacy: a frame that
  parses as an update carries one of the publisher's, the publisher makes one update per version, and
  the engine does what a success it reports says. It may report failures; the theorems on runs then
  speak of the runs in which no call returned \<open>APPLY_FAILED\<close>, since after one the engine is left with
  half an update. Progress of the async protocol is stated for a sole registered receiver and as long as
  sequence numbers are left, since the sender stops for good at \<open>0xFFFF\<close>; a poll serves a receiver when
  the sender can transmit and the buffer holds a DATA frame.

  \<^bold>\<open>Not modelled.\<close> The branches for Windows in \<open>num8lora_meta.c\<close> (they make the same calls under other
  names), the example program, which only calls the library and prints, and the tests.
\<close>

text \<open>
  C1. However the network loses, repeats, reorders or delays frames, each receiver has applied
  exactly the first last_applied_op_id operations of the stream, each once and in order.
\<close>

theorem exactly_once_in_order:
  assumes "sys_start y" "sys_reach f y z" "y_peers z rid = Some p"
  shows "unat (r_last_applied_op_id (p_rx p)) \<le> length (y_stream z)
    \<and> snd (p_app p) = take (unat (r_last_applied_op_id (p_rx p))) (y_stream z)"
  using sys_reach_inv [OF assms(2) sys_inv_start [OF assms(1)]] assms(3)
  by (simp_all add: sys_inv_def peer_ok_def)

theorem exactly_once_in_order_witness:
  "\<exists>z p. sys_reach count_calls demo_start z \<and> y_peers z 7 = Some p \<and> snd (p_app p) = [(1, 5)]
    \<and> snd (p_app p) = take (unat (r_last_applied_op_id (p_rx p))) (y_stream z)"
proof -
  obtain z p where z: "sys_reach count_calls demo_start z" "in_step z 7 0 p" "snd (p_app p) = [(1, 5)]"
    using demo_delivered by blast
  then have p: "y_peers z 7 = Some p" by (simp add: in_step_def Let_def)
  show ?thesis
    using z p exactly_once_in_order [OF demo_start z(1) p] by (intro exI [of _ z] exI [of _ p]) simp
qed



text \<open>
  C3. In every reachable state the sender believes of no registered receiver more than that
  receiver has applied, and no receiver is ahead of the stream.
\<close>

theorem sender_view_truthful:
  assumes "sys_start y" "sys_reach f y z" "i < length (slots (y_tx z))"
    and "sl_active (slots (y_tx z) ! i) \<noteq> 0"
    and "y_peers z (sl_receiver_id (slots (y_tx z) ! i)) = Some p"
  shows "sl_last_acked_op_id (slots (y_tx z) ! i) \<le> r_last_applied_op_id (p_rx p)
    \<and> unat (r_last_applied_op_id (p_rx p)) \<le> length (y_stream z)"
proof -
  have inv: "sys_inv z" by (rule sys_reach_inv [OF assms(2) sys_inv_start [OF assms(1)]])
  then have "slots_truth (slots (y_tx z)) (y_peers z)" by (simp add: sys_inv_def)
  moreover have "slots (y_tx z) ! i \<in> set (slots (y_tx z))" using assms(3) by simp
  ultimately show ?thesis
    using assms(4,5) inv unfolding slots_truth_def by (auto simp: sys_inv_def peer_ok_def)
qed

theorem sender_view_truthful_witness:
  "\<exists>z p. sys_reach count_calls demo_start z \<and> y_peers z 7 = Some p
    \<and> r_last_applied_op_id (p_rx p) = 1 \<and> sl_last_acked_op_id (slots (y_tx z) ! 0) \<le> r_last_applied_op_id (p_rx p)"
proof -
  obtain z p where z: "sys_reach count_calls demo_start z" "in_step z 7 0 p" "y_stream z = [(1, 5)]"
      "snd (p_app p) = [(1, 5)]"
    using demo_delivered by blast
  have st: "0 < length (slots (y_tx z))" "sl_active (slots (y_tx z) ! 0) \<noteq> 0"
      "y_peers z (sl_receiver_id (slots (y_tx z) ! 0)) = Some p" "peer_ok (y_stream z) 7 p"
    using z(2) sender_inv_length [of "y_tx z"] by (auto simp: in_step_def Let_def sys_inv_def)
  have "length (take (unat (r_last_applied_op_id (p_rx p))) [(1, 5) :: u8 \<times> u32]) = 1"
    using st(4) z(3,4) by (simp add: peer_ok_def)
  then have "r_last_applied_op_id (p_rx p) = 1"
    using st(4) z(3) by (simp add: peer_ok_def word_unat_eq_iff)
  moreover have "y_peers z 7 = Some p" using z(2) by (simp add: in_step_def Let_def)
  ultimately show ?thesis
    using z(1) sender_view_truthful [OF demo_start z(1) st(1-3)]
    by (intro exI [of _ z] exI [of _ p]) simp
qed

text \<open>
  C4. Reclaiming history never drops or alters an operation that a registered receiver has yet
  to acknowledge: for every operation id after the last one a registered receiver acknowledged,
  the look-up gives the same entry before and after, and after reclaiming it finds every such
  operation from the oldest retained to the latest one.
\<close>

theorem history_retained:
  assumes "sender_inv s" "i < unat (s_receiver_capacity s)" "sl_active (slots s ! i) \<noteq> 0"
    and "sl_last_acked_op_id (slots s ! i) < k"
  shows "find_op (sender_reclaim_history s) k = find_op s k
    \<and> (find_op (sender_reclaim_history s) k \<noteq> None \<longleftrightarrow> s_oldest_retained_op_id s \<le> k \<and> k \<le> s_latest_op_id s)"
  using reclaim_keeps_needed [OF sender_inv_log [OF assms(1)] assms(2-4)] find_op_log [OF sender_inv_log [OF assms(1)]]
  by simp

theorem history_retained_witness:
  "find_op (sender_reclaim_history demo_tx) 1 = find_op demo_tx 1 \<and> find_op (sender_reclaim_history demo_tx) 1 \<noteq> None"
proof -
  have "0 < unat (s_receiver_capacity demo_tx)" "sl_active (slots demo_tx ! 0) \<noteq> 0"
    "sl_last_acked_op_id (slots demo_tx ! 0) < 1"
    by (simp_all add: demo_defs deref_def)
  moreover have "s_oldest_retained_op_id demo_tx \<le> 1" "1 \<le> s_latest_op_id demo_tx"
    by (simp_all add: demo_defs)
  ultimately show ?thesis
    using history_retained [OF demo_tx_inv(1), of 0 1] by blast
qed

text \<open>
  C5. Whatever frames get lost, repeated, delayed or garbled, and as long as no call reports
  APPLY_FAILED: two legacy receivers that start alike, get updates of one publisher (one update
  per version) and end at the same dataset version hold the same set of numbers. A call reports
  APPLY_FAILED when an engine operation failed; the runs are those without such a call, and the
  engine need do only what a success it reports says.
\<close>

theorem legacy_replicas_agree:
  assumes "adds numbers add" "removes numbers remove" "flush_keeps numbers flush"
    and "linear pub" "legacy_reach add remove flush pub x y" "legacy_reach add remove flush pub x' y'"
    and "lr_local_dataset_version (fst x) = lr_local_dataset_version (fst x')" "numbers (snd x) = numbers (snd x')"
    and "lr_local_dataset_version (fst y) = lr_local_dataset_version (fst y')"
  shows "numbers (snd y) = numbers (snd y')"
proof -
  obtain xs ys where
    xs: "set xs \<subseteq> pub" "chain (lr_local_dataset_version (fst x)) xs (lr_local_dataset_version (fst y))"
      "numbers (snd y) = replay xs (numbers (snd x))" and
    ys: "set ys \<subseteq> pub" "chain (lr_local_dataset_version (fst x')) ys (lr_local_dataset_version (fst y'))"
      "numbers (snd y') = replay ys (numbers (snd x'))"
    using reach_history [OF assms(1-3,5)] reach_history [OF assms(1-3,6)] by blast
  have "xs = ys"
    using chain_unique [OF assms(4) xs(2) _ xs(1) ys(1)] ys(2) assms(7,9) by simp
  then show ?thesis using xs(3) ys(3) assms(8) by simp
qed

theorem legacy_replicas_agree_witness:
  "legacy_reach list_add list_remove list_flush {(demo_update, [5], [6, 9])} (demo_receiver 2, [5, 8])
      (demo_updated 2, [9, 6, 8])
    \<and> set (snd (demo_updated 2, [9, 6, 8 :: u32])) = set (snd (demo_updated 3, [9, 6, 8]))"
proof -
  have "linear {(demo_update, [5], [6, 9])}" by (simp add: linear_def)
  then show ?thesis
    using legacy_replicas_agree [OF list_engine _ demo_reached demo_reached, of 2 3] demo_reached [of 2]
    by (simp add: demo_receiver_def demo_updated_def after_update_def)
qed

text \<open>
  C6. When no frame is lost and every engine operation of the update succeeds, one exchange
  (beacon, request, data, acknowledgement) brings a receiver at the update's base version to its
  target version: the engine has the numbers removed and added, and the sender is told and idle.
  The sender is not idle and holds a legal update with a nonzero id that is not the one the
  receiver applied last; the receiver takes updates from this sender (together: ready).
\<close>

theorem legacy_exchange_applies:
  assumes "adds numbers add" "removes numbers remove" "flush_keeps numbers flush"
    and "ready s rs as r" "run_update add remove flush e rs as = (True, e')"
  shows "\<exists>s' r'. legacy_exchange add remove flush s r e = (Some s', Some r', Some e', Some NUM8LORA_ACKRES_APPLIED)
    \<and> ls_state s' = NUM8LORA_SENDER_IDLE
    \<and> lr_local_dataset_version r' = u_dataset_version_to (ls_update_hdr s)
    \<and> lr_last_applied_update_id r' = u_update_id (ls_update_hdr s)
    \<and> numbers e' = (numbers e - set rs) \<union> set as"
  unfolding exchange_exact [OF assms(4,5)]
  using run_update_effect [OF assms(1-3,5)] by (simp add: after_update_def)

theorem legacy_exchange_applies_witness:
  "\<exists>s' r' e'. legacy_exchange list_add list_remove list_flush demo_sender (demo_receiver 2) [5, 8]
      = (Some s', Some r', Some e', Some NUM8LORA_ACKRES_APPLIED)
    \<and> lr_local_dataset_version r' = 2 \<and> set e' = {6, 8, 9}"
proof -
  have "ready demo_sender [5] [6, 9] (demo_receiver 2)" by (rule demo_ready) simp
  moreover have "ls_update_hdr demo_sender = demo_update" by (simp add: demo_sender_def)
  ultimately show ?thesis
    using legacy_exchange_applies [OF list_engine _ demo_run, of demo_sender "demo_receiver 2"]
    by (auto simp: demo_update_def)
qed

text \<open>
  C7. The receiver's version or its engine changes only for a well-formed UPDATE_DATA frame that
  carries the announced update: same id, versions and counts, a legal batch, and the announced
  checksum when the beacon gave one. The engine may be any.
\<close>

theorem legacy_applies_only_announced:
  assumes "num8lora_receiver_apply_update_data_to_num8 add remove flush (Some c) (Some e) (Some b) n
      (Some ob) cap (Some l) (Some err) = (ok, Some c', Some e', ob', l', err')"
    and "unat n \<le> length b" "unat cap \<le> length ob"
    and "lr_local_dataset_version c' \<noteq> lr_local_dataset_version c \<or> e' \<noteq> e"
  shows "\<exists>sid rid sq u rs as. take (unat n) b = update_wire (sid, rid, sq) u rs as
    \<and> lr_state c = NUM8LORA_RECEIVER_WAIT_UPDATE \<and> batch_ok rs as
    \<and> u_update_id u = lr_pending_update_id c
    \<and> u_dataset_version_from u = lr_local_dataset_version c
    \<and> u_dataset_version_to u = lr_pending_dataset_version_to c
    \<and> u_remove_count u = lr_pending_remove_count c \<and> u_add_count u = lr_pending_add_count c
    \<and> (lr_pending_payload_crc16 c \<noteq> 0 \<longrightarrow> crc_of (update_bytes u rs as) = lr_pending_payload_crc16 c)
    \<and> (lr_expected_sender_id c \<noteq> 0 \<longrightarrow> sid = lr_expected_sender_id c)"
proof -
  obtain sid rid sq u rs as where w: "take (unat n) b = update_wire (sid, rid, sq) u rs as"
    and acc: "acceptable c (sid, rid, sq) u rs as" and new: "u_update_id u \<noteq> lr_last_applied_update_id c"
    by (rule change_needs_acceptable [OF assms])
  have check: "is_announced c u rs as" "update_fits u rs as" "lr_expected_sender_id c \<noteq> 0 \<longrightarrow> sid = lr_expected_sender_id c" "batch_ok rs as"
    using acc new by (auto simp: repeats_last_def)
  then have "lr_state c = NUM8LORA_RECEIVER_WAIT_UPDATE
    \<and> u_update_id u = lr_pending_update_id c
    \<and> u_dataset_version_from u = lr_local_dataset_version c
    \<and> u_dataset_version_to u = lr_pending_dataset_version_to c
    \<and> u_remove_count u = lr_pending_remove_count c \<and> u_add_count u = lr_pending_add_count c
    \<and> (lr_pending_payload_crc16 c \<noteq> 0 \<longrightarrow> crc_of (update_bytes u rs as) = lr_pending_payload_crc16 c)"
    by (auto simp: is_announced_def update_fits_def word_unat_eq_iff)
  then show ?thesis using w check(3,4) by blast
qed

theorem legacy_applies_only_announced_witness:
  "\<exists>sid rid sq u rs as. take (unat (38 :: u32)) (demo_frame 2) = update_wire (sid, rid, sq) u rs as
    \<and> u_update_id u = lr_pending_update_id (demo_waiting 2)"
proof -
  have two: "(2 :: u16) \<noteq> 0" by simp
  have "lr_local_dataset_version (after_update (demo_waiting 2) 1 demo_update)
      \<noteq> lr_local_dataset_version (demo_waiting 2) \<or> [9, 6, 8] \<noteq> [5, 8 :: u32]" by simp
  from legacy_applies_only_announced [OF demo_applied [OF two, unfolded legacy_applied_def] _ _ this]
  show ?thesis by (simp del: take_all take_all_iff) blast
qed

text \<open>
  C8. A frame that num8lora_sender_poll_tx hands out is a DATA frame to a registered receiver,
  carrying the operation after the last one this receiver acknowledged, as the ring holds it.
\<close>

theorem poll_sends_next:
  assumes "sender_inv s" "unat cap \<le> length ob"
    and "num8lora_sender_poll_tx (Some s) now (Some ob) cap (Some l) (Some t)
      = (True, Some s', Some b, Some n, Some rid)"
  shows "\<exists>x \<in> set (slots s). \<exists>op. sl_active x \<noteq> 0 \<and> sl_receiver_id x = rid
    \<and> find_op s' (sl_last_acked_op_id x + 1) = Some op
    \<and> take (unat n) b = op_data_wire (s_sender_id s, rid, s_seq s)
        \<lparr>dp_stream_id = s_stream_id s, dp_op_id = sl_last_acked_op_id x + 1,
         dp_op_type = so_op_type op, dp_reserved0 = 0, dp_reserved1 = 0, dp_value = so_value op\<rparr>"
proof -
  let ?r = "sender_reclaim_history s"
  have p: "polled now ?r (True, s', Some b, Some n, Some rid)"
    using poll_tx_polled [OF assms(1,2), of now l t] assms(3) by auto
  then obtain j where j: "transmitted now ?r s' j (take (unat n) b)" "rid = sl_receiver_id (slots s ! j)"
    and s': "sender_inv s'" "same_log ?r s'"
    by (auto simp: polled_def)
  let ?k = "sl_last_acked_op_id (slots s ! j) + 1"
  have k: "s_oldest_retained_op_id s' \<le> ?k" "?k \<le> s_latest_op_id s'"
    using j(1) s'(2) by (simp_all add: transmitted_def Let_def same_log_def)
  obtain x where x: "find_op s' ?k = Some x" and pay: "data_payload s' ?k =
      \<lparr>dp_stream_id = s_stream_id s', dp_op_id = ?k, dp_op_type = so_op_type x, dp_reserved0 = 0,
       dp_reserved1 = 0, dp_value = so_value x\<rparr>"
    by (rule find_op_payload [OF sender_inv_log [OF s'(1)] k])
  have "slots s ! j \<in> set (slots s)"
    using j(1) sender_inv_length [OF assms(1)] by (auto simp: transmitted_def Let_def)
  then show ?thesis
    using j x pay data_payload_same_log [OF s'(2), of ?k] s'(2)
    by (intro bexI [of _ "slots s ! j"] exI [of _ x])
      (auto simp: transmitted_def Let_def same_log_def)
qed

theorem poll_sends_next_witness:
  "\<exists>s' b n rid. num8lora_sender_poll_tx (Some demo_tx) 0 (Some (replicate 26 0)) 26 (Some 0) (Some 0)
      = (True, Some s', Some b, Some n, Some rid)
    \<and> (\<exists>x \<in> set (slots demo_tx). sl_active x \<noteq> 0 \<and> sl_receiver_id x = rid)"
proof -
  obtain ok s' b n t where e: "num8lora_sender_poll_tx (Some demo_tx) 0 (Some (replicate 26 0)) 26
      (Some 0) (Some 0) = (ok, Some s', b, n, t)"
    and p: "polled 0 (sender_reclaim_history demo_tx) (ok, s', b, n, t)"
    using poll_tx_polled [OF demo_tx_inv(1), of 26 "replicate 26 0" 0 0 0] by auto
  have "servable 0 (sender_reclaim_history demo_tx) (slots demo_tx ! 0)"
    by code_simp
  then have ok: ok
    using poll_tx_serves [OF demo_tx_inv(1), of 26 "replicate 26 0" 0 0 0 0] e
    by (simp add: can_transmit_def demo_defs)
  then obtain j x where x: "emitted True b n = Some x" "t = Some (sl_receiver_id (slots demo_tx ! j))"
    using p by (auto simp: polled_def)
  then obtain b' n' where bn: "b = Some b'" "n = Some n'"
    by (cases b; cases n) (auto simp: emitted_def)
  note e' = e [unfolded x(2) bn, simplified ok]
  show ?thesis
    using e' poll_sends_next [OF demo_tx_inv(1) _ e'] by fastforce
qed

text \<open>
  C9. When some registered receiver can be served (it is not exhausted and has an operation to
  get that is still retained, or a retransmission is due and within the budget),
  num8lora_sender_poll_tx hands out a frame, provided the sender can transmit at all (its
  sequence number is not 0xFFFF, its sender and stream ids are not 0), the buffer has room for a
  DATA frame (26 bytes) and there are at most 2^31 slots.
\<close>

theorem poll_serves:
  assumes "sender_inv s" "unat cap \<le> length ob" "26 \<le> unat cap" "can_transmit s"
    and "unat (s_receiver_capacity s) \<le> 2 ^ 31" "j < unat (s_receiver_capacity s)"
    and "servable now (sender_reclaim_history s) (slots s ! j)"
  shows "fst (num8lora_sender_poll_tx (Some s) now (Some ob) cap (Some l) (Some t))"
  by (rule poll_tx_serves [OF assms])

theorem poll_serves_witness:
  "fst (num8lora_sender_poll_tx (Some demo_tx_waiting) 100 (Some (replicate 26 0)) 26 (Some 0) (Some 0))"
proof -
  have "servable 100 (sender_reclaim_history demo_tx_waiting) (slots demo_tx_waiting ! 0)"
    by code_simp
  then show ?thesis
    by (rule poll_serves [OF demo_tx_inv(2), rotated 5]) (simp_all add: can_transmit_def demo_defs)
qed

text \<open>
  C10. A call of num8lora_receiver_handle_data either leaves the progress of the receiver alone,
  or a valid DATA frame of its stream addressed to it carried the operation with the next id,
  the application was called with it and agreed, and the progress is that id. When the
  application was not called its state is untouched.
\<close>

theorem receiver_applies_in_order:
  assumes "num8lora_receiver_handle_data (Some r) (Some b) n fn u ob cap l = (ok, Some r', u', ob', l')"
    and "unat n \<le> length b"
  shows "r_last_applied_op_id r' = r_last_applied_op_id r
      \<and> (u' = u \<or> (\<exists>t v g. fn = Some g \<and> g u t v = (False, u')))
    \<or> (\<exists>sid sq d g. op_data_valid (sid, r_receiver_id r, sq) d
        \<and> take (unat n) b = op_data_wire (sid, r_receiver_id r, sq) d \<and> dp_stream_id d = r_stream_id r
        \<and> unat (dp_op_id d) = unat (r_last_applied_op_id r) + 1
        \<and> fn = Some g \<and> g u (dp_op_type d) (dp_value d) = (True, u')
        \<and> r_last_applied_op_id r' = dp_op_id d)"
  using assms
proof (cases rule: handle_data_step)
  case (called rr' a d)
  obtain sid rid sq where a: "a = (sid, rid, sq)" by (cases a)
  from called(5) show ?thesis
  proof
    assume "receiver_refusal r u fn a d rr' u'"
    then have "r_last_applied_op_id r' = r_last_applied_op_id r" "call_apply fn u d = (False, u')"
      using called(1) by (simp_all add: receiver_refusal_def)
    moreover from this(2) have "u' = u \<or> (\<exists>t v g. fn = Some g \<and> g u t v = (False, u'))"
    proof (cases fn)
      case (Some g)
      then have "g u (dp_op_type d) (dp_value d) = (False, u')"
        using \<open>call_apply fn u d = (False, u')\<close> by (simp add: call_apply_def)
      with Some show ?thesis by blast
    qed (simp add: call_apply_def)
    ultimately show ?thesis by blast
  next
    assume adv: "receiver_advance r u fn a d rr' u'"
    then have "rid = r_receiver_id r" "dp_stream_id d = r_stream_id r"
      "unat (dp_op_id d) = unat (r_last_applied_op_id r) + 1"
      using data_verdict_Next [of r sid rid d] unfolding receiver_advance_def a by simp_all metis+
    moreover obtain g where "fn = Some g" "g u (dp_op_type d) (dp_value d) = (True, u')"
      using adv by (cases fn) (auto simp: receiver_advance_def call_apply_def)
    moreover have "r_last_applied_op_id r' = dp_op_id d"
      using adv called(1) by (simp add: receiver_advance_def)
    ultimately show ?thesis using called(3,4) a by blast
  qed
qed simp

theorem receiver_applies_in_order_witness:
  "\<exists>r'. num8lora_receiver_handle_data (Some demo_rx) (Some (op_data_wire (1, 7, 4) demo_data)) 26
      (Some (count_calls 7)) 0 (Some (replicate 22 0)) 22 (Some 0)
    = (True, Some r', 1, Some (overlay (replicate 22 0) 0 (op_ack_wire (7, 1, 1) demo_ack)), Some 18)
    \<and> r_last_applied_op_id r' = 1"
proof -
  have v: "op_data_valid (1, 7, 4) demo_data"
    by (simp add: op_data_valid_def op_data_ok_def demo_data_def)
  have n: "data_verdict demo_rx 1 7 demo_data = Next"
    "call_apply (Some (count_calls 7)) 0 demo_data = (True, 1)"
    by (simp_all add: data_verdict_def call_apply_def count_calls_def demo_defs)
  have a: "receiver_reply_ack (demo_rx\<lparr>r_last_applied_op_id := dp_op_id demo_data\<rparr>) 1 (1 :: nat)
      (Some (replicate 22 0)) 22 (Some 0)
    = (True, Some (demo_rx\<lparr>r_last_applied_op_id := 1, r_seq := 2\<rparr>), 1,
       Some (overlay (replicate 22 0) 0 (op_ack_wire (7, 1, 1) demo_ack)), Some 18)"
    by (simp add: reply_ack_accepts demo_defs)
  have e: "num8lora_receiver_handle_data (Some demo_rx) (Some (op_data_wire (1, 7, 4) demo_data)) 26
      (Some (count_calls 7)) 0 (Some (replicate 22 0)) 22 (Some 0)
    = (True, Some (demo_rx\<lparr>r_last_applied_op_id := 1, r_seq := 2\<rparr>), 1,
       Some (overlay (replicate 22 0) 0 (op_ack_wire (7, 1, 1) demo_ack)), Some 18)"
    using handle_data_accept [OF v, of 26 "op_data_wire (1, 7, 4) demo_data" 22 demo_rx
      "Some (count_calls 7)" 0 "replicate 22 0" 0] n a by simp
  show ?thesis
    using e receiver_applies_in_order [OF e] by simp
qed

text \<open>
  C11. Handling any received frame moves what the sender believes of a receiver by at most one
  operation, namely the one in flight to it, and only while that receiver is waited for.
\<close>

theorem ack_moves_one_step:
  assumes "sender_inv s" "unat n \<le> length b" "i < unat (s_receiver_capacity s)"
    and "num8lora_sender_handle_rx (Some s) now (Some b) n = (ok, Some s')"
    and "sl_last_acked_op_id (slots s' ! i) \<noteq> sl_last_acked_op_id (slots s ! i)"
  shows "ok \<and> sl_waiting_ack (slots s ! i) \<noteq> 0
    \<and> sl_last_acked_op_id (slots s' ! i) = sl_inflight_op_id (slots s ! i)
    \<and> unat (sl_last_acked_op_id (slots s' ! i)) = unat (sl_last_acked_op_id (slots s ! i)) + 1
    \<and> sl_waiting_ack (slots s' ! i) = 0"
proof -
  have len: "i < length (slots s)" using assms(1,3) by (simp add: sender_inv_length)
  have ok: "slot_ok s (slots s ! i)" by (rule sender_inv_slot [OF assms(1,3)])
  show ?thesis
    using assms(4,2)
  proof (cases rule: handle_rx_cases)
    case (request j a p)
    then show ?thesis using assms(5) len by (cases "j = i") simp_all
  next
    case (ack j a p)
    then have "j = i" using assms(5) by (cases "j = i") simp_all
    then show ?thesis using ack ok len by (simp add: slot_ok_def)
  next
    case (nack j a p)
    then show ?thesis using assms(5) len by (cases "j = i") simp_all
  qed (use assms(5) in simp)
qed

theorem ack_moves_one_step_witness:
  "\<exists>s'. num8lora_sender_handle_rx (Some demo_tx_waiting) 50 (Some (op_ack_wire (7, 1, 3) demo_ack)) 18
      = (True, Some s') \<and> sl_last_acked_op_id (slots s' ! 0) = 1 \<and> sl_waiting_ack (slots s' ! 0) = 0"
proof -
  have addr: "addressed demo_tx_waiting (7, 1, 3) 0"
    by (simp add: addressed_def find_slot_mut_def demo_defs deref_def)
  have e: "num8lora_sender_handle_rx (Some demo_tx_waiting) 50
      (Some (op_ack_wire (7, 1, 3) demo_ack)) 18 = (True, Some (sender_reclaim_history
        (update_slot 0 (\<lambda>x. x\<lparr>sl_last_acked_op_id := ap_ack_op_id demo_ack, sl_waiting_ack := 0,
          sl_inflight_op_id := 0, sl_retries := 0, sl_exhausted := 0\<rparr>) demo_tx_waiting)))"
    using addr by (intro handle_rx_ack_accepts)
      (simp_all add: op_ack_valid_def op_ack_ok_def demo_defs deref_def)
  have cap: "s_receiver_capacity demo_tx_waiting = 1" by (simp add: demo_defs)
  show ?thesis
    using e ack_moves_one_step [OF demo_tx_inv(2) _ _ e, of 0]
    by (simp add: cap demo_slots) (simp add: demo_slot_def demo_ack_def)
qed

text \<open>
  C12. On an engine that does what a success it reports says, every run of a legacy receiver in
  which no call reports APPLY_FAILED (an engine operation that failed), on whatever frames, is a
  run of the abstract replica: its version and its set of numbers are the result of a chain of
  published updates, each starting from the version the one before led to.
\<close>

theorem legacy_history:
  assumes "adds numbers add" "removes numbers remove" "flush_keeps numbers flush"
    and "legacy_reach add remove flush pub (c, e) (c', e')"
  shows "runs (replica_step pub) (lr_local_dataset_version c, numbers e) (lr_local_dataset_version c', numbers e')
    \<and> (\<exists>log. set log \<subseteq> pub \<and> chain (lr_local_dataset_version c) log (lr_local_dataset_version c')
      \<and> numbers e' = replay log (numbers e)) \<and> lr_local_dataset_version c \<le> lr_local_dataset_version c'"
  using simulation.runs_simulate [OF receiver_simulates [OF assms(1-3)] assms(4)] reach_history [OF assms]
    chain_increases by (fastforce simp: replica_def)

theorem legacy_history_witness:
  "\<exists>log. set log \<subseteq> {(demo_update, [5], [6, 9])} \<and> chain 1 log 2 \<and> {6, 8, 9} = replay log {5, 8}"
proof -
  have "{6, 8, 9} = set [9, 6, 8 :: u32]" by auto
  moreover have "lr_local_dataset_version (demo_receiver 2) = 1" "lr_local_dataset_version (demo_updated 2) = 2"
    by (simp_all add: demo_receiver_def demo_updated_def after_update_def demo_update_def)
  ultimately show ?thesis
    using legacy_history [OF list_engine demo_reached [of 2]] by auto
qed

text \<open>
  C13. num8lora_sender_enqueue_lists is all or nothing: when both lists fit (room in the ring,
  ids left, legal values) the stream grows by all removals and then all additions and the ids
  reported are the first and the last new one; otherwise the sender is unchanged and both ids
  are 0.
\<close>

theorem enqueue_lists_atomic:
  assumes "log_represents s xs" "length rs = unat m" "length as = unat n" "rs @ as \<noteq> []"
    and "num8lora_sender_enqueue_lists (Some s) (Some rs) m (Some as) n (Some f0) (Some l0)
      = (ok, Some s', Some f, Some l)"
  shows "if enqueue_lists_fits s rs as
    then ok \<and> f = s_latest_op_id s + 1 \<and> l = s_latest_op_id s'
      \<and> log_represents s' (xs @ map (Pair NUM8LORA_OP_REMOVE) rs @ map (Pair NUM8LORA_OP_ADD) as)
    else \<not> ok \<and> s' = s \<and> f = 0 \<and> l = 0"
proof -
  have inv: "log_inv s" using assms(1) by (simp add: log_represents_def)
  show ?thesis
    using enqueue_lists_log [OF inv assms(2-4), of f0 l0] enqueue_lists_refused [OF inv assms(2,3) _ assms(4), of f0 l0]
      enqueue_lists_represents(1) [OF assms(1-3,5)] assms(5) by auto
qed

theorem enqueue_lists_atomic_witness:
  "let r = num8lora_sender_enqueue_lists (Some demo_tx) (Some [8]) 1 (Some []) 0 (Some 0) (Some 0) in
    fst r \<and> log_represents (the (fst (snd r))) [(1, 5), (2, 8)] \<and> enqueue_lists_fits demo_tx [8] []"
proof -
  have fits: "enqueue_lists_fits demo_tx [8] []"
    by (simp add: enqueue_lists_fits_def demo_defs)
  obtain ok s' f l where e: "num8lora_sender_enqueue_lists (Some demo_tx) (Some [8]) 1 (Some []) 0
      (Some 0) (Some 0) = (ok, Some s', Some f, Some l)"
    using enqueue_lists_log [of demo_tx "[8]" 1 "[]" 0 0 0] fits sender_inv_log [OF demo_tx_inv(1)]
    by auto
  show ?thesis
    using enqueue_lists_atomic [OF demo_rep _ _ _ e] fits by (simp add: e)
qed



text \<open>
  C15. Whatever call of the standard library fails, after num8lora_metadata_save_file the file
  at the path is either the complete new record (and success is reported) or what it was;
  besides it only the temporary file can change, and it is gone after a success.
\<close>

theorem save_is_atomic:
  assumes "num8lora_metadata_save_file io fs (Some p) (Some r) e = (ok, fs', e')"
  shows "(if ok then fs' p = Some (metadata_wire () r) \<and> fs' (p @ ''.tmp'') = None else fs' p = fs p)
    \<and> (\<forall>q. q \<noteq> p \<longrightarrow> q \<noteq> p @ ''.tmp'' \<longrightarrow> fs' q = fs q)"
  using save_file_cases [OF assms] by (auto split: if_splits)

theorem save_is_atomic_witness:
  "fst (snd (num8lora_metadata_save_file demo_io_full [''m'' \<mapsto> [1]] (Some ''m'') (Some demo_record) (Some 0))) ''m'' = Some [1]"
proof -
  obtain ok fs' e' where s: "num8lora_metadata_save_file demo_io_full [''m'' \<mapsto> [1]] (Some ''m'') (Some demo_record) (Some 0)
      = (ok, fs', e')" by (metis prod_cases3)
  have "\<not> ok"
    using s by (simp add: num8lora_metadata_save_file_def build_temp_path_def write_record_file_def Let_def
      encode_record_cases metadata_encode_error_def demo_record_def demo_io_full_def demo_io_def)
  then show ?thesis using s save_is_atomic [OF s] by simp
qed

text \<open>
  C16. find_op looks operations up by number: for a number between the oldest retained and the
  latest it gives that entry of the stream, for any other nothing.
\<close>

theorem lookup_is_stream:
  assumes "log_represents s xs"
  shows "map_option op_entry (find_op s k) = (if s_oldest_retained_op_id s \<le> k \<and> unat k \<le> length xs
    then Some (xs ! (unat k - 1)) else None)"
  using sender_log.lookup_represents [OF assms, of "unat k"]
  by (simp add: log_lookup_def log_first_def word_le_nat_alt)

theorem lookup_is_stream_witness:
  "map_option op_entry (find_op demo_tx 1) = Some (1, 5) \<and> find_op demo_tx 2 = None"
  using lookup_is_stream [OF demo_rep, of 1] lookup_is_stream [OF demo_rep, of 2]
  by (simp add: demo_defs)

text \<open>
  C17. While the latest operation id is below UINT32_MAX (at UINT32_MAX the code wraps to id 0),
  a successful num8lora_sender_enqueue_add appends the operation to the stream the ring
  represents and reports its number; the value is legal.
\<close>

theorem enqueue_appends:
  assumes "log_represents s xs" "s_latest_op_id s < 0xFFFFFFFF"
    and "num8lora_sender_enqueue_add (Some s) v (Some x) = (True, Some s', Some k)"
  shows "log_represents s' (xs @ [(NUM8LORA_OP_ADD, v)]) \<and> unat k = length xs + 1
    \<and> log_lookup s' (unat k) = Some (NUM8LORA_OP_ADD, v) \<and> v \<le> MAX_VALUE"
proof -
  have e: "enqueue_op (Some s) NUM8LORA_OP_ADD v (Some x) = (True, Some s', Some k)"
    using assms(3) by (simp add: num8lora_sender_enqueue_add_def)
  have rep: "log_represents s' (xs @ [(NUM8LORA_OP_ADD, v)])"
    using log_represents_enqueue(1) [OF assms(1,2) _ e] by simp
  have "log_append s (NUM8LORA_OP_ADD, v) = Some s'"
    using assms(2) e enqueue_op_out [of s NUM8LORA_OP_ADD v None] enqueue_op_out [of s NUM8LORA_OP_ADD v "Some x"]
    by (auto simp: log_append_def split_beta)
  then have "log_lookup s' (length xs + 1) = Some (NUM8LORA_OP_ADD, v)"
    by (rule sender_log.lookup_newest [OF assms(1)])
  moreover have "k = s_latest_op_id s + 1" "v \<le> MAX_VALUE"
    using e by (auto simp: enqueue_op_def Let_def not_less split: if_splits)
  ultimately show ?thesis
    using rep assms(1,2) by (simp add: unat_Suc_less_u32 log_represents_def)
qed

theorem enqueue_appends_witness:
  "num8lora_sender_enqueue_add (Some demo_tx1) 5 (Some 0) = (True, Some demo_tx, Some 1)
    \<and> log_represents demo_tx [(NUM8LORA_OP_ADD, 5)] \<and> log_lookup demo_tx 1 = Some (NUM8LORA_OP_ADD, 5)"
proof -
  have "s_latest_op_id demo_tx1 < 0xFFFFFFFF" by (simp add: demo_tx1_def demo_tx0_def)
  from enqueue_appends [OF demo_rep1 this demo_enqueue] show ?thesis
    using demo_enqueue by simp
qed

text \<open>
  C18. In every state a legacy sender reaches from its initialisation, unless it is idle, it
  holds a legal update with the checksum its beacon announces; its retries never exceed the
  budget.
\<close>

theorem legacy_sender_holds_update:
  assumes "legacy_sender_init (Some c0) sid m = Some c" "legacy_tx_reach c d"
  shows "(ls_state d \<noteq> NUM8LORA_SENDER_IDLE \<longrightarrow> (\<exists>rs as. update_fits (ls_update_hdr d) rs as
      \<and> array_at (ls_remove_numbers d) rs \<and> array_at (ls_add_numbers d) as \<and> batch_ok rs as
      \<and> u_dataset_version_from (ls_update_hdr d) < u_dataset_version_to (ls_update_hdr d)
      \<and> ls_update_payload_crc16 d = crc_of (update_bytes (ls_update_hdr d) rs as)))
    \<and> ls_retries d \<le> ls_max_retries d"
  using legacy_tx.runs_keep [OF assms(2) legacy_sender_init_inv [OF assms(1)]]
  unfolding legacy_sender_inv_def loaded_def by blast

theorem legacy_sender_holds_update_witness:
  "\<exists>c. legacy_sender_init (Some demo_sender) 1 2 = Some c \<and> legacy_tx_reach c demo_sender
    \<and> ls_retries demo_sender \<le> ls_max_retries demo_sender"
proof -
  obtain c where c: "legacy_sender_init (Some demo_sender) 1 2 = Some c"
    by (simp add: legacy_sender_init_def)
  have "legacy_tx_step c demo_sender"
    using demo_set_update [of demo_sender "Some 0"] c
    by (intro tx_set [of demo_update "[5]" "[6, 9]" "Some [5]" "Some [6, 9]" c 2 "Some 0" True])
      (simp_all add: demo_fits)
  then have "legacy_tx_reach c demo_sender" by (rule runs_single)
  with c legacy_sender_holds_update [OF c this] show ?thesis by blast
qed

text \<open>
  C19. A sender that waits for an acknowledgement keeps waiting through as many timeouts as its
  budget has left and is idle after one more, whatever buffers the calls get.
\<close>

theorem legacy_sender_gives_up:
  assumes "ls_state c = NUM8LORA_SENDER_WAIT_ACK" "ls_retries c \<le> ls_max_retries c"
  shows "ls_state (legacy_timeouts c bs) = NUM8LORA_SENDER_IDLE
    \<longleftrightarrow> unat (ls_max_retries c) - unat (ls_retries c) < length bs"
  using timeouts_give_up [OF assms, of bs] by auto

theorem legacy_sender_gives_up_witness:
  "ls_state (legacy_timeouts demo_sender_wait [([], 0), ([], 0), ([], 0)]) = NUM8LORA_SENDER_IDLE
    \<and> ls_state (legacy_timeouts demo_sender_wait [([], 0), ([], 0)]) \<noteq> NUM8LORA_SENDER_IDLE"
  using legacy_sender_gives_up [of demo_sender_wait "[([], 0), ([], 0), ([], 0)]"]
    legacy_sender_gives_up [of demo_sender_wait "[([], 0), ([], 0)]"]
  by (simp add: demo_sender_wait_def demo_sender_def)

text \<open>
  C20. What num8lora_encode_update_data writes, num8lora_decode_update_data_header and
  num8lora_decode_update_numbers read back: the addresses, the update header and both lists of
  numbers.
\<close>

theorem update_data_roundtrip:
  assumes "num8lora_encode_update_data (Some b) cap sid rid sq (Some u) (Some rs) (Some as) (Some l)
      = (True, Some b', Some n)"
    and "u_reserved0 u = 0" "length rs = unat (u_remove_count u)" "length as = unat (u_add_count u)"
    and "unat cap \<le> length b" "length b < 2 ^ 32"
  shows "num8lora_decode_update_data_header (Some b') n (Some h0) (Some u0) (Some r0) (Some a0)
      = (True, Some (legacy_header NUM8LORA_MSG_UPDATE_DATA sid rid sq), Some u,
         Some (Some 24), Some (Some (24 + 4 * unat (u_remove_count u))))
    \<and> num8lora_decode_update_numbers (Some u) (Some (drop 24 b')) (ucast (u_remove_count u))
        (Some (drop (24 + 4 * unat (u_remove_count u)) b')) (ucast (u_add_count u))
        (Some (replicate 255 0)) 255 (Some (replicate 255 0)) 255 (Some 0) (Some 0)
      = (True, Some (rs @ replicate (255 - length rs) 0), Some (as @ replicate (255 - length as) 0),
         Some (ucast (u_remove_count u)), Some (ucast (u_add_count u)))"
proof -
  note e = encode_update_emits [OF assms]
  note reads = update_frame_reads [OF e(3,4,5,6)]
  have small: "unat (u_remove_count u) \<le> unat (255 :: u32)" "unat (u_add_count u) \<le> unat (255 :: u32)"
    using unat_less_u8 [of "u_remove_count u"] unat_less_u8 [of "u_add_count u"] by (simp_all del: unat_less_u8)
  have "num8lora_decode_update_data_header (Some b') n (Some h0) (Some u0) (Some r0) (Some a0)
      = (True, Some (legacy_header NUM8LORA_MSG_UPDATE_DATA sid rid sq), Some u,
         Some (Some 24), Some (Some (24 + 4 * unat (u_remove_count u))))"
    unfolding decode_update_iff [OF e(4)] using e by blast
  then show ?thesis
    using decode_numbers_exact [OF small, of "replicate 255 0" "replicate 255 0" "drop 24 b'"
        "drop (24 + 4 * unat (u_remove_count u)) b'" "Some 0" "Some 0"]
    by (simp add: reads overlay_0)
qed

theorem update_data_roundtrip_witness:
  "\<exists>b'. num8lora_encode_update_data (Some (replicate 38 0)) 38 1 2 2 (Some demo_update) (Some [5]) (Some [6, 9]) (Some 0)
      = (True, Some b', Some 38)
    \<and> fst (num8lora_decode_update_data_header (Some b') 38 (Some zero_common_header) (Some zero_update_header)
        (Some None) (Some None))"
proof -
  have size: "update_size demo_update = 38" by (simp add: update_size_def demo_update_def)
  have e: "num8lora_encode_update_data (Some (replicate 38 0)) 38 1 2 2 (Some demo_update) (Some [5]) (Some [6, 9]) (Some 0)
      = (True, Some (overlay (replicate 38 0) 0 (update_wire (1, 2, 2) demo_update [5] [6, 9])), Some 38)"
    using encode_update_accepts [of 1 2 demo_update "[5]" "[6, 9]" 38 "replicate 38 0" "Some [5]" "Some [6, 9]" 2 0]
      demo_fits size by simp
  have "fst (num8lora_decode_update_data_header (Some (overlay (replicate 38 0) 0 (update_wire (1, 2, 2) demo_update [5] [6, 9])))
      38 (Some zero_common_header) (Some zero_update_header) (Some None) (Some None))"
    using update_data_roundtrip [OF e, of zero_common_header zero_update_header None None]
    by (simp add: demo_update_def)
  with e show ?thesis by blast
qed

text \<open>
  C21. A DATA frame of the async protocol in which one byte, or two adjacent ones, before the
  checksum have been changed is never accepted.
\<close>

theorem corrupted_data_rejected:
  assumes "num8lora_op_decode_data (Some f) n (Some h0) (Some p0) = (True, Some h, Some p)"
    and "f = xs @ [u, v] @ ys @ [c0, c1]" "g = xs @ [u', v'] @ ys @ [c0, c1]"
    and "unat n = length f" "(u, v) \<noteq> (u', v')"
  shows "num8lora_op_decode_data (Some g) n (Some h1) (Some p1) \<noteq> (True, Some h', Some p')"
  using data.burst_rejected [OF assms(1) _ assms(2-5)] op_data_sealed by blast

theorem corrupted_data_rejected_witness:
  "\<exists>ys c0 c1. op_data_wire (1, 7, 4) demo_data = header_bytes 1 NUM8LORA_OP_MSG_DATA 1 7 4 @ [9, 0] @ ys @ [c0, c1]
    \<and> (\<forall>h p. num8lora_op_decode_data (Some (header_bytes 1 NUM8LORA_OP_MSG_DATA 1 7 4 @ [8, 0] @ ys @ [c0, c1])) 26
      (Some local_header) (Some local_data) \<noteq> (True, Some h, Some p))"
proof -
  obtain ys c0 c1 where f: "op_data_wire (1, 7, 4) demo_data =
      header_bytes 1 NUM8LORA_OP_MSG_DATA 1 7 4 @ [9, 0] @ ys @ [c0, c1]"
    using demo_data_bytes by blast
  have len: "unat (26 :: u32) = length (op_data_wire (1, 7, 4) demo_data)" by simp
  have "num8lora_op_decode_data (Some (op_data_wire (1, 7, 4) demo_data)) 26 (Some local_header) (Some local_data)
      = (True, Some (op_unicast_header NUM8LORA_OP_MSG_DATA (1, 7, 4)), Some demo_data)"
    using data.decode_wire [of "(1, 7, 4)" demo_data 26 "op_data_wire (1, 7, 4) demo_data"]
    by (simp add: op_data_valid_def op_data_ok_def demo_data_def)
  from corrupted_data_rejected [OF this f refl len, of 8 0] f show ?thesis by auto
qed

text \<open>
  C22. The checksum that a beacon announces, computed field by field from the header and the
  numbers, is the CRC over the payload bytes of the UPDATE_DATA frame as encoded.
\<close>

theorem update_checksum_of_frame:
  assumes "num8lora_encode_update_data (Some b) cap sid rid sq (Some u) (Some rs) (Some as) (Some l)
      = (True, Some b', Some n)"
    and "u_reserved0 u = 0" "length rs = unat (u_remove_count u)" "length as = unat (u_add_count u)"
    and "unat cap \<le> length b" "length b < 2 ^ 32"
  shows "num8lora_compute_update_payload_crc16 (Some u) (Some rs) (Some as) (Some x)
    = (True, Some (num8lora_crc16_ccitt_false (Some (drop 8 b')) (n - 10)))"
proof -
  note e = encode_update_emits [OF assms]
  have f: "take (unat n) b' = frame NUM8LORA_MSG_UPDATE_DATA sid rid sq (update_bytes u rs as)"
    using e(3) by (simp add: update_wire_def)
  have "10 \<le> n" using frame_prefix(2) [OF f e(4)] by (simp add: word_le_nat_alt)
  then have n: "unat (n - 10) = unat n - 10" by (simp add: unat_sub)
  have "take (unat n - 10) (drop 8 b') = update_bytes u rs as"
    using frame_payload [OF f e(4)] by simp
  then show ?thesis
    using compute_crc_exact [of "Some rs" rs "Some as" as u x] assms(3,4) e(4) n
    by (simp add: num8lora_crc16_ccitt_false_def crc16_is_crc_of)
qed

theorem update_checksum_of_frame_witness:
  "\<exists>b'. num8lora_encode_update_data (Some (replicate 38 0)) 38 1 2 2 (Some demo_update) (Some [5]) (Some [6, 9]) (Some 0)
      = (True, Some b', Some 38)
    \<and> num8lora_compute_update_payload_crc16 (Some demo_update) (Some [5]) (Some [6, 9]) (Some 0)
      = (True, Some (num8lora_crc16_ccitt_false (Some (drop 8 b')) 28))"
proof -
  have size: "update_size demo_update = 38" by (simp add: update_size_def demo_update_def)
  have e: "num8lora_encode_update_data (Some (replicate 38 0)) 38 1 2 2 (Some demo_update) (Some [5]) (Some [6, 9]) (Some 0)
      = (True, Some (overlay (replicate 38 0) 0 (update_wire (1, 2, 2) demo_update [5] [6, 9])), Some 38)"
    using encode_update_accepts [of 1 2 demo_update "[5]" "[6, 9]" 38 "replicate 38 0" "Some [5]" "Some [6, 9]" 2 0]
      demo_fits size by simp
  from update_checksum_of_frame [OF e, of 0] have
    "num8lora_compute_update_payload_crc16 (Some demo_update) (Some [5]) (Some [6, 9]) (Some 0)
      = (True, Some (num8lora_crc16_ccitt_false (Some (drop 8 (overlay (replicate 38 0) 0
          (update_wire (1, 2, 2) demo_update [5] [6, 9])))) 28))"
    by (simp add: demo_update_def)
  with e show ?thesis by blast
qed

text \<open>
  C23. The nested comparison loops of num8lora_validate_update_numbers decide exactly this:
  every number has at most eight digits, no number occurs twice in a list, none is in both.
\<close>

theorem update_batch_checked:
  assumes "length rs = unat (u_remove_count h)" "length as = unat (u_add_count h)"
  shows "fst (num8lora_validate_update_numbers (Some h) (Some rs) (Some as) e) \<longleftrightarrow>
    (\<forall>v \<in> set rs \<union> set as. v \<le> 99999999) \<and> distinct rs \<and> distinct as \<and> set rs \<inter> set as = {}"
  using validate_numbers_exact [of "Some rs" rs "Some as" as h e] assms by (simp add: batch_ok_def)

theorem update_batch_checked_witness:
  "fst (num8lora_validate_update_numbers (Some demo_update) (Some [5]) (Some [6, 9]) (Some 0))
    \<and> \<not> fst (num8lora_validate_update_numbers (Some demo_update) (Some [5]) (Some [6, 5]) (Some 0))"
  using update_batch_checked [of "[5]" demo_update "[6, 9]"] update_batch_checked [of "[5]" demo_update "[6, 5]"]
  by (simp add: demo_update_def)

text \<open>
  C24. When no registered receiver can be served (each is up to date, still within its timeout,
  exhausted, or overdue with its retry budget spent), the poll hands out nothing, and it gives
  up exactly the receivers that are overdue: their slots are marked exhausted and forget what
  was in flight; all other slots stay as they were. The sender has at most 2^31 slots.
\<close>

theorem poll_gives_up:
  assumes "sender_inv s" "unat (s_receiver_capacity s) \<le> 2 ^ 31"
    and "\<And>j. j < unat (s_receiver_capacity s) \<Longrightarrow> \<not> servable now (sender_reclaim_history s) (slots s ! j)"
  shows "\<exists>s'. num8lora_sender_poll_tx (Some s) now (Some ob) cap (Some l) (Some t)
      = (False, Some s', Some ob, Some 0, Some 0)
    \<and> (\<forall>j < unat (s_receiver_capacity s). slots s' ! j =
      (if sl_active (slots s ! j) \<noteq> 0 \<and> sl_waiting_ack (slots s ! j) \<noteq> 0 \<and> sl_due_at_ms (slots s ! j) \<le> now
       then (slots s ! j)\<lparr>sl_waiting_ack := 0, sl_inflight_op_id := 0, sl_retries := 0, sl_exhausted := 1\<rparr>
       else slots s ! j))"
  by (rule poll_tx_idle [OF assms, unfolded overdue_def given_up_def])

theorem poll_gives_up_witness:
  "\<exists>s'. num8lora_sender_poll_tx (Some (demo_tx_waiting\<lparr>s_max_retries := 0\<rparr>)) 100 (Some []) 0 (Some 3)
      (Some 4) = (False, Some s', Some [], Some 0, Some 0) \<and> sl_exhausted (slots s' ! 0) = 1"
proof -
  let ?s = "demo_tx_waiting\<lparr>s_max_retries := 0\<rparr>"
  have inv: "sender_inv ?s"
    by (simp add: sender_inv_def log_inv_def history_def ring_def demo_defs deref_def slot_ok_def
      distinct_ids_def op_legal_def)
  have slot: "slots ?s ! 0 = demo_slot\<lparr>sl_inflight_op_id := 1, sl_waiting_ack := 1,
      sl_due_at_ms := 100\<rparr>"
    by (simp add: demo_tx_waiting_def deref_def)
  have cap: "unat (s_receiver_capacity ?s) = 1" by (simp add: demo_defs)
  then have "\<not> servable 100 (sender_reclaim_history ?s) (slots ?s ! j)"
    if "j < unat (s_receiver_capacity ?s)" for j
    using that slot by (simp add: servable_def demo_slot_def)
  from poll_gives_up [OF inv _ this, of "[]" 0 3 4] cap slot show ?thesis
    by (auto simp: demo_slot_def)
qed

text \<open>
  C25. Polling preserves the sender invariant and what the sender believes of each receiver,
  whatever the buffer and the time. The log afterwards is the reclaimed one: the latest id is
  the same, and every operation after the last one a registered receiver acknowledged is looked
  up as before the poll.
\<close>

theorem poll_keeps_invariant:
  assumes "sender_inv s" "unat cap \<le> length ob"
    and "num8lora_sender_poll_tx (Some s) now (Some ob) cap (Some l) (Some t) = (ok, Some s', b, n, t')"
  shows "sender_inv s' \<and> same_log (sender_reclaim_history s) s' \<and> same_progress s s'
    \<and> s_latest_op_id s' = s_latest_op_id s
    \<and> (\<forall>i k. i < unat (s_receiver_capacity s) \<longrightarrow> sl_active (slots s ! i) \<noteq> 0
        \<longrightarrow> sl_last_acked_op_id (slots s ! i) < k \<longrightarrow> find_op s' k = find_op s k)"
proof -
  have "polled now (sender_reclaim_history s) (ok, s', b, n, t')"
    using poll_tx_polled [OF assms(1,2), of now l t] assms(3) by auto
  then have inv: "sender_inv s'" and log: "same_log (sender_reclaim_history s) s'" and prog: "same_progress s s'"
    by (simp_all add: polled_def same_progress_def)
  have "find_op s' k = find_op (sender_reclaim_history s) k" for k
    using reclaim_log(6) [OF sender_inv_log [OF assms(1)]] by (rule find_op_same_log [OF _ sender_inv_log [OF inv] log])
  then show ?thesis
    using inv log prog reclaim_keeps_needed [OF sender_inv_log [OF assms(1)]] by (simp add: same_log_def)
qed

theorem poll_keeps_invariant_witness:
  "\<exists>ok s' b n t. num8lora_sender_poll_tx (Some demo_tx) 0 (Some (replicate 26 0)) 26 (Some 0) (Some 0)
      = (ok, Some s', b, n, t) \<and> sender_inv s' \<and> find_op s' 1 = find_op demo_tx 1"
proof -
  obtain ok s' b n t where e: "num8lora_sender_poll_tx (Some demo_tx) 0 (Some (replicate 26 0)) 26
      (Some 0) (Some 0) = (ok, Some s', b, n, t)"
    using poll_tx_polled [OF demo_tx_inv(1), of 26 "replicate 26 0" 0 0 0] by auto
  moreover have "unat (26 :: u32) \<le> length (replicate 26 (0 :: u8))" by simp
  moreover have "(0 :: nat) < unat (s_receiver_capacity demo_tx)" "sl_active (slots demo_tx ! 0) \<noteq> 0"
    "sl_last_acked_op_id (slots demo_tx ! 0) < 1"
    by (simp_all add: demo_defs deref_def)
  ultimately show ?thesis
    using poll_keeps_invariant [OF demo_tx_inv(1) _ e] by blast
qed

text \<open>
  C26. Handling any received bytes preserves the sender invariant.
\<close>

theorem rx_keeps_invariant:
  assumes "sender_inv s" "unat n \<le> length b"
    and "num8lora_sender_handle_rx (Some s) now (Some b) n = (ok, Some s')"
  shows "sender_inv s'"
  by (rule handle_rx_inv [OF assms(1,3,2)])

theorem rx_keeps_invariant_witness:
  "\<exists>ok s'. num8lora_sender_handle_rx (Some demo_tx_waiting) 50 (Some (op_ack_wire (7, 1, 3) demo_ack)) 18
      = (ok, Some s') \<and> sender_inv s'"
proof -
  obtain ok s' where e: "num8lora_sender_handle_rx (Some demo_tx_waiting) 50
      (Some (op_ack_wire (7, 1, 3) demo_ack)) 18 = (ok, Some s')"
    by (rule handle_rx_returns [of 18 "op_ack_wire (7, 1, 3) demo_ack"]) simp
  have "sender_inv s'" by (rule rx_keeps_invariant [OF demo_tx_inv(2) _ e]) simp
  then show ?thesis using e by blast
qed

text \<open>
  C27. Once a receiver is marked exhausted, no received frame changes its slot; and while it is
  registered every frame that carries its id as the sender is refused and leaves the whole
  sender as it was, also a REQUEST for the very operation it needs.
\<close>

theorem exhausted_ignores_frames:
  assumes "sender_inv s" "unat n \<le> length b" "i < unat (s_receiver_capacity s)"
    and "sl_exhausted (slots s ! i) \<noteq> 0"
    and "num8lora_sender_handle_rx (Some s) now (Some b) n = (ok, Some s')"
  shows "slots s' ! i = slots s ! i \<and> (sl_active (slots s ! i) \<noteq> 0
    \<longrightarrow> (\<exists>ver typ rid sq rest. take (unat n) b = header_bytes ver typ (sl_receiver_id (slots s ! i)) rid sq @ rest)
    \<longrightarrow> \<not> ok \<and> s' = s)"
proof -
  have idle: "sl_waiting_ack (slots s ! i) = 0"
    using sender_inv_slot [OF assms(1,3)] assms(4) by (auto simp: slot_ok_def split: if_splits)
  have other: "sl_receiver_id (slots s ! i) \<noteq> fst a" if "addressed s a j" "j \<noteq> i" "sl_active (slots s ! i) \<noteq> 0" for a j
    using that assms(3) find_slot_iff [OF assms(1), of "fst a" i] by (auto simp: addressed_def)
  show ?thesis
    using assms(5,2)
  proof (cases rule: handle_rx_cases)
    case (request j a p)
    then have "j \<noteq> i" using assms(4) by auto
    then show ?thesis
      using request(3,8) other [OF request(4)] by (auto dest: op_wire_sender)
  next
    case (ack j a p)
    then have "j \<noteq> i" using idle by auto
    then show ?thesis
      using ack(3,8) other [OF ack(4)] by (auto dest: op_wire_sender)
  next
    case (nack j a p)
    then have "j \<noteq> i" using idle by auto
    then show ?thesis
      using nack(3,8) other [OF nack(4)] by (auto dest: op_wire_sender)
  qed simp
qed

theorem exhausted_ignores_frames_witness:
  "num8lora_sender_handle_rx (Some (demo_tx\<lparr>s_receivers := Some [demo_slot\<lparr>sl_exhausted := 1\<rparr>]\<rparr>))
      50 (Some (op_request_wire (7, 1, 3) \<lparr>rp_stream_id = 9, rp_next_needed_op_id = 1\<rparr>)) 18
    = (False, Some (demo_tx\<lparr>s_receivers := Some [demo_slot\<lparr>sl_exhausted := 1\<rparr>]\<rparr>))"
proof -
  let ?s = "demo_tx\<lparr>s_receivers := Some [demo_slot\<lparr>sl_exhausted := 1\<rparr>]\<rparr>"
  let ?b = "op_request_wire (7, 1, 3) \<lparr>rp_stream_id = 9, rp_next_needed_op_id = 1\<rparr>"
  have inv: "sender_inv ?s"
    by (simp add: sender_inv_def log_inv_def history_def ring_def demo_defs deref_def slot_ok_def
      distinct_ids_def op_legal_def)
  obtain ok s' where e: "num8lora_sender_handle_rx (Some ?s) 50 (Some ?b) 18 = (ok, Some s')"
    by (rule handle_rx_returns [of 18 ?b ?s 50]) simp
  have slot: "slots ?s ! 0 = demo_slot\<lparr>sl_exhausted := 1\<rparr>" by (simp add: deref_def)
  have "take (unat (18 :: u32)) ?b = ?b" by simp
  then have "\<exists>ver typ rid sq rest. take (unat (18 :: u32)) ?b
      = header_bytes ver typ (sl_receiver_id (slots ?s ! 0)) rid sq @ rest"
    using op_wire_headers(1) [of "(7, 1, 3)" "\<lparr>rp_stream_id = 9, rp_next_needed_op_id = 1\<rparr>"] slot
    by (simp add: demo_slot_def) blast
  then have "\<not> ok \<and> s' = ?s"
    using exhausted_ignores_frames [OF inv _ _ _ e, of 0] slot by (simp add: demo_defs)
  then show ?thesis using e by simp
qed

text \<open>
  C28. A DATA frame for an operation already applied is acknowledged again with the current
  progress and changes nothing but the sequence number: the application is not called.
\<close>

theorem receiver_duplicate_acknowledged:
  assumes "op_data_valid (sid, r_receiver_id r, sq) d"
    and "take (unat n) b = op_data_wire (sid, r_receiver_id r, sq) d" "unat n \<le> length b"
    and "r_expected_sender_id r = 0 \<or> r_expected_sender_id r = sid" "dp_stream_id d = r_stream_id r"
    and "dp_op_id d \<le> r_last_applied_op_id r" "22 \<le> cap" "unat cap \<le> length ob"
  shows "num8lora_receiver_handle_data (Some r) (Some b) n fn u (Some ob) cap (Some l)
    = (True, Some (r\<lparr>r_seq := r_seq r + 1\<rparr>), u, Some (overlay ob 0 (op_ack_wire
        (r_receiver_id r, sid, r_seq r)
        \<lparr>ap_stream_id = r_stream_id r, ap_ack_op_id = r_last_applied_op_id r\<rparr>)), Some 18)"
proof -
  have "sid \<noteq> 0" "r_receiver_id r \<noteq> 0" "r_stream_id r \<noteq> 0" "dp_op_id d \<noteq> 0"
    using assms(1,5) by (auto simp: op_data_valid_def op_data_ok_def)
  moreover from this(4) have "r_last_applied_op_id r \<noteq> 0"
    using assms(6) by (auto simp: word_le_nat_alt word_unat_eq_iff)
  ultimately show ?thesis
    using assms handle_data_accept [OF assms(1-3,7), of r fn u ob l]
    by (auto simp: data_verdict_def reply_ack_accepts word_le_nat_alt)
qed

theorem receiver_duplicate_acknowledged_witness:
  "num8lora_receiver_handle_data (Some (demo_rx\<lparr>r_last_applied_op_id := 1\<rparr>))
      (Some (op_data_wire (1, 7, 4) demo_data)) 26 (Some (count_calls 7)) 3 (Some (replicate 22 0)) 22 (Some 0)
    = (True, Some (demo_rx\<lparr>r_last_applied_op_id := 1, r_seq := 2\<rparr>), 3,
       Some (overlay (replicate 22 0) 0 (op_ack_wire (7, 1, 1) demo_ack)), Some 18)"
  using receiver_duplicate_acknowledged [of 1 "demo_rx\<lparr>r_last_applied_op_id := 1\<rparr>" 4 demo_data 26
    "op_data_wire (1, 7, 4) demo_data" 22 "replicate 22 0" "Some (count_calls 7)" 3 0]
  by (simp add: op_data_valid_def op_data_ok_def demo_defs)

text \<open>
  C29. A DATA frame that skips an operation is refused with SEQUENCE_GAP and the id the receiver
  needs next; nothing is applied.
\<close>

theorem receiver_gap_refused:
  assumes "op_data_valid (sid, r_receiver_id r, sq) d"
    and "take (unat n) b = op_data_wire (sid, r_receiver_id r, sq) d" "unat n \<le> length b"
    and "r_expected_sender_id r = 0 \<or> r_expected_sender_id r = sid" "dp_stream_id d = r_stream_id r"
    and "unat (r_last_applied_op_id r) + 1 < unat (dp_op_id d)" "22 \<le> cap" "unat cap \<le> length ob"
  shows "num8lora_receiver_handle_data (Some r) (Some b) n fn u (Some ob) cap (Some l)
    = (True, Some (r\<lparr>r_seq := r_seq r + 1\<rparr>), u, Some (overlay ob 0 (op_nack_wire
        (r_receiver_id r, sid, r_seq r)
        \<lparr>np_stream_id = r_stream_id r, np_error_code = NUM8LORA_OP_ERR_SEQUENCE_GAP, np_detail = 0,
         np_expected_next_op_id = r_last_applied_op_id r + 1\<rparr>)), Some 22)"
proof -
  have lt: "r_last_applied_op_id r < dp_op_id d"
    using assms(6) by (simp add: word_less_nat_alt)
  have "r_last_applied_op_id r + 1 \<noteq> 0" by (rule Suc_neq_0_u32 [OF lt])
  moreover have "dp_op_id d \<noteq> r_last_applied_op_id r + 1"
    using assms(6) unat_Suc_less_u32 [OF lt] by auto
  moreover have "sid \<noteq> 0" "r_receiver_id r \<noteq> 0" "r_stream_id r \<noteq> 0"
    using assms(1,5) by (auto simp: op_data_valid_def op_data_ok_def)
  ultimately show ?thesis
    using assms lt handle_data_accept [OF assms(1-3,7), of r fn u ob l]
    by (auto simp: data_verdict_def reply_nack_accepts word_le_nat_alt not_le [symmetric])
qed

theorem receiver_gap_refused_witness:
  "num8lora_receiver_handle_data (Some demo_rx)
      (Some (op_data_wire (1, 7, 4) (demo_data\<lparr>dp_op_id := 2\<rparr>))) 26 (Some (count_calls 7)) 3
      (Some (replicate 22 0)) 22 (Some 0)
    = (True, Some (demo_rx\<lparr>r_seq := 2\<rparr>), 3, Some (overlay (replicate 22 0) 0 (op_nack_wire (7, 1, 1)
        \<lparr>np_stream_id = 9, np_error_code = 6, np_detail = 0, np_expected_next_op_id = 1\<rparr>)), Some 22)"
  using receiver_gap_refused [of 1 demo_rx 4 "demo_data\<lparr>dp_op_id := 2\<rparr>" 26
    "op_data_wire (1, 7, 4) (demo_data\<lparr>dp_op_id := 2\<rparr>)" 22 "replicate 22 0" "Some (count_calls 7)" 3 0]
  by (simp add: op_data_valid_def op_data_ok_def demo_defs)

text \<open>
  C30. With an output buffer too small for a NACK the receiver never calls the application and
  never moves its progress: an operation is not applied when its outcome could not be reported.
\<close>

theorem receiver_small_buffer_applies_nothing:
  assumes "num8lora_receiver_handle_data (Some r) (Some b) n fn u (Some ob) cap (Some l)
      = (ok, Some r', u', ob', l')"
    and "unat n \<le> length b" "cap < 22"
  shows "u' = u \<and> r_last_applied_op_id r' = r_last_applied_op_id r"
proof (cases rule: data.decode_cases [OF assms(2), of local_header local_data])
  case (1 a d)
  obtain sid rid sq where a: "a = (sid, rid, sq)" by (cases a)
  show ?thesis
    using assms(1,3) 1(1)
    by (auto simp: num8lora_receiver_handle_data_def Let_def a split: if_splits dest: reply_state)
next
  case 2
  then show ?thesis using assms(1) by (auto simp: num8lora_receiver_handle_data_def)
qed

theorem receiver_small_buffer_applies_nothing_witness:
  "let res = num8lora_receiver_handle_data (Some demo_rx) (Some (op_data_wire (1, 7, 4) demo_data)) 26
      (Some (count_calls 7)) 3 (Some (replicate 21 0)) 21 (Some 0)
    in fst (snd (snd res)) = 3"
proof -
  obtain ok r' u' ob' l' where e: "num8lora_receiver_handle_data (Some demo_rx)
      (Some (op_data_wire (1, 7, 4) demo_data)) 26 (Some (count_calls 7)) 3 (Some (replicate 21 0)) 21
      (Some 0) = (ok, r', u', ob', l')"
    by (metis prod.exhaust)
  have len: "unat (26 :: u32) \<le> length (op_data_wire (1, 7, 4) demo_data)" by simp
  obtain rr where "r' = Some rr" by (rule handle_data_step [OF e len]) auto
  with e receiver_small_buffer_applies_nothing [of demo_rx "op_data_wire (1, 7, 4) demo_data" 26
    "Some (count_calls 7)" 3 "replicate 21 0" 21 0 ok rr u' ob' l'] len
  show ?thesis by simp
qed

text \<open>
  C31. A BEACON of the stream that announces operations the receiver lacks is answered with a
  REQUEST for the first of them.
\<close>

theorem receiver_requests_missing:
  assumes "op_beacon_valid (sid, sq) p" "take (unat n) b = op_beacon_wire (sid, sq) p"
    and "unat n \<le> length b" "unat cap \<le> length ob" "18 \<le> unat cap" "r_receiver_id r \<noteq> 0"
    and "r_expected_sender_id r = 0 \<or> r_expected_sender_id r = sid"
    and "bp_stream_id p = r_stream_id r" "r_last_applied_op_id r < bp_latest_op_id p"
  shows "num8lora_receiver_handle_beacon (Some r) (Some b) n (Some ob) cap (Some l) =
    (True, Some (r\<lparr>r_seq := r_seq r + 1\<rparr>),
     Some (overlay ob 0 (op_request_wire (r_receiver_id r, sid, r_seq r)
       \<lparr>rp_stream_id = r_stream_id r, rp_next_needed_op_id = r_last_applied_op_id r + 1\<rparr>)), Some 18)"
  by (rule handle_beacon_accept [OF assms])

theorem receiver_requests_missing_witness:
  "num8lora_receiver_handle_beacon (Some demo_rx)
      (Some (op_beacon_wire (1, 3) \<lparr>bp_stream_id = 9, bp_latest_op_id = 4\<rparr>)) 18 (Some (replicate 18 0)) 18
      (Some 0)
    = (True, Some (demo_rx\<lparr>r_seq := 2\<rparr>), Some (overlay (replicate 18 0) 0 (op_request_wire (7, 1, 1)
       \<lparr>rp_stream_id = 9, rp_next_needed_op_id = 1\<rparr>)), Some 18)"
proof -
  let ?p = "\<lparr>bp_stream_id = 9, bp_latest_op_id = 4\<rparr>"
  have "op_beacon_valid (1, 3) ?p" by (simp add: op_beacon_ok_def)
  moreover have "take (unat (18 :: u32)) (op_beacon_wire (1, 3) ?p) = op_beacon_wire (1, 3) ?p"
    using length_op_beacon_wire [of "(1, 3)" ?p] by (simp del: op_beacon_wire.simps)
  ultimately show ?thesis
    using receiver_requests_missing [of 1 3 ?p 18 "op_beacon_wire (1, 3) ?p" 18 "replicate 18 0" demo_rx 0]
      length_op_beacon_wire [of "(1, 3)" ?p]
    by (simp add: demo_rx_def del: op_beacon_wire.simps)
qed

text \<open>
  C32. A repetition of the update applied last that agrees with all the receiver remembers of it
  (id, sender, receiver, both versions, both counts, and the checksum, which is the announced
  one) is acknowledged again, with the current version, and changes neither the engine nor
  anything of the context but the sequence number. The receiver no longer remembers after a
  restart, and has no checksum to compare when none was announced; such repetitions are not
  covered here (they are refused).
\<close>

theorem legacy_duplicate_acknowledged:
  assumes "repeats_last c sid rid u rs as" "update_header_ok u" "update_fits u rs as" "batch_ok rs as"
    and "sid \<noteq> 0" "rid \<noteq> 0" "rid = lr_receiver_id c \<or> lr_receiver_id c = NUM8LORA_ANY_RECEIVER_ID"
    and "lr_expected_sender_id c = 0 \<or> sid = lr_expected_sender_id c" "take (unat n) b = update_wire (sid, rid, sq) u rs as"
    and "unat n \<le> length b" "18 \<le> unat cap" "unat cap \<le> length ob"
    and "lr_local_dataset_version c \<noteq> 0"
  shows "num8lora_receiver_apply_update_data_to_num8 add remove flush (Some c) (Some e) (Some b) n
      (Some ob) cap (Some l) (Some err) =
    (True, Some (c\<lparr>lr_seq := lr_seq c + 1\<rparr>), Some e,
     Some (overlay ob 0 (legacy_ack_wire (lr_receiver_id c, sid, lr_seq c)
       \<lparr>a_ack_update_id = u_update_id u, a_receiver_dataset_ver = lr_local_dataset_version c\<rparr>)),
     Some 18, Some NUM8LORA_ERR_NONE)"
proof -
  have "acceptable c (sid, rid, sq) u rs as" using assms(1-8) by simp
  from apply_update_data_accepts [OF this assms(9-12)] show ?thesis
    using assms(1,13) by (simp add: legacy_reply_def repeats_last_def)
qed

theorem legacy_duplicate_acknowledged_witness:
  "fst (num8lora_receiver_apply_update_data_to_num8 list_add list_remove list_flush
      (Some (demo_updated 2)) (Some [9, 6, 8]) (Some (demo_frame 2)) 38 (Some (replicate 18 0)) 18 (Some 0) (Some 0))
    \<and> fst (snd (snd (num8lora_receiver_apply_update_data_to_num8 list_add list_remove list_flush
      (Some (demo_updated 2)) (Some [9, 6, 8]) (Some (demo_frame 2)) 38 (Some (replicate 18 0)) 18 (Some 0) (Some 0))))
      = Some [9, 6, 8]"
proof -
  have last: "repeats_last (demo_updated 2) 1 2 demo_update [5] [6, 9]"
    using demo_loaded(1) by (simp add: repeats_last_def demo_updated_def after_update_def demo_waiting_def
      after_beacon_def demo_receiver_def beacon_of_def Let_def loaded_def update_fits_def) (simp add: demo_sender_def)
  have frame: "take (unat (38 :: u32)) (demo_frame 2) = update_wire (1, 2, 2) demo_update [5] [6, 9]"
    "unat (38 :: u32) \<le> length (demo_frame 2)"
    using length_demo_frame [of 2] by (simp_all add: demo_frame_def)
  have "lr_local_dataset_version (demo_updated 2) \<noteq> 0" "lr_receiver_id (demo_updated 2) = 2"
    "lr_expected_sender_id (demo_updated 2) = 0"
    by (simp_all add: demo_updated_def after_update_def demo_update_def demo_waiting_def after_beacon_def
      demo_receiver_def)
  with legacy_duplicate_acknowledged [OF last demo_fits(2,1,3) _ _ _ _ frame, of 18 "replicate 18 0" list_add list_remove
    list_flush "[9, 6, 8]" 0 0] show ?thesis by simp
qed

text \<open>
  C33. When an engine operation fails, the receiver keeps its version and its last applied
  update and answers with a NACK APPLY_FAILED; what the engine did until then stays.
\<close>

theorem legacy_engine_failure_reported:
  assumes "acceptable c (sid, rid, sq) u rs as" "take (unat n) b = update_wire (sid, rid, sq) u rs as"
    and "unat n \<le> length b" "18 \<le> unat cap" "unat cap \<le> length ob"
    and "u_update_id u \<noteq> lr_last_applied_update_id c" "run_update add remove flush e rs as = (False, e')"
  shows "num8lora_receiver_apply_update_data_to_num8 add remove flush (Some c) (Some e) (Some b) n
      (Some ob) cap (Some l) (Some err) =
    (True, Some (c\<lparr>lr_seq := lr_seq c + 1\<rparr>), Some e',
     Some (overlay ob 0 (legacy_nack_wire (lr_receiver_id c, sid, lr_seq c)
       \<lparr>n_nack_update_id = u_update_id u, n_error_code = NUM8LORA_ERR_APPLY_FAILED, n_detail = 0\<rparr>)),
     Some 18, Some NUM8LORA_ERR_APPLY_FAILED)"
  unfolding apply_update_data_accepts [OF assms(1-5)] using assms(6,7) by (simp add: legacy_reply_def)

theorem legacy_engine_failure_reported_witness:
  "fst (snd (snd (num8lora_receiver_apply_update_data_to_num8 list_add list_remove (\<lambda>e. (NUM8_STATUS_OTHER 1, e))
      (Some (demo_waiting 2)) (Some [5, 8]) (Some (demo_frame 2)) 38 (Some (replicate 18 0)) 18 (Some 0) (Some 0))))
      = Some [9, 6, 8]
    \<and> snd (snd (snd (snd (snd (num8lora_receiver_apply_update_data_to_num8 list_add list_remove (\<lambda>e. (NUM8_STATUS_OTHER 1, e))
      (Some (demo_waiting 2)) (Some [5, 8]) (Some (demo_frame 2)) 38 (Some (replicate 18 0)) 18 (Some 0) (Some 0))))))
      = Some NUM8LORA_ERR_APPLY_FAILED"
proof -
  have frame: "take (unat (38 :: u32)) (demo_frame 2) = update_wire (1, 2, 2) demo_update [5] [6, 9]"
    "unat (38 :: u32) \<le> length (demo_frame 2)"
    using length_demo_frame [of 2] by (simp_all add: demo_frame_def)
  have new: "u_update_id demo_update \<noteq> lr_last_applied_update_id (demo_waiting 2)"
    by (simp add: demo_update_def demo_waiting_def after_beacon_def demo_receiver_def)
  have "run_update list_add list_remove (\<lambda>e. (NUM8_STATUS_OTHER 1, e)) [5, 8] [5] [6, 9] = (False, [9, 6, 8])"
    by (simp add: run_update_def list_add_def list_remove_def)
  from legacy_engine_failure_reported [OF demo_acceptable frame _ _ new this, of 18 "replicate 18 0" 0 0]
  show ?thesis by simp
qed

text \<open>
  C34. A timeout within the retry budget sends the same update to the same receiver again; only
  the sequence number and the retry count differ.
\<close>

theorem legacy_retransmission_same_update:
  assumes "ls_state c = NUM8LORA_SENDER_WAIT_ACK" "ls_retries c < ls_max_retries c" "loaded c rs as"
    and "ls_sender_id c \<noteq> 0" "ls_target_receiver_id c \<noteq> 0" "u_update_id (ls_update_hdr c) \<noteq> 0"
    and "update_size (ls_update_hdr c) \<le> unat cap" "unat cap \<le> length ob" "length ob < 2 ^ 32"
  shows "num8lora_sender_on_ack_timeout (Some c) (Some ob) cap (Some l) =
    (True, Some (c\<lparr>ls_retries := ls_retries c + 1, ls_seq := ls_seq c + 1\<rparr>),
     Some (overlay ob 0 (update_wire (ls_sender_id c, ls_target_receiver_id c, ls_seq c) (ls_update_hdr c) rs as)),
     Some (of_nat (update_size (ls_update_hdr c))))"
  by (rule ack_timeout_resends [OF assms])

theorem legacy_retransmission_same_update_witness:
  "num8lora_sender_on_ack_timeout (Some demo_sender_wait) (Some (replicate 38 0)) 38 (Some 0) =
    (True, Some (demo_sender_wait\<lparr>ls_retries := 1, ls_seq := 2\<rparr>),
     Some (overlay (replicate 38 0) 0 (update_wire (1, 2, 1) demo_update [5] [6, 9])), Some 38)"
proof -
  have s: "update_size demo_update = 38" by (simp add: update_size_def demo_update_def)
  have c: "ls_update_hdr demo_sender_wait = demo_update" "ls_state demo_sender_wait = NUM8LORA_SENDER_WAIT_ACK"
    "ls_sender_id demo_sender_wait = 1" "ls_target_receiver_id demo_sender_wait = 2" "ls_seq demo_sender_wait = 1"
    "ls_retries demo_sender_wait = 0" "ls_max_retries demo_sender_wait = 2" "u_update_id demo_update = 7"
    by (simp_all add: demo_sender_wait_def demo_sender_def demo_update_def)
  show ?thesis
    using legacy_retransmission_same_update [of demo_sender_wait "[5]" "[6, 9]" 38 "replicate 38 0" 0] demo_loaded(2)
    by (simp add: c s word_less_nat_alt)
qed

text \<open>
  C35. While the sender is not idle (it waits for requests or for the acknowledgement of the
  update in flight), a request for another update, or for the update from another version, is
  answered with a NACK (UPDATE_ID_UNKNOWN or DATASET_VERSION_MISMATCH) and sends it to idle.
\<close>

theorem stray_request_ends_transfer:
  assumes "legacy_request_valid (rid, ls_sender_id c, sq) q"
    and "take (unat n) b = legacy_request_wire (rid, ls_sender_id c, sq) q" "unat n \<le> length b"
    and "ls_state c \<noteq> NUM8LORA_SENDER_IDLE"
    and "q_requested_update_id q \<noteq> u_update_id (ls_update_hdr c)
      \<or> q_receiver_dataset_ver q \<noteq> u_dataset_version_from (ls_update_hdr c)"
    and "18 \<le> unat cap" "unat cap \<le> length ob"
  shows "num8lora_sender_handle_update_request (Some c) (Some b) n (Some ob) cap (Some l) =
    (let err = if q_requested_update_id q \<noteq> u_update_id (ls_update_hdr c) then NUM8LORA_ERR_UPDATE_ID_UNKNOWN
       else NUM8LORA_ERR_DATASET_VERSION_MISMATCH in
     (True, Some (c\<lparr>ls_last_nack_error := err, ls_seq := ls_seq c + 1, ls_state := NUM8LORA_SENDER_IDLE\<rparr>),
      Some (overlay ob 0 (legacy_nack_wire (ls_sender_id c, rid, ls_seq c)
        \<lparr>n_nack_update_id = q_requested_update_id q, n_error_code = err, n_detail = 0\<rparr>)), Some 18))"
  by (rule handle_request_mismatch [OF assms])

theorem stray_request_ends_transfer_witness:
  "\<exists>f c. num8lora_sender_handle_update_request (Some demo_sender_wait) (Some f) 18 (Some (replicate 18 0)) 18 (Some 0)
      = (True, Some c, Some (overlay (replicate 18 0) 0 (legacy_nack_wire (1, 3, 1) \<lparr>n_nack_update_id = 8,
       n_error_code = NUM8LORA_ERR_UPDATE_ID_UNKNOWN, n_detail = 0\<rparr>)), Some 18)
    \<and> ls_state c = NUM8LORA_SENDER_IDLE"
proof -
  let ?q = "\<lparr>q_requested_update_id = 8, q_receiver_dataset_ver = 1\<rparr>"
  let ?f = "legacy_request_wire (3, 1, 1) ?q"
  have c: "ls_sender_id demo_sender_wait = 1" "ls_state demo_sender_wait = NUM8LORA_SENDER_WAIT_ACK"
    "u_update_id (ls_update_hdr demo_sender_wait) = 7" "ls_seq demo_sender_wait = 1"
    by (simp_all add: demo_sender_wait_def demo_sender_def demo_update_def)
  have "length ?f = 18" by (simp add: legacy_request_wire_def)
  then show ?thesis
    using stray_request_ends_transfer [of 3 demo_sender_wait 1 ?q 18 ?f 18 "replicate 18 0" 0]
    by (intro exI [of _ ?f]) (simp add: c legacy_request_valid_def legacy_request_ok_def)
qed

text \<open>
  C36. A legacy receiver that accepts any sender (expected sender 0) never repeats a request:
  the retry is addressed to sender 0, which the encoder refuses.
\<close>

theorem any_sender_retry_fails:
  assumes "lr_expected_sender_id c = 0" "unat cap \<le> length ob"
    and "num8lora_receiver_on_update_timeout (Some c) (Some ob) cap (Some l) = (ok, c', b', l')"
  shows "\<not> ok \<and> b' = Some ob \<and> l' = Some 0"
  by (rule update_timeout_any_sender [OF assms])

theorem any_sender_retry_fails_witness:
  "\<not> fst (num8lora_receiver_on_update_timeout (Some (demo_waiting 2)) (Some (replicate 18 0)) 18 (Some 0))"
proof -
  obtain ok c' b' l' where r: "num8lora_receiver_on_update_timeout (Some (demo_waiting 2)) (Some (replicate 18 0)) 18 (Some 0)
      = (ok, c', b', l')" by (metis prod_cases4)
  have "lr_expected_sender_id (demo_waiting 2) = 0"
    by (simp add: demo_waiting_def after_beacon_def demo_receiver_def)
  from any_sender_retry_fails [OF this _ r] r show ?thesis by simp
qed

text \<open>
  C37. num8lora_classify_frame lets pass exactly the sealed frames of the current protocol
  version with the expected type and receiver (no receiver for a beacon), and reports their
  header.
\<close>

theorem classify_frame_exact:
  assumes "unat n \<le> length b"
  shows "num8lora_classify_frame (Some b) n er ek (Some h0) (Some e0) = (True, Some h, Some e) \<longleftrightarrow>
    e = NUM8LORA_ERR_NONE \<and> (\<exists>kind sid rid sq pay. h = legacy_header kind sid rid sq
      \<and> take (unat n) b = frame kind sid rid sq pay \<and> kind \<noteq> 0 \<and> kind \<le> 5 \<and> (ek = 0 \<or> kind = ek)
      \<and> (er = NUM8LORA_ANY_RECEIVER_ID \<or> rid = (if kind = NUM8LORA_MSG_BEACON then 0 else er)))"
  unfolding classify_iff [OF assms] by (auto simp: expected_frame_def)

theorem classify_frame_exact_witness:
  "num8lora_classify_frame (Some (demo_frame 2)) 38 2 3 (Some zero_common_header) (Some 9)
    = (True, Some (legacy_header 3 1 2 2), Some 0)"
proof -
  have len: "unat (38 :: u32) \<le> length (demo_frame 2)" by simp
  have "take (unat (38 :: u32)) (demo_frame 2) = frame 3 1 2 2 (update_bytes demo_update [5] [6, 9])"
    using length_demo_frame [of 2] by (simp add: demo_frame_def update_wire_def)
  then show ?thesis
    unfolding classify_frame_exact [OF len] by (auto simp: word_le_nat_alt)
qed

text \<open>
  C38. Beacon, request, ACK and NACK of the legacy protocol: what an encoder reports as written,
  its decoder reads back, addresses and payload, whatever the output structs held before.
\<close>

theorem legacy_frames_roundtrip:
  assumes "unat cap \<le> length b"
  shows "(num8lora_encode_beacon (Some b) cap sid sq (Some p) (Some l) = (True, Some f, Some n) \<longrightarrow>
      num8lora_decode_beacon (Some f) n (Some h0) (Some p0)
        = (True, Some (legacy_header NUM8LORA_MSG_BEACON sid 0 sq), Some p))
    \<and> (num8lora_encode_update_request (Some b) cap sid rid sq (Some q) (Some l) = (True, Some f, Some n) \<longrightarrow>
      num8lora_decode_update_request (Some f) n (Some h0) (Some q0)
        = (True, Some (legacy_header NUM8LORA_MSG_UPDATE_REQUEST sid rid sq), Some q))
    \<and> (num8lora_encode_ack (Some b) cap sid rid sq (Some a) (Some l) = (True, Some f, Some n) \<longrightarrow>
      num8lora_decode_ack (Some f) n (Some h0) (Some a0)
        = (True, Some (legacy_header NUM8LORA_MSG_ACK sid rid sq), Some a))
    \<and> (num8lora_encode_nack (Some b) cap sid rid sq (Some k) (Some l) = (True, Some f, Some n) \<longrightarrow>
      num8lora_decode_nack (Some f) n (Some h0) (Some k0)
        = (True, Some (legacy_header NUM8LORA_MSG_NACK sid rid sq), Some k))"
  using assms legacy_beacon.roundtrip [of b cap "(sid, sq)" p l f n h0 p0]
    legacy_request.roundtrip [of b cap "(sid, rid, sq)" q l f n h0 q0]
    legacy_ack.roundtrip [of b cap "(sid, rid, sq)" a l f n h0 a0]
    legacy_nack.roundtrip [of b cap "(sid, rid, sq)" k l f n h0 k0]
  by (auto simp: pack_broadcast_def pack_unicast_def)

theorem legacy_frames_roundtrip_witness:
  "\<exists>f. num8lora_encode_ack (Some (replicate 18 0)) 18 2 1 5 (Some \<lparr>a_ack_update_id = 7, a_receiver_dataset_ver = 2\<rparr>) (Some 0)
      = (True, Some f, Some 18)
    \<and> fst (num8lora_decode_ack (Some f) 18 (Some zero_common_header) (Some \<lparr>a_ack_update_id = 0, a_receiver_dataset_ver = 0\<rparr>))"
proof -
  let ?p = "\<lparr>a_ack_update_id = 7, a_receiver_dataset_ver = 2\<rparr>"
  have e: "num8lora_encode_ack (Some (replicate 18 0)) 18 2 1 5 (Some ?p) (Some 0) =
      (True, Some (overlay (replicate 18 0) 0 (legacy_ack_wire (2, 1, 5) ?p)), Some 18)"
    using encode_ack_cases [of 18 "replicate 18 0" 2 1 5 ?p 0] by (simp add: legacy_ack_valid_def legacy_ack_ok_def)
  have "unat (18 :: u32) \<le> length (replicate 18 (0 :: u8))" by simp
  from legacy_frames_roundtrip [OF this] e show ?thesis by (metis fst_conv)
qed

text \<open>
  C39. When no library call fails, a record saved to a file is loaded back unchanged, in spite
  of what the file or the record variable held before.
\<close>

theorem save_then_load:
  assumes "io_fine io" "io_fine io'" "metadata_valid () r" "length p \<le> 1019"
    and "num8lora_metadata_save_file io fs (Some p) (Some r) e = (ok, fs', e')"
  shows "ok \<and> num8lora_metadata_load_file io' fs' (Some p) (Some r0) (Some x)
    = (True, Some r, Some NUM8LORA_METADATA_ERR_NONE)"
proof -
  have s: "ok" "fs' p = Some (metadata_wire () r)"
    using assms(5) unfolding save_file_succeeds [OF assms(1,3,4)] by auto
  show ?thesis
    using s load_file_exact [OF assms(2), of fs' p "metadata_wire () r" r0 "Some x"] decode_record_wire [OF assms(3), of r0 "Some x"] by simp
qed

theorem save_then_load_witness:
  "num8lora_metadata_load_file demo_io (fst (snd (num8lora_metadata_save_file demo_io Map.empty (Some ''m'')
      (Some demo_record) None))) (Some ''m'') (Some zero_metadata_record) (Some 3) = (True, Some demo_record, Some 0)"
proof -
  obtain ok fs' e' where s: "num8lora_metadata_save_file demo_io Map.empty (Some ''m'') (Some demo_record) None
      = (ok, fs', e')" by (metis prod_cases3)
  have "io_fine demo_io" "metadata_valid () demo_record"
    by (simp_all add: io_fine_def demo_io_def metadata_valid_def demo_record_def)
  then show ?thesis
    using save_then_load [OF _ _ _ _ s, of demo_io zero_metadata_record 3] s by simp
qed

text \<open>
  C40. The two encoders of operation and update frames never write at or past the length they
  report, which is at most the capacity, and leave the rest of the buffer of the caller as it
  was; a failing call leaves all of it and reports length 0.
\<close>

theorem encoders_stay_in_buffer:
  assumes "unat cap \<le> length b" "length b < 2 ^ 32"
    and "num8lora_op_encode_data (Some b) cap sid rid sq (Some p) (Some l) = (ok, b1, n1)"
    and "num8lora_encode_update_data (Some b) cap sid rid sq (Some u) (Some rs) (Some as) (Some l) = (ok', b2, n2)"
    and "length rs = unat (u_remove_count u)" "length as = unat (u_add_count u)"
  shows "(\<exists>c m. b1 = Some c \<and> n1 = Some m \<and> length c = length b \<and> unat m \<le> unat cap
      \<and> drop (unat m) c = drop (unat m) b)
    \<and> (\<exists>c m. b2 = Some c \<and> n2 = Some m \<and> length c = length b \<and> unat m \<le> unat cap
      \<and> drop (unat m) c = drop (unat m) b)
    \<and> (\<not> ok \<longrightarrow> b1 = Some b \<and> n1 = Some 0) \<and> (\<not> ok' \<longrightarrow> b2 = Some b \<and> n2 = Some 0)"
proof (intro conjI)
  have d: "pack_unicast num8lora_op_encode_data (Some b) cap (sid, rid, sq) (Some p) (Some l) = (ok, b1, n1)"
    using assms(3) by (simp add: pack_unicast_def)
  from data.encode_footprint [OF d assms(1)]
  show "\<exists>c m. b1 = Some c \<and> n1 = Some m \<and> length c = length b \<and> unat m \<le> unat cap
      \<and> drop (unat m) c = drop (unat m) b" by blast
  show "\<exists>c m. b2 = Some c \<and> n2 = Some m \<and> length c = length b \<and> unat m \<le> unat cap
      \<and> drop (unat m) c = drop (unat m) b"
    using encode_update_footprint(1) [OF assms(4,5,6,1,2)] by blast
  show "\<not> ok \<longrightarrow> b1 = Some b \<and> n1 = Some 0"
    using data.encode_failure [OF _ assms(1)] d by (cases ok) simp_all
  show "\<not> ok' \<longrightarrow> b2 = Some b \<and> n2 = Some 0"
    by (rule encode_update_footprint(2) [OF assms(4,5,6,1,2)])
qed

theorem encoders_stay_in_buffer_witness:
  "\<exists>ok c m. num8lora_encode_update_data (Some (replicate 38 0 @ [7, 8])) 40 1 2 2 (Some demo_update) (Some [5]) (Some [6, 9]) (Some 0)
      = (ok, Some c, Some m) \<and> length c = 40 \<and> unat m \<le> 40"
proof -
  obtain ok1 b1 n1 where d: "num8lora_op_encode_data (Some (replicate 38 0 @ [7, 8])) 40 1 2 2 (Some demo_data) (Some 0)
      = (ok1, b1, n1)" by (metis prod_cases3)
  obtain ok2 b2 n2 where u: "num8lora_encode_update_data (Some (replicate 38 0 @ [7, 8])) 40 1 2 2 (Some demo_update)
      (Some [5]) (Some [6, 9]) (Some 0) = (ok2, b2, n2)" by (metis prod_cases3)
  have size: "unat (40 :: u32) \<le> length (replicate 38 0 @ [7, 8 :: u8])" "length (replicate 38 0 @ [7, 8 :: u8]) < 2 ^ 32"
    "length [5 :: u32] = unat (u_remove_count demo_update)" "length [6, 9 :: u32] = unat (u_add_count demo_update)"
    by (simp_all add: demo_update_def)
  from encoders_stay_in_buffer [OF size(1,2) d u size(3,4)] u show ?thesis by auto
qed

end
